theory Spec2Isabelle
  imports Main
begin

section \<open>Python values\<close>

text \<open>
  A parsed JSON document (the "resource dict" of resource.py): the output of json.loads.
  A Python dict is an association list in insertion order; lookup takes the first
  binding of a key. Strings are lists of code points below 256. Floating point numbers
  are not part of this model.
\<close>

datatype json =
    JNull
  | JBool bool
  | JInt int
  | JStr string
  | JList "json list"
  | JObj "(string \<times> json) list"

text \<open>The exceptions the modelled code can raise. \<open>ApiError\<close> carries an instance of
  errors.Error; the others are Python's built-in exceptions. \<open>Unsupported\<close> marks a
  builtin applied outside the fragment modelled here.\<close>

record Error =
  cls_name :: string
  http_status :: int
  error_id :: "string option"
  about :: string
  code :: "string option"
  title :: string
  detail :: string
  source_pointer :: string
  source_parameter :: "string option"
  meta :: "(string \<times> json) list option"

datatype exn =
    ApiError Error
  | KeyError string
  | TypeError
  | AttributeError string
  | ValueError
  | AssertionError
  | Unsupported string

text \<open>Truth value testing: None, False, 0 and empty containers are false.\<close>

fun truthy :: "json \<Rightarrow> bool" where
  "truthy JNull = False"
| "truthy (JBool b) = b"
| "truthy (JInt n) = (n \<noteq> 0)"
| "truthy (JStr s) = (s \<noteq> [])"
| "truthy (JList xs) = (xs \<noteq> [])"
| "truthy (JObj kvs) = (kvs \<noteq> [])"

text \<open>\<open>d[k]\<close>: KeyError on a dict without the key, TypeError on anything that is not a
  dict (None, a number, and a string or list indexed by a string).\<close>

fun getitem :: "json \<Rightarrow> string \<Rightarrow> exn + json" where
  "getitem (JObj kvs) k = (case map_of kvs k of None \<Rightarrow> Inl (KeyError k) | Some v \<Rightarrow> Inr v)"
| "getitem _ k = Inl TypeError"

subsection \<open>str() and int()\<close>

definition digit_char :: "nat \<Rightarrow> char" where
  "digit_char d = char_of (48 + d)"

fun str_nat :: "nat \<Rightarrow> string" where
  "str_nat n = (if n < 10 then [digit_char n] else str_nat (n div 10) @ [digit_char (n mod 10)])"

declare str_nat.simps [simp del]

definition str_int :: "int \<Rightarrow> string" where
  "str_int i = (if i < 0 then CHR ''-'' # str_nat (nat (- i)) else str_nat (nat i))"

text \<open>\<open>str(x)\<close> for the scalars; the repr of a list or dict is outside the model.\<close>

fun py_str :: "json \<Rightarrow> exn + string" where
  "py_str JNull = Inr ''None''"
| "py_str (JBool b) = Inr (if b then ''True'' else ''False'')"
| "py_str (JInt i) = Inr (str_int i)"
| "py_str (JStr s) = Inr s"
| "py_str (JList xs) = Inl (Unsupported ''str of a list'')"
| "py_str (JObj kvs) = Inl (Unsupported ''str of a dict'')"

text \<open>\<open>str.isspace\<close> on code points below 256, and \<open>str.strip()\<close>.\<close>

definition py_isspace :: "char \<Rightarrow> bool" where
  "py_isspace c = (of_char c \<in> {9, 10, 11, 12, 13, 28, 29, 30, 31, 32, 133, 160 :: nat})"

definition py_strip :: "string \<Rightarrow> string" where
  "py_strip s = rev (dropWhile py_isspace (rev (dropWhile py_isspace s)))"

definition is_digit :: "char \<Rightarrow> bool" where
  "is_digit c = (48 \<le> (of_char c :: nat) \<and> (of_char c :: nat) \<le> 57)"

definition digit_val :: "char \<Rightarrow> nat" where
  "digit_val c = of_char c - 48"

text \<open>The digits of an integer literal after the sign: a digit first, then digits with
  single underscores between them. \<open>acc\<close> is the number read so far.\<close>

fun int_digits :: "nat \<Rightarrow> string \<Rightarrow> nat option" where
  "int_digits acc [] = Some acc"
| "int_digits acc [c] = (if is_digit c then Some (10 * acc + digit_val c) else None)"
| "int_digits acc (c # d # cs) =
     (if is_digit c then int_digits (10 * acc + digit_val c) (d # cs)
      else if c = CHR ''_'' \<and> is_digit d then int_digits acc (d # cs)
      else None)"

definition int_unsigned :: "string \<Rightarrow> nat option" where
  "int_unsigned s = (case s of [] \<Rightarrow> None | c # cs \<Rightarrow> if is_digit c then int_digits 0 s else None)"

text \<open>
  The white space that \<open>int()\<close> skips around a literal is not that of \<open>str.isspace\<close>:
  it is the ASCII white space (tab, line feed, vertical tab, form feed, carriage return,
  blank) and, of the other code points below 256, U+0085 and U+00A0, which \<open>int\<close>
  replaces by a blank before it parses. The separators U+001C to U+001F are not skipped:
  \<open>int\<close> of U+001C followed by the digit 5 raises ValueError.
\<close>

definition int_isspace :: "char \<Rightarrow> bool" where
  "int_isspace c = (of_char c \<in> {9, 10, 11, 12, 13, 32, 133, 160 :: nat})"

definition int_strip :: "string \<Rightarrow> string" where
  "int_strip s = rev (dropWhile int_isspace (rev (dropWhile int_isspace s)))"

text \<open>\<open>int(s)\<close> for a string, base 10: None stands for ValueError. Integers are
  unbounded, as Python's are; the limit that CPython 3.11 and later put on the number of
  digits of a literal (\<open>sys.set_int_max_str_digits\<close>) is not part of the model.\<close>

definition int_of_str :: "string \<Rightarrow> int option" where
  "int_of_str s =
     (case int_strip s of
        [] \<Rightarrow> None
      | c # cs \<Rightarrow>
          if c = CHR ''-'' then map_option (\<lambda>n. - int n) (int_unsigned cs)
          else if c = CHR ''+'' then map_option int (int_unsigned cs)
          else map_option int (int_unsigned (c # cs)))"

fun py_int :: "json \<Rightarrow> exn + int" where
  "py_int (JStr s) = (case int_of_str s of None \<Rightarrow> Inl ValueError | Some i \<Rightarrow> Inr i)"
| "py_int (JInt i) = Inr i"
| "py_int (JBool b) = Inr (if b then 1 else 0)"
| "py_int _ = Inl TypeError"

text \<open>The number a string of digits stands for, read after the number \<open>acc\<close>.\<close>

definition digits_value :: "string \<Rightarrow> nat \<Rightarrow> nat" where
  "digits_value ds acc = fold (\<lambda>c a. 10 * a + digit_val c) ds acc"

section \<open>errors.py\<close>

text \<open>The keyword arguments of \<open>Error.__init__\<close> and their defaults.\<close>

record error_kwargs =
  kw_id :: "string option"
  kw_about :: string
  kw_code :: "string option"
  kw_title :: "string option"
  kw_detail :: string
  kw_source_parameter :: "string option"
  kw_source_pointer :: "string option"
  kw_meta :: "(string \<times> json) list option"

definition no_kwargs :: error_kwargs where
  "no_kwargs = \<lparr> kw_id = None, kw_about = [], kw_code = None, kw_title = None, kw_detail = [],
     kw_source_parameter = None, kw_source_pointer = None, kw_meta = None \<rparr>"

text \<open>\<open>str(source_pointer)\<close> as \<open>Error.__init__\<close> applies it to its argument.\<close>

definition str_opt :: "string option \<Rightarrow> string" where
  "str_opt p = (case p of None \<Rightarrow> ''None'' | Some s \<Rightarrow> s)"

text \<open>\<open>Error.__init__\<close>; \<open>name\<close> is \<open>type(self).__name__\<close>.\<close>

definition Error_init :: "string \<Rightarrow> int \<Rightarrow> error_kwargs \<Rightarrow> Error" where
  "Error_init name status kw =
     \<lparr> cls_name = name,
       http_status = status,
       error_id = kw_id kw,
       about = kw_about kw,
       code = kw_code kw,
       title = (case kw_title kw of Some t \<Rightarrow> t | None \<Rightarrow> name),
       detail = kw_detail kw,
       source_pointer = str_opt (kw_source_pointer kw),
       source_parameter = kw_source_parameter kw,
       meta = kw_meta kw \<rparr>"

definition BadRequest :: "error_kwargs \<Rightarrow> Error" where
  "BadRequest kw = Error_init ''BadRequest'' 400 kw"

definition Forbidden :: "error_kwargs \<Rightarrow> Error" where
  "Forbidden kw = Error_init ''Forbidden'' 403 kw"

definition UnprocessableEntity :: "error_kwargs \<Rightarrow> Error" where
  "UnprocessableEntity kw = Error_init ''UnprocessableEntity'' 422 kw"

text \<open>Truthiness of a string, and of an optional string (None and the empty string are
  false).\<close>

definition truthy_str :: "string \<Rightarrow> bool" where
  "truthy_str s = (s \<noteq> [])"

definition truthy_opt :: "string option \<Rightarrow> bool" where
  "truthy_opt p = (case p of None \<Rightarrow> False | Some s \<Rightarrow> truthy_str s)"

text \<open>The \<open>json\<close> property of \<open>Error\<close>: the members are added in the order of the source.\<close>

definition Error_json :: "Error \<Rightarrow> (string \<times> json) list" where
  "Error_json e =
     (case error_id e of None \<Rightarrow> [] | Some i \<Rightarrow> [(''id'', JStr i)]) @
     [(''status'', JInt (http_status e)), (''title'', JStr (title e))] @
     (if truthy_str (about e) then [(''links'', JObj [(''about'', JStr (about e))])] else []) @
     (case code e of None \<Rightarrow> [] | Some c \<Rightarrow> if truthy_str c then [(''code'', JStr c)] else []) @
     (if truthy_str (detail e) then [(''detail'', JStr (detail e))] else []) @
     (if truthy_str (source_pointer e) \<or> truthy_opt (source_parameter e) then
        [(''source'', JObj (
            (if truthy_str (source_pointer e) then [(''pointer'', JStr (source_pointer e))] else []) @
            (case source_parameter e of
               None \<Rightarrow> []
             | Some p \<Rightarrow> if truthy_str p then [(''parameter'', JStr p)] else [])))]
      else []) @
     (case meta e of None \<Rightarrow> [] | Some m \<Rightarrow> if m \<noteq> [] then [(''meta'', JObj m)] else [])"

section \<open>utilities.py: the comma splitter\<close>

text \<open>
  The loop of \<open>split_str_on_comma\<close> runs over \<open>range(len(str))\<close>; assigning to \<open>i\<close>
  in the body changes the index read in this iteration only.
\<close>

record split_state =
  is_escaped :: bool
  result :: "string list"
  sub_str :: string

definition backslash :: char where
  "backslash = CHR 0x5C"

definition split_body :: "string \<Rightarrow> nat \<Rightarrow> split_state \<Rightarrow> split_state" where
  "split_body str i st =
     (if str ! i = CHR '','' \<and> \<not> is_escaped st then
        st\<lparr> result := (if sub_str st \<noteq> [] then result st @ [sub_str st] else result st),
            sub_str := [] \<rparr>
      else if is_escaped st then st\<lparr> is_escaped := False \<rparr>
      else if str ! i = backslash then
        (let j = (if i < length str - 1 then i + 1 else i)
         in st\<lparr> is_escaped := True, sub_str := sub_str st @ [str ! j] \<rparr>)
      else st\<lparr> sub_str := sub_str st @ [str ! i] \<rparr>)"

text \<open>After the loop: \<open>if sub_str: result.append(sub_str)\<close>, then \<open>return result\<close>.\<close>

definition split_return :: "split_state \<Rightarrow> string list" where
  "split_return st = (if sub_str st \<noteq> [] then result st @ [sub_str st] else result st)"

definition split_str_on_comma :: "string \<Rightarrow> string list" where
  "split_str_on_comma str =
     split_return (fold (split_body str) [0 ..< length str]
                     \<lparr> is_escaped = False, result = [], sub_str = [] \<rparr>)"

text \<open>
  The tokens of a string, by recursion on the characters: \<open>cur\<close> is the token being
  read. A backslash takes the next character literally and is itself left out; a
  backslash with nothing after it stands for itself; a comma closes the token; an empty
  token is dropped.
\<close>

fun tokens :: "string \<Rightarrow> string \<Rightarrow> string list" where
  "tokens cur [] = (if cur \<noteq> [] then [cur] else [])"
| "tokens cur [c] =
     (if c = CHR '','' then (if cur \<noteq> [] then [cur] else []) else [cur @ [c]])"
| "tokens cur (c # d # cs) =
     (if c = CHR '','' then (if cur \<noteq> [] then [cur] else []) @ tokens [] (d # cs)
      else if c = backslash then tokens (cur @ [d]) cs
      else tokens (cur @ [c]) (d # cs))"

section \<open>Raising and sequencing\<close>

text \<open>A computation that can raise is a value of \<open>exn + 'a\<close>; \<open>sbind\<close> runs the rest only
  when the first part returned.\<close>

definition sbind :: "exn + 'a \<Rightarrow> ('a \<Rightarrow> exn + 'b) \<Rightarrow> exn + 'b" where
  "sbind m f = (case m of Inl e \<Rightarrow> Inl e | Inr x \<Rightarrow> f x)"

text \<open>A \<open>for\<close> loop whose body only checks: it stops at the first element that raises.\<close>

fun for_each :: "('a \<Rightarrow> exn + unit) \<Rightarrow> 'a list \<Rightarrow> exn + unit" where
  "for_each f [] = Inr ()"
| "for_each f (x # xs) = (case f x of Inl e \<Rightarrow> Inl e | Inr u \<Rightarrow> for_each f xs)"

text \<open>\<open>raise BadRequest(detail=..., source_pointer=...)\<close>, as the validators do.\<close>

definition raise_BadRequest :: "string \<Rightarrow> string \<Rightarrow> exn + 'a" where
  "raise_BadRequest d sp =
     Inl (ApiError (BadRequest (no_kwargs\<lparr> kw_detail := d, kw_source_pointer := Some sp \<rparr>)))"

section \<open>utilities.py: check_number, and pagination.py: NumberSize.from_request\<close>

text \<open>
  \<open>check_number(number, name)\<close>: the argument is what \<open>query_args.get\<close> returned, a
  string or None. A false argument (None or the empty string) is returned as it is.
\<close>

definition raise_parameter :: "string \<Rightarrow> string \<Rightarrow> exn + 'a" where
  "raise_parameter d name =
     Inl (ApiError (BadRequest (no_kwargs\<lparr> kw_detail := d, kw_source_parameter := Some name \<rparr>)))"

definition check_number :: "string option \<Rightarrow> string \<Rightarrow> exn + json" where
  "check_number number name =
     (case number of
        None \<Rightarrow> Inr JNull
      | Some s \<Rightarrow>
          if s = [] then Inr (JStr s)
          else (case int_of_str s of
                  None \<Rightarrow> raise_parameter (''The '' @ [CHR 0x27] @ name @ [CHR 0x27] @ '' must be an integer.'') name
                | Some n \<Rightarrow>
                    if n < 1
                    then raise_parameter (''The '' @ [CHR 0x27] @ name @ [CHR 0x27] @ '' must be >= 1.'') name
                    else Inr (JInt n)))"

text \<open>The part of \<open>Request\<close> that pagination reads. \<open>query_args\<close> is a multi-dict: the
  list of its (key, value) items; \<open>get\<close> returns the first value of a key.\<close>

record Request =
  query_args :: "(string \<times> string) list"
  link_prefix :: string

definition args_get :: "(string \<times> string) list \<Rightarrow> string \<Rightarrow> string option" where
  "args_get args k = map_of args k"

text \<open>\<open>args.to_dict()\<close>: one item per key, with the key's first value.\<close>

fun to_dict :: "(string \<times> string) list \<Rightarrow> (string \<times> string) list" where
  "to_dict [] = []"
| "to_dict ((k, v) # kvs) = (k, v) # to_dict (filter (\<lambda>kv. fst kv \<noteq> k) kvs)"

record NumberSize =
  ns_link_prefix :: string
  ns_japi_resource_url_component :: string
  ns_query :: "(string \<times> string) list"
  number :: int
  size_of_page :: int
  total_resources :: int

text \<open>\<open>x > 0\<close> and \<open>x == 0\<close> for what \<open>check_number\<close> can return: comparing None or a
  string with a number raises TypeError, and neither equals 0.\<close>

fun greater_zero :: "json \<Rightarrow> exn + bool" where
  "greater_zero (JInt n) = Inr (0 < n)"
| "greater_zero (JBool b) = Inr b"
| "greater_zero _ = Inl TypeError"

fun equals_zero :: "json \<Rightarrow> bool" where
  "equals_zero (JInt n) = (n = 0)"
| "equals_zero (JBool b) = (\<not> b)"
| "equals_zero _ = False"

fun int_value :: "json \<Rightarrow> int" where
  "int_value (JInt n) = n"
| "int_value (JBool b) = (if b then 1 else 0)"
| "int_value _ = 0"

text \<open>\<open>NumberSize.__init__\<close>: the three assertions, after the base class stored the
  query.\<close>

definition NumberSize_init ::
  "string \<Rightarrow> string \<Rightarrow> (string \<times> string) list \<Rightarrow> json \<Rightarrow> json \<Rightarrow> int \<Rightarrow> exn + NumberSize" where
  "NumberSize_init prefix component args num sz total_n =
     sbind (greater_zero num) (\<lambda>num_ok.
       if \<not> num_ok then Inl AssertionError
       else sbind (greater_zero sz) (\<lambda>sz_ok.
         if \<not> sz_ok then Inl AssertionError
         else if \<not> 0 \<le> total_n then Inl AssertionError
         else Inr \<lparr> ns_link_prefix = prefix, ns_japi_resource_url_component = component,
                    ns_query = to_dict args, number = int_value num, size_of_page = int_value sz,
                    total_resources = total_n \<rparr>))"

definition DEFAULT_LIMIT :: int where
  "DEFAULT_LIMIT = 25"

definition from_request :: "Request \<Rightarrow> string \<Rightarrow> int \<Rightarrow> int \<Rightarrow> exn + NumberSize" where
  "from_request request component total_n default_size =
     sbind (check_number (args_get (query_args request) ''page[number]'') ''page[number]'') (\<lambda>num.
       sbind (check_number (args_get (query_args request) ''page[size]'') ''page[size]'') (\<lambda>sz.
         NumberSize_init (link_prefix request) component (query_args request)
           num (if equals_zero sz then JInt default_size else sz) total_n))"

text \<open>The query supplies the string \<open>s\<close> as a value of the parameter \<open>p\<close>: as its first
  value or as a later one.\<close>

definition supplied :: "(string \<times> string) list \<Rightarrow> string \<Rightarrow> string \<Rightarrow> bool" where
  "supplied args p s = ((p, s) \<in> set args)"

text \<open>A query parameter value that \<open>check_number\<close> refuses: it is not empty, and it is
  not an integer literal or its integer is below 1.\<close>

definition offending :: "string \<Rightarrow> bool" where
  "offending s = (s \<noteq> [] \<and> (case int_of_str s of None \<Rightarrow> True | Some n \<Rightarrow> n < 1))"

section \<open>japi\_format\_validators.py\<close>

fun is_dict :: "json \<Rightarrow> bool" where
  "is_dict (JObj kvs) = True"
| "is_dict _ = False"

fun is_str :: "json \<Rightarrow> bool" where
  "is_str (JStr s) = True"
| "is_str _ = False"

text \<open>The items of a dict; only called on a dict.\<close>

fun items :: "json \<Rightarrow> (string \<times> json) list" where
  "items (JObj kvs) = kvs"
| "items _ = []"

definition has_key :: "json \<Rightarrow> string \<Rightarrow> bool" where
  "has_key d k = (map_of (items d) k \<noteq> None)"

text \<open>\<open>d.keys() <= allowed\<close>.\<close>

definition keys_within :: "json \<Rightarrow> string list \<Rightarrow> bool" where
  "keys_within d allowed = list_all (\<lambda>kv. fst kv \<in> set allowed) (items d)"

text \<open>\<open>d[k]\<close> where the code has checked \<open>k in d\<close>; None (JNull) stands in otherwise and is
  never read.\<close>

definition item_of :: "json \<Rightarrow> string \<Rightarrow> json" where
  "item_of d k = (case map_of (items d) k of None \<Rightarrow> JNull | Some v \<Rightarrow> v)"

definition assert_meta_object :: "json \<Rightarrow> string \<Rightarrow> exn + unit" where
  "assert_meta_object d sp =
     (if \<not> is_dict d then raise_BadRequest ''A meta object must be an object.'' sp
      else Inr ())"

definition assert_link :: "json \<Rightarrow> string \<Rightarrow> exn + unit" where
  "assert_link d sp =
     (if is_str d then Inr ()
      else if is_dict d then
        (if items d = [] then raise_BadRequest ''A link object cannot be an empty object.'' sp
         else if \<not> keys_within d [''href'', ''meta''] then
           raise_BadRequest
             (''A link object can only contain these members: '' @
              [CHR 0x27] @ ''href'' @ [CHR 0x27] @ '', '' @ [CHR 0x27] @ ''meta'' @ [CHR 0x27] @ ''.'') sp
         else if has_key d ''href'' \<and> \<not> is_str (item_of d ''href'') then
           raise_BadRequest
             (''The value of '' @ [CHR 0x27] @ ''href'' @ [CHR 0x27] @ '' must be a string.'')
             (sp @ ''href/'')
         else if has_key d ''meta'' then assert_meta_object (item_of d ''meta'') (sp @ ''meta/'')
         else Inr ())
      else raise_BadRequest ''A link object must be a string or an object.'' sp)"

definition assert_links_object :: "json \<Rightarrow> string \<Rightarrow> exn + unit" where
  "assert_links_object d sp =
     (if \<not> is_dict d then raise_BadRequest ''A links object must be an object.'' sp
      else for_each (\<lambda>kv. assert_link (snd kv) (sp @ fst kv @ ''/'')) (items d))"

definition assert_resource_identifier_object :: "json \<Rightarrow> string \<Rightarrow> exn + unit" where
  "assert_resource_identifier_object d sp =
     (if \<not> is_dict d then
        raise_BadRequest ''A resource identifier object must be an object.'' sp
      else if \<not> keys_within d [''id'', ''type'', ''meta''] then
        raise_BadRequest
          (''A resource identifier object can only contain these members: '' @
           [CHR 0x27] @ ''id'' @ [CHR 0x27] @ '', '' @ [CHR 0x27] @ ''type'' @ [CHR 0x27] @ '', '' @
           [CHR 0x27] @ ''meta'' @ [CHR 0x27] @ ''.'') sp
      else sbind (if has_key d ''meta'' then assert_meta_object (item_of d ''meta'') (sp @ ''meta/'')
                  else Inr ()) (\<lambda>u.
        if \<not> has_key d ''type'' then
          raise_BadRequest (''The '' @ [CHR 0x27] @ ''type'' @ [CHR 0x27] @ '' member is not present.'') sp
        else if \<not> is_str (item_of d ''type'') then
          raise_BadRequest
            (''The value of '' @ [CHR 0x27] @ ''type'' @ [CHR 0x27] @ '' must be a string.'')
            (sp @ ''type/'')
        else if \<not> has_key d ''id'' then
          raise_BadRequest (''The '' @ [CHR 0x27] @ ''id'' @ [CHR 0x27] @ '' member is not present.'') sp
        else if \<not> is_str (item_of d ''id'') then
          raise_BadRequest
            (''The value of '' @ [CHR 0x27] @ ''id'' @ [CHR 0x27] @ '' must be a string.'')
            (sp @ ''id/'')
        else Inr ()))"

definition assert_to_one_resource_linkage :: "json \<Rightarrow> string \<Rightarrow> exn + unit" where
  "assert_to_one_resource_linkage d sp =
     (if d = JNull then Inr ()
      else if is_dict d then assert_resource_identifier_object d sp
      else raise_BadRequest
        (''A resource linkage for a to-one relationship must be '' @ [CHR 0x27] @ ''None'' @
         [CHR 0x27] @ '' or a resource identifier object.'') sp)"

text \<open>The loop over \<open>enumerate(d)\<close>; \<open>i\<close> is the index of the head of the list.\<close>

fun assert_identifiers_from :: "nat \<Rightarrow> json list \<Rightarrow> string \<Rightarrow> exn + unit" where
  "assert_identifiers_from i [] sp = Inr ()"
| "assert_identifiers_from i (x # xs) sp =
     (case assert_resource_identifier_object x (sp @ str_nat i @ ''/'') of
        Inl e \<Rightarrow> Inl e
      | Inr u \<Rightarrow> assert_identifiers_from (Suc i) xs sp)"

definition assert_to_many_resource_linkage :: "json \<Rightarrow> string \<Rightarrow> exn + unit" where
  "assert_to_many_resource_linkage d sp =
     (case d of
        JList xs \<Rightarrow> assert_identifiers_from 0 xs sp
      | _ \<Rightarrow> raise_BadRequest
          (''A resource linkage for a to-many relationship must be an '' @
           ''empty list or an array of resource identifier objects.'') sp)"

text \<open>\<open>try: ... except BadRequest as b: exception = b\<close>: a BadRequest is kept in
  \<open>exception\<close>, any other exception propagates.\<close>

definition is_BadRequest :: "exn \<Rightarrow> bool" where
  "is_BadRequest e = (case e of ApiError err \<Rightarrow> cls_name err = ''BadRequest'' | _ \<Rightarrow> False)"

definition assert_relationship_object :: "json \<Rightarrow> string \<Rightarrow> bool \<Rightarrow> bool \<Rightarrow> exn + unit" where
  "assert_relationship_object d sp to_many to_one =
     (if \<not> is_dict d then raise_BadRequest ''A relationship object must be an object'' sp
      else if items d = [] then
        raise_BadRequest
          (''A relationship object must contain at least one of these members: '' @
           [CHR 0x27] @ ''data'' @ [CHR 0x27] @ '', '' @ [CHR 0x27] @ ''links'' @ [CHR 0x27] @ '', '' @
           [CHR 0x27] @ ''meta'' @ [CHR 0x27] @ ''.'') sp
      else if \<not> keys_within d [''links'', ''data'', ''meta''] then
        raise_BadRequest
          (''A relationship object may only contain the followingmembers: '' @
           [CHR 0x27] @ ''links'' @ [CHR 0x27] @ '', '' @ [CHR 0x27] @ ''data'' @ [CHR 0x27] @
           '' and '' @ [CHR 0x27] @ ''meta'' @ [CHR 0x27] @ ''.'') sp
      else
        sbind (if has_key d ''links'' then assert_links_object (item_of d ''links'') (sp @ ''links/'')
               else Inr ()) (\<lambda>u.
        sbind (if has_key d ''meta'' then assert_meta_object (item_of d ''meta'') (sp @ ''meta/'')
               else Inr ()) (\<lambda>u.
        if has_key d ''data'' then
          (let r1 = (if to_one then assert_to_one_resource_linkage (item_of d ''data'') (sp @ ''data/'')
                     else Inr ());
               r2 = (if to_many then assert_to_many_resource_linkage (item_of d ''data'') (sp @ ''data/'')
                     else Inr ())
           in case r1 of
                Inl e1 \<Rightarrow>
                  if \<not> is_BadRequest e1 then Inl e1
                  else (case r2 of Inl e2 \<Rightarrow> Inl e2 | Inr u \<Rightarrow> Inl e1)
              | Inr u \<Rightarrow> r2)
        else raise_BadRequest ''Missing data member'' sp)))"

text \<open>A result that is the raise of a BadRequest, of HTTP status 400.\<close>

definition refused_400 :: "exn + unit \<Rightarrow> bool" where
  "refused_400 r =
     (case r of
        Inl (ApiError e) \<Rightarrow> cls_name e = ''BadRequest'' \<and> http_status e = 400
      | _ \<Rightarrow> False)"

section \<open>resource.py: fields\<close>

text \<open>
  Modelled from the spec: \<open>context.py\<close> (\<open>Context\<close> and \<open>ALWAYS_SET\<close>) is not part of the
  sources. The spec's ValidationContext is the enum {CREATE, UPDATE} "plus an implicit
  always set"; \<open>ALWAYS_SET\<close>, the default of \<open>writable_during\<close>, holds both.
\<close>

datatype Context = CREATE | UPDATE

definition ALWAYS_SET :: "Context set" where
  "ALWAYS_SET = {CREATE, UPDATE}"

text \<open>
  The backing model instance: its attributes by name. \<open>getattr\<close> of a name the instance
  does not have raises AttributeError; \<open>setattr\<close> always stores.
\<close>

type_synonym model = "string \<Rightarrow> json option"

definition getattr :: "model \<Rightarrow> string \<Rightarrow> exn + json" where
  "getattr m name = (case m name of None \<Rightarrow> Inl (AttributeError name) | Some v \<Rightarrow> Inr v)"

definition setattr :: "model \<Rightarrow> string \<Rightarrow> json \<Rightarrow> exn + model" where
  "setattr m name v = Inr (m(name \<mapsto> v))"

type_synonym getter = "model \<Rightarrow> exn + json"
type_synonym setter = "model \<Rightarrow> json \<Rightarrow> exn + model"

text \<open>A validator: the contexts it is declared for, and its check of a model.\<close>

type_synonym validator = "Context set \<times> (model \<Rightarrow> exn + unit)"

text \<open>\<open>BaseField\<close>. \<open>fget\<close> and \<open>fset\<close> are None until the field is bound; \<open>python_name\<close> is
  set by the metaclass.\<close>

record BaseField =
  writable_during :: "Context set"
  nullable :: bool
  has_default :: bool
  fget :: "getter option"
  fset :: "setter option"
  fvalidators :: "validator list"
  python_name :: "string option"

record Attribute = BaseField +
  mapped_attribute_name :: "string option"
  attr_japi_name :: "string option"

text \<open>
  \<open>Relationship\<close> and its one subclass \<open>ToOneRelationship\<close>: \<open>is_to_one\<close> is
  \<open>isinstance(field, ToOneRelationship)\<close>, and only such a field has \<open>mapped_fk_name\<close>.
  The related class is represented by its \<open>japi_resource_type\<close>, and the bound class by
  its name and its \<open>japi_resource_url_component\<close> (None when the class has none): the
  only attributes read through these references.
\<close>

record ClassRef =
  ref_name :: string
  ref_url_component :: "string option"

record Relationship = BaseField +
  related_resource_class :: string
  rel_japi_name :: "string option"
  bound_resource_class :: "ClassRef option"
  is_to_one :: bool
  mapped_fk_name :: string

record Id = BaseField +
  mapped_pk_name :: "string option"

text \<open>The accessors the metaclass and \<open>ToOneRelationship.__init__\<close> install.\<close>

definition default_fget :: "string \<Rightarrow> getter" where
  "default_fget name = (\<lambda>m. getattr m name)"

definition default_fset :: "string \<Rightarrow> setter" where
  "default_fset name = (\<lambda>m v. setattr m name v)"

definition poisoned_fset :: setter where
  "poisoned_fset = (\<lambda>m v. Inl (AttributeError ''No setter provided''))"

text \<open>Calling \<open>field._fget(model)\<close> and \<open>field._fset(model, v)\<close>; calling None is a
  TypeError.\<close>

definition call_fget :: "'a BaseField_scheme \<Rightarrow> model \<Rightarrow> exn + json" where
  "call_fget field m = (case fget field of None \<Rightarrow> Inl TypeError | Some g \<Rightarrow> g m)"

definition call_fset :: "'a BaseField_scheme \<Rightarrow> model \<Rightarrow> json \<Rightarrow> exn + model" where
  "call_fset field m v = (case fset field of None \<Rightarrow> Inl TypeError | Some s \<Rightarrow> s m v)"

text \<open>\<open>BaseField.validate\<close>: the validators declared for the context, in order.\<close>

definition validate_field :: "'a BaseField_scheme \<Rightarrow> model \<Rightarrow> Context \<Rightarrow> exn + unit" where
  "validate_field field m c =
     for_each (\<lambda>v. if c \<in> fst v then snd v m else Inr ()) (fvalidators field)"

text \<open>\<open>raise errors.X(detail=...)\<close>.\<close>

definition raise_api :: "(error_kwargs \<Rightarrow> Error) \<Rightarrow> string \<Rightarrow> exn + 'a" where
  "raise_api err d = Inl (ApiError (err (no_kwargs\<lparr> kw_detail := d \<rparr>)))"

subsection \<open>Attribute\<close>

definition Attribute_serialize :: "Attribute \<Rightarrow> model \<Rightarrow> exn + json" where
  "Attribute_serialize field m = call_fget field m"

definition Attribute_deserialize :: "Attribute \<Rightarrow> json \<Rightarrow> json" where
  "Attribute_deserialize field prim = prim"

definition Attribute_deserialize_into_obj :: "Attribute \<Rightarrow> model \<Rightarrow> json \<Rightarrow> exn + model" where
  "Attribute_deserialize_into_obj field m prim = call_fset field m (Attribute_deserialize field prim)"

subsection \<open>Links (utilities.py)\<close>

definition link_for_resource :: "string \<Rightarrow> string \<Rightarrow> string \<Rightarrow> string" where
  "link_for_resource prefix component ident = prefix @ ''/'' @ component @ ''/'' @ ident"

definition link_for_related :: "string \<Rightarrow> string \<Rightarrow> string \<Rightarrow> string \<Rightarrow> string" where
  "link_for_related prefix component ident name =
     prefix @ ''/'' @ component @ ''/'' @ ident @ ''/'' @ name"

definition link_for_relationship :: "string \<Rightarrow> string \<Rightarrow> string \<Rightarrow> string \<Rightarrow> string" where
  "link_for_relationship prefix component ident name =
     prefix @ ''/'' @ component @ ''/'' @ ident @ ''/relationships/'' @ name"

subsection \<open>ToOneRelationship\<close>

text \<open>\<open>self.bound_resource_class.japi_resource_url_component\<close>: AttributeError on a field
  no class was bound to, and on a class without the attribute.\<close>

definition bound_component :: "Relationship \<Rightarrow> exn + string" where
  "bound_component field =
     (case bound_resource_class field of
        None \<Rightarrow> Inl (AttributeError ''bound_resource_class'')
      | Some c \<Rightarrow>
          (case ref_url_component c of
             None \<Rightarrow> Inl (AttributeError ''japi_resource_url_component'')
           | Some u \<Rightarrow> Inr u))"

definition relationship_link :: "Relationship \<Rightarrow> string \<Rightarrow> string \<Rightarrow> exn + string" where
  "relationship_link field prefix ident =
     sbind (bound_component field) (\<lambda>c.
       Inr (link_for_relationship prefix c ident (str_opt (rel_japi_name field))))"

definition related_link :: "Relationship \<Rightarrow> string \<Rightarrow> string \<Rightarrow> exn + string" where
  "related_link field prefix ident =
     sbind (bound_component field) (\<lambda>c.
       Inr (link_for_related prefix c ident (str_opt (rel_japi_name field))))"

definition ToOneRelationship_serialize ::
  "Relationship \<Rightarrow> model \<Rightarrow> string \<Rightarrow> string \<Rightarrow> exn + json" where
  "ToOneRelationship_serialize field m resource_id prefix =
     sbind (call_fget field m) (\<lambda>related_resource_id.
     sbind (if related_resource_id = JNull then Inr JNull
            else sbind (py_str related_resource_id) (\<lambda>s.
                   Inr (JObj [(''type'', JStr (related_resource_class field)), (''id'', JStr s)])))
       (\<lambda>data.
     sbind (relationship_link field prefix resource_id) (\<lambda>self_link.
     sbind (related_link field prefix resource_id) (\<lambda>rel_link.
       Inr (JObj [(''links'', JObj [(''self'', JStr self_link), (''related'', JStr rel_link)]),
                  (''data'', data)])))))"

definition ToOneRelationship_deserialize :: "Relationship \<Rightarrow> json \<Rightarrow> exn + json" where
  "ToOneRelationship_deserialize field v =
     sbind (getitem v ''data'') (\<lambda>data.
       if data = JNull then Inr JNull
       else sbind (getitem data ''type'') (\<lambda>t.
         if t \<noteq> JStr (related_resource_class field) then
           raise_api BadRequest (''Relationship type doesn'' @ [CHR 0x27] @ ''t match definition'')
         else sbind (getitem data ''id'') (\<lambda>i.
           sbind (py_int i) (\<lambda>n. Inr (JInt n)))))"

definition ToOneRelationship_deserialize_into_obj ::
  "Relationship \<Rightarrow> model \<Rightarrow> json \<Rightarrow> exn + model" where
  "ToOneRelationship_deserialize_into_obj field m v =
     sbind (ToOneRelationship_deserialize field v) (\<lambda>fk. call_fset field m fk)"

subsection \<open>Id\<close>

definition Id_serialize :: "Id \<Rightarrow> model \<Rightarrow> exn + string" where
  "Id_serialize field m = sbind (call_fget field m) py_str"

definition Id_deserialize :: "Id \<Rightarrow> json \<Rightarrow> exn + json" where
  "Id_deserialize field v =
     (case py_int v of
        Inl ValueError \<Rightarrow> 
          (case py_str v of
             Inl e \<Rightarrow> Inl e
           | Inr s \<Rightarrow> raise_api BadRequest (''Could not parse '' @ s @ '' as integer.''))
      | Inl e \<Rightarrow> Inl e
      | Inr n \<Rightarrow> Inr (JInt n))"

section \<open>resource.py: Resource\<close>

text \<open>What attribute lookup on a resource class can find under a Python name.\<close>

datatype member =
    MAttribute Attribute
  | MRelationship Relationship
  | MId Id
  | MOther

text \<open>
  A resource class after its registration: the class attributes the codec reads, the
  lookup of a Python name on the class (\<open>class_dict\<close>, through the bases too), and the two
  field dicts in insertion order.
\<close>

record ResourceClass =
  japi_resource_type :: string
  japi_resource_url_component :: string
  instantiable :: bool
  class_dict :: "string \<Rightarrow> member option"
  attrs_by_japi_name :: "(string \<times> Attribute) list"
  rels_by_japi_name :: "(string \<times> Relationship) list"

record Resource =
  resource_class :: ResourceClass
  model :: model

text \<open>\<open>Resource.__init__\<close>: \<open>assert self._instantiable\<close>.\<close>

definition Resource_init :: "ResourceClass \<Rightarrow> model \<Rightarrow> exn + Resource" where
  "Resource_init cls m =
     (if instantiable cls then Inr \<lparr> resource_class = cls, model = m \<rparr> else Inl AssertionError)"

text \<open>A loop that threads a state through its body and stops at the first raise.\<close>

fun fold_err :: "('a \<Rightarrow> 's \<Rightarrow> exn + 's) \<Rightarrow> 'a list \<Rightarrow> 's \<Rightarrow> exn + 's" where
  "fold_err f [] s = Inr s"
| "fold_err f (x # xs) s = (case f x s of Inl e \<Rightarrow> Inl e | Inr s' \<Rightarrow> fold_err f xs s')"

text \<open>\<open>d[k]\<close> on a field dict.\<close>

definition lookup :: "(string \<times> 'a) list \<Rightarrow> string \<Rightarrow> exn + 'a" where
  "lookup d k = (case map_of d k of None \<Rightarrow> Inl (KeyError k) | Some v \<Rightarrow> Inr v)"

subsection \<open>serialize\<close>

text \<open>\<open>type(self).id.serialize(self.model)\<close> and \<open>self.id\<close>: the class attribute \<open>id\<close> is an
  \<open>Id\<close> on every instantiable class.\<close>

definition class_id :: "ResourceClass \<Rightarrow> exn + Id" where
  "class_id cls =
     (case class_dict cls ''id'' of
        Some (MId i) \<Rightarrow> Inr i
      | _ \<Rightarrow> Inl (AttributeError ''id''))"

text \<open>The two loops of \<open>serialize\<close>: one entry per field that \<open>fields\<close> lets through.\<close>

definition selected :: "string list option \<Rightarrow> string \<Rightarrow> bool" where
  "selected sparse name = (case sparse of None \<Rightarrow> True | Some fs \<Rightarrow> name \<in> set fs)"

fun serialize_attributes ::
  "string list option \<Rightarrow> model \<Rightarrow> (string \<times> Attribute) list \<Rightarrow> exn + (string \<times> json) list" where
  "serialize_attributes sparse m [] = Inr []"
| "serialize_attributes sparse m ((name, field) # rest) =
     (if selected sparse name then
        sbind (Attribute_serialize field m) (\<lambda>v.
          sbind (serialize_attributes sparse m rest) (\<lambda>d. Inr ((name, v) # d)))
      else serialize_attributes sparse m rest)"

text \<open>A plain \<open>Relationship\<close> has \<open>BaseField.serialize(self, model)\<close> only: calling it with
  three arguments is a TypeError.\<close>

definition Relationship_serialize ::
  "Relationship \<Rightarrow> model \<Rightarrow> string \<Rightarrow> string \<Rightarrow> exn + json" where
  "Relationship_serialize field m resource_id prefix =
     (if is_to_one field then ToOneRelationship_serialize field m resource_id prefix
      else Inl TypeError)"

fun serialize_relationships ::
  "string list option \<Rightarrow> model \<Rightarrow> string \<Rightarrow> string \<Rightarrow> (string \<times> Relationship) list
     \<Rightarrow> exn + (string \<times> json) list" where
  "serialize_relationships sparse m ident prefix [] = Inr []"
| "serialize_relationships sparse m ident prefix ((name, field) # rest) =
     (if selected sparse name then
        sbind (Relationship_serialize field m ident prefix) (\<lambda>v.
          sbind (serialize_relationships sparse m ident prefix rest) (\<lambda>d. Inr ((name, v) # d)))
      else serialize_relationships sparse m ident prefix rest)"

definition serialize :: "Resource \<Rightarrow> string \<Rightarrow> string list option \<Rightarrow> exn + json" where
  "serialize self prefix sparse =
     (let cls = resource_class self; m = model self in
      sbind (class_id cls) (\<lambda>id_field.
      sbind (Id_serialize id_field m) (\<lambda>ident.
      sbind (sbind (call_fget id_field m) py_str) (\<lambda>self_id.
      sbind (serialize_attributes sparse m (attrs_by_japi_name cls)) (\<lambda>attributes_dict.
      sbind (serialize_relationships sparse m ident prefix (rels_by_japi_name cls))
        (\<lambda>relationships_dict.
        Inr (JObj (
          [(''id'', JStr ident),
           (''type'', JStr (japi_resource_type cls)),
           (''links'', JObj [(''self'',
              JStr (link_for_resource prefix (japi_resource_url_component cls) self_id))])] @
          (if attributes_dict = [] then [] else [(''attributes'', JObj attributes_dict)]) @
          (if relationships_dict = [] then []
           else [(''relationships'', JObj relationships_dict)])))))))))"

subsection \<open>deserialize\<close>

text \<open>\<open>input_dict.get(k) or {}\<close>, followed by \<open>.keys()\<close> on the result: a true value that
  is not a dict has no \<open>keys\<close>.\<close>

definition get_or_empty :: "json \<Rightarrow> string \<Rightarrow> exn + (string \<times> json) list" where
  "get_or_empty d k =
     (case map_of (items d) k of
        None \<Rightarrow> Inr []
      | Some v \<Rightarrow>
          if \<not> truthy v then Inr []
          else (case v of JObj kvs \<Rightarrow> Inr kvs | _ \<Rightarrow> Inl (AttributeError ''keys'')))"

text \<open>
  The three key sets, each given by a list of its keys. \<open>extra\<close> is only tested for
  emptiness; \<open>missing\<close> and \<open>intersection\<close> are iterated.
\<close>

definition extra_keys :: "(string \<times> 'a) list \<Rightarrow> (string \<times> 'b) list \<Rightarrow> string list" where
  "extra_keys request resource = filter (\<lambda>k. k \<notin> set (map fst resource)) (map fst request)"

definition intersection_keys :: "(string \<times> 'a) list \<Rightarrow> (string \<times> 'b) list \<Rightarrow> string list" where
  "intersection_keys request resource = filter (\<lambda>k. k \<in> set (map fst resource)) (map fst request)"

definition missing_keys :: "(string \<times> 'a) list \<Rightarrow> (string \<times> 'b) list \<Rightarrow> string list" where
  "missing_keys request resource = filter (\<lambda>k. k \<notin> set (map fst request)) (map fst resource)"

text \<open>
  Python iterates a set in the order of its hash table, which depends on the hashes of the
  keys and, for strings, on the hash seed of the process. \<open>slot\<close> stands for that order:
  \<open>slot S k\<close> is the place of the key \<open>k\<close> in the table of the set \<open>S\<close>, and \<open>iterate\<close>
  lists a set by increasing place. Every order of a set is the order of some \<open>slot\<close>;
  what is proved of a loop over a set is proved for every \<open>slot\<close>. \<open>request_order\<close> is
  the order that lists the keys as the list of the set does.
\<close>

type_synonym set_order = "string set \<Rightarrow> string \<Rightarrow> nat"

definition iterate :: "set_order \<Rightarrow> string list \<Rightarrow> string list" where
  "iterate slot ks = sort_key (slot (set ks)) (remdups ks)"

definition request_order :: set_order where
  "request_order S k = 0"

text \<open>The checks of the attributes before any is written: no extra attribute, and every
  missing one has a default or is nullable (\<open>missing_attribute\<close> is the body of the loop
  over \<open>missing\<close>).\<close>

definition missing_attribute :: "ResourceClass \<Rightarrow> string \<Rightarrow> exn + unit" where
  "missing_attribute cls m =
     sbind (lookup (attrs_by_japi_name cls) m) (\<lambda>field.
       if \<not> (has_default field \<or> nullable field) then
         raise_api UnprocessableEntity ''Missing attributes''
       else Inr ())"

definition check_attributes ::
  "set_order \<Rightarrow> ResourceClass \<Rightarrow> (string \<times> json) list \<Rightarrow> exn + unit" where
  "check_attributes slot cls input_attributes_dict =
     (if extra_keys input_attributes_dict (attrs_by_japi_name cls) \<noteq> [] then
        raise_api UnprocessableEntity ''Extra attributes''
      else
        for_each (missing_attribute cls)
          (iterate slot (missing_keys input_attributes_dict (attrs_by_japi_name cls))))"

definition write_attribute ::
  "ResourceClass \<Rightarrow> (string \<times> json) list \<Rightarrow> string \<Rightarrow> model \<Rightarrow> exn + model" where
  "write_attribute cls input_attributes_dict attribute_name m =
     sbind (lookup input_attributes_dict attribute_name) (\<lambda>input_value.
     sbind (lookup (attrs_by_japi_name cls) attribute_name) (\<lambda>field.
       if input_value = JNull \<and> \<not> nullable field then
         raise_api UnprocessableEntity ''Non-nullable attribute set to None''
       else if CREATE \<notin> writable_during field then
         raise_api Forbidden ''Cannot write to field''
       else Attribute_deserialize_into_obj field m input_value))"

definition write_attributes ::
  "set_order \<Rightarrow> ResourceClass \<Rightarrow> (string \<times> json) list \<Rightarrow> model \<Rightarrow> exn + model" where
  "write_attributes slot cls input_attributes_dict m =
     fold_err (write_attribute cls input_attributes_dict)
       (iterate slot (intersection_keys input_attributes_dict (attrs_by_japi_name cls))) m"

definition missing_relationship :: "ResourceClass \<Rightarrow> string \<Rightarrow> exn + unit" where
  "missing_relationship cls m =
     sbind (lookup (rels_by_japi_name cls) m) (\<lambda>field.
       if \<not> (nullable field \<or> has_default field) then
         raise_api UnprocessableEntity ''Missing relationship''
       else Inr ())"

definition check_relationships ::
  "set_order \<Rightarrow> ResourceClass \<Rightarrow> (string \<times> json) list \<Rightarrow> exn + unit" where
  "check_relationships slot cls relationships_dict =
     (if extra_keys relationships_dict (rels_by_japi_name cls) \<noteq> [] then
        raise_api UnprocessableEntity ''Extra relationships''
      else
        for_each (missing_relationship cls)
          (iterate slot (missing_keys relationships_dict (rels_by_japi_name cls))))"

text \<open>The check of one relationship value, shared by \<open>deserialize\<close> and
  \<open>create_patch_dict\<close>: a None value must be allowed, any other value must hold a linkage
  of the related type.\<close>

definition check_linkage :: "Relationship \<Rightarrow> json \<Rightarrow> exn + unit" where
  "check_linkage field input_value =
     (if input_value = JNull then
        (if \<not> nullable field then
           raise_api UnprocessableEntity ''Non-nullable relationship set to None''
         else Inr ())
      else
        sbind (getitem input_value ''data'') (\<lambda>resource_identifier_obj.
        sbind (getitem resource_identifier_obj ''type'') (\<lambda>t.
          if t \<noteq> JStr (related_resource_class field) then
            raise_api BadRequest ''Type field does not match schema''
          else Inr ())))"

definition write_relationship ::
  "ResourceClass \<Rightarrow> (string \<times> json) list \<Rightarrow> string \<Rightarrow> model \<Rightarrow> exn + model" where
  "write_relationship cls relationships_dict relationship_name m =
     sbind (lookup relationships_dict relationship_name) (\<lambda>input_value.
     sbind (lookup (rels_by_japi_name cls) relationship_name) (\<lambda>field.
       if \<not> is_to_one field then Inl AssertionError
       else if CREATE \<notin> writable_during field then
         raise_api Forbidden ''Cannot write to field''
       else sbind (check_linkage field input_value) (\<lambda>u.
         ToOneRelationship_deserialize_into_obj field m input_value)))"

definition write_relationships ::
  "set_order \<Rightarrow> ResourceClass \<Rightarrow> (string \<times> json) list \<Rightarrow> model \<Rightarrow> exn + model" where
  "write_relationships slot cls relationships_dict m =
     fold_err (write_relationship cls relationships_dict)
       (iterate slot (intersection_keys relationships_dict (rels_by_japi_name cls))) m"

text \<open>\<open>Resource.deserialize(cls, input_dict)\<close>; \<open>m0\<close> is the new model instance
  \<open>cls.model_class()\<close>, and \<open>slot\<close> the order in which the key sets are iterated.\<close>

definition deserialize :: "set_order \<Rightarrow> ResourceClass \<Rightarrow> json \<Rightarrow> model \<Rightarrow> exn + Resource" where
  "deserialize slot cls input_dict m0 =
     sbind (Resource_init cls m0) (\<lambda>res.
     sbind (getitem input_dict ''type'') (\<lambda>t.
       if t \<noteq> JStr (japi_resource_type cls) then
         raise_api BadRequest
           (''Type field does not match handler'' @ [CHR 0x27] @ ''s resource'')
       else
         sbind (get_or_empty input_dict ''attributes'') (\<lambda>input_attributes_dict.
         sbind (check_attributes slot cls input_attributes_dict) (\<lambda>u.
         sbind (write_attributes slot cls input_attributes_dict (model res)) (\<lambda>m1.
         sbind (get_or_empty input_dict ''relationships'') (\<lambda>relationships_dict.
         sbind (check_relationships slot cls relationships_dict) (\<lambda>u.
         sbind (write_relationships slot cls relationships_dict m1) (\<lambda>m2.
           Inr (res\<lparr> model := m2 \<rparr>)))))))))"

text \<open>A result that is the raise of an error of HTTP status 422.\<close>

definition raises_422 :: "exn + 'a \<Rightarrow> bool" where
  "raises_422 r = (case r of Inl (ApiError e) \<Rightarrow> http_status e = 422 | _ \<Rightarrow> False)"

subsection \<open>create\_patch\_dict and apply\_patch\_dict\<close>

text \<open>A patch dict: the deserialized values of the fields the document holds.\<close>

record PatchDict =
  patch_attributes :: "(string \<times> json) list"
  patch_relationships :: "(string \<times> json) list"

definition patch_attribute ::
  "ResourceClass \<Rightarrow> (string \<times> json) list \<Rightarrow> string \<Rightarrow> (string \<times> json) list
     \<Rightarrow> exn + (string \<times> json) list" where
  "patch_attribute cls attributes_dict attribute_name ret_attrs =
     sbind (lookup (attrs_by_japi_name cls) attribute_name) (\<lambda>field.
       if UPDATE \<notin> writable_during field then
         raise_api Forbidden ''Cannot update attribute''
       else sbind (lookup attributes_dict attribute_name) (\<lambda>v.
         Inr (ret_attrs @ [(attribute_name, Attribute_deserialize field v)])))"

definition patch_relationship ::
  "ResourceClass \<Rightarrow> (string \<times> json) list \<Rightarrow> string \<Rightarrow> (string \<times> json) list
     \<Rightarrow> exn + (string \<times> json) list" where
  "patch_relationship cls relationships_dict relationship_name ret_rels =
     sbind (lookup relationships_dict relationship_name) (\<lambda>v.
     sbind (lookup (rels_by_japi_name cls) relationship_name) (\<lambda>field.
       if \<not> is_to_one field then Inl AssertionError
       else if UPDATE \<notin> writable_during field then
         raise_api Forbidden ''Cannot update relationship''
       else sbind (check_linkage field v) (\<lambda>u.
         sbind (ToOneRelationship_deserialize field v) (\<lambda>fk.
           Inr (ret_rels @ [(relationship_name, fk)])))))"

definition create_patch_dict :: "set_order \<Rightarrow> ResourceClass \<Rightarrow> json \<Rightarrow> exn + PatchDict" where
  "create_patch_dict slot cls resource_dict =
     sbind (getitem resource_dict ''type'') (\<lambda>t.
       if t \<noteq> JStr (japi_resource_type cls) then
         raise_api BadRequest
           (''Type field does not match handler'' @ [CHR 0x27] @ ''s resource'')
       else
         sbind (get_or_empty resource_dict ''attributes'') (\<lambda>attributes_dict.
           if extra_keys attributes_dict (attrs_by_japi_name cls) \<noteq> [] then
             raise_api UnprocessableEntity ''Extra attributes''
           else
             sbind (fold_err (patch_attribute cls attributes_dict)
                      (iterate slot (intersection_keys attributes_dict (attrs_by_japi_name cls)))
                      [])
               (\<lambda>ret_attrs.
             sbind (get_or_empty resource_dict ''relationships'') (\<lambda>relationships_dict.
               if extra_keys relationships_dict (rels_by_japi_name cls) \<noteq> [] then
                 raise_api UnprocessableEntity ''Extra relationships''
               else
                 sbind (fold_err (patch_relationship cls relationships_dict)
                          (iterate slot
                             (intersection_keys relationships_dict (rels_by_japi_name cls)))
                          [])
                   (\<lambda>ret_rels.
                     Inr \<lparr> patch_attributes = ret_attrs,
                           patch_relationships = ret_rels \<rparr>)))))"

text \<open>
  \<open>assert isinstance(value, ToOneRelationship)\<close> in \<open>apply_patch_dict\<close> tests the value of
  the patch dict entry, a deserialized foreign key: an integer or None, and in this model
  any JSON value. No such value is a field object.
\<close>

definition isinstance_ToOneRelationship :: "json \<Rightarrow> bool" where
  "isinstance_ToOneRelationship v = False"

definition apply_attribute :: "ResourceClass \<Rightarrow> string \<times> json \<Rightarrow> model \<Rightarrow> exn + model" where
  "apply_attribute cls entry m =
     sbind (lookup (attrs_by_japi_name cls) (fst entry)) (\<lambda>field. call_fset field m (snd entry))"

definition apply_relationship :: "ResourceClass \<Rightarrow> string \<times> json \<Rightarrow> model \<Rightarrow> exn + model" where
  "apply_relationship cls entry m =
     (if \<not> isinstance_ToOneRelationship (snd entry) then Inl AssertionError
      else sbind (lookup (rels_by_japi_name cls) (fst entry)) (\<lambda>field.
             call_fset field m (snd entry)))"

definition apply_patch_dict :: "Resource \<Rightarrow> PatchDict \<Rightarrow> exn + Resource" where
  "apply_patch_dict self patch_dict =
     sbind (fold_err (apply_attribute (resource_class self)) (patch_attributes patch_dict)
              (model self)) (\<lambda>m1.
     sbind (fold_err (apply_relationship (resource_class self)) (patch_relationships patch_dict) m1)
       (\<lambda>m2. Inr (self\<lparr> model := m2 \<rparr>)))"

text \<open>\<open>Resource.validate\<close>: every attribute, then every relationship.\<close>

definition validate_resource :: "Resource \<Rightarrow> Context \<Rightarrow> exn + unit" where
  "validate_resource self c =
     sbind (for_each (\<lambda>kv. validate_field (snd kv) (model self) c)
              (attrs_by_japi_name (resource_class self))) (\<lambda>u.
       for_each (\<lambda>kv. validate_field (snd kv) (model self) c)
         (rels_by_japi_name (resource_class self)))"

section \<open>utilities.py: get\_sparse\_fields\<close>

text \<open>The character class \<open>[A-z0-9_]\<close>: the code points from \<open>A\<close> to \<open>z\<close> (which include
  the brackets, the backslash, the caret, the underscore and the backquote) and the
  digits.\<close>

definition in_class :: "char \<Rightarrow> bool" where
  "in_class c = ((65 \<le> (of_char c :: nat) \<and> (of_char c :: nat) \<le> 122)
                 \<or> (48 \<le> (of_char c :: nat) \<and> (of_char c :: nat) \<le> 57)
                 \<or> c = CHR ''_'')"

text \<open>\<open>re.fullmatch\<close> of \<open>name\[([A-z0-9_]+)\]\<close>: the key is \<open>name[\<close>, one or more
  characters of the class, and a closing bracket at the end.\<close>

definition fullmatch_bracketed :: "string \<Rightarrow> string \<Rightarrow> bool" where
  "fullmatch_bracketed name k =
     (let n = length name + 1; body = butlast (drop n k)
      in take n k = name @ ''['' \<and> length name + 3 \<le> length k \<and> last k = CHR '']''
         \<and> list_all in_class body)"

text \<open>\<open>getattr(resource_class, val).mapped_fk_name\<close>: the class attribute named \<open>val\<close>, which
  has a \<open>mapped_fk_name\<close> only when it is a to-one relationship.\<close>

definition class_mapped_fk_name :: "ResourceClass \<Rightarrow> string \<Rightarrow> exn + string" where
  "class_mapped_fk_name cls val =
     (case class_dict cls val of
        None \<Rightarrow> Inl (AttributeError val)
      | Some (MRelationship r) \<Rightarrow>
          if is_to_one r then Inr (mapped_fk_name r) else Inl (AttributeError ''mapped_fk_name'')
      | Some _ \<Rightarrow> Inl (AttributeError ''mapped_fk_name''))"

text \<open>The state of the loop: the two lists, None while no \<open>fields[...]\<close> parameter was
  seen.\<close>

record sparse_state =
  sparse_fields_to_return :: "string list option"
  sparse_fields_for_query :: "string list option"

definition or_empty :: "string list option \<Rightarrow> string list" where
  "or_empty l = (case l of None \<Rightarrow> [] | Some xs \<Rightarrow> xs)"

definition sparse_column :: "ResourceClass \<Rightarrow> string \<Rightarrow> sparse_state \<Rightarrow> exn + sparse_state" where
  "sparse_column cls column st =
     (let val = py_strip column in
      if \<not> truthy_str val then Inr st
      else
        sbind (if val \<in> set (map fst (rels_by_japi_name cls)) then class_mapped_fk_name cls val
               else Inr val) (\<lambda>q.
          Inr \<lparr> sparse_fields_to_return = Some (or_empty (sparse_fields_to_return st) @ [val]),
                sparse_fields_for_query = Some (or_empty (sparse_fields_for_query st) @ [q]) \<rparr>))"

definition sparse_arg :: "ResourceClass \<Rightarrow> string \<times> string \<Rightarrow> sparse_state \<Rightarrow> exn + sparse_state" where
  "sparse_arg cls arg st =
     (if fullmatch_bracketed ''fields'' (fst arg) then
        fold_err (sparse_column cls) (split_str_on_comma (snd arg))
          \<lparr> sparse_fields_to_return = Some (or_empty (sparse_fields_to_return st)),
            sparse_fields_for_query = Some (or_empty (sparse_fields_for_query st)) \<rparr>
      else Inr st)"

definition get_sparse_fields ::
  "(string \<times> string) list \<Rightarrow> ResourceClass \<Rightarrow> exn + (string list option \<times> string list option)" where
  "get_sparse_fields args cls =
     sbind (fold_err (sparse_arg cls) args
              \<lparr> sparse_fields_to_return = None, sparse_fields_for_query = None \<rparr>) (\<lambda>st.
       Inr (sparse_fields_to_return st, sparse_fields_for_query st))"

section \<open>resource.py: ResourceMeta\<close>

text \<open>
  Registration works on shared objects, so it is modelled on a store: a list of objects,
  an address being an index, and a new object taking the next index. A field dict
  (\<open>_attrs_by_japi_name\<close>, \<open>_rels_by_japi_name\<close>) is an object that maps names to the
  addresses of field objects. Python never holds a reference to an object that does not
  exist; following an address outside the store, or one that holds the wrong kind of
  object, is reported as \<open>Unsupported\<close>.
\<close>

datatype obj = Field member | Dict "(string \<times> nat) list"

type_synonym heap = "obj list"

text \<open>What a class body binds a name to: a field object, a string, a class (as
  \<open>model_class\<close> is), or anything else.\<close>

datatype class_attr = FieldRef nat | StrAttr string | TypeAttr | OtherAttr

text \<open>A class: \<open>is_resource\<close> is \<open>issubclass(cls, Resource)\<close>; \<open>cls_members\<close> is what attribute
  lookup on the class sees (its own namespace first, then those of its bases in order);
  the two field dicts are given by their addresses.\<close>

record ClassObj =
  class_name :: string
  is_resource :: bool
  cls_members :: "(string \<times> class_attr) list"
  cls_attrs_by_japi_name :: nat
  cls_rels_by_japi_name :: nat
  cls_instantiable :: bool

definition dangling :: "exn + 'a" where
  "dangling = Inl (Unsupported ''no such object'')"

definition read_dict :: "heap \<Rightarrow> nat \<Rightarrow> exn + (string \<times> nat) list" where
  "read_dict h d =
     (if length h \<le> d then dangling
      else (case h ! d of Dict kvs \<Rightarrow> Inr kvs | Field f \<Rightarrow> dangling))"

definition read_field :: "heap \<Rightarrow> nat \<Rightarrow> exn + member" where
  "read_field h a =
     (if length h \<le> a then dangling
      else (case h ! a of Field f \<Rightarrow> Inr f | Dict kvs \<Rightarrow> dangling))"

text \<open>\<open>d[k] = v\<close> on a dict in insertion order, and \<open>d.update(src)\<close>.\<close>

fun dict_set :: "string \<Rightarrow> 'a \<Rightarrow> (string \<times> 'a) list \<Rightarrow> (string \<times> 'a) list" where
  "dict_set k v [] = [(k, v)]"
| "dict_set k v ((k', v') # d) = (if k = k' then (k, v) # d else (k', v') # dict_set k v d)"

definition dict_update :: "(string \<times> 'a) list \<Rightarrow> (string \<times> 'a) list \<Rightarrow> (string \<times> 'a) list" where
  "dict_update d src = fold (\<lambda>kv acc. dict_set (fst kv) (snd kv) acc) src d"

text \<open>The loop over \<open>reversed(bases)\<close>, for one of the two dicts (\<open>sel\<close> picks it).\<close>

definition inherit_from ::
  "heap \<Rightarrow> (ClassObj \<Rightarrow> nat) \<Rightarrow> ClassObj \<Rightarrow> (string \<times> nat) list \<Rightarrow> exn + (string \<times> nat) list" where
  "inherit_from h sel base acc =
     (if is_resource base then sbind (read_dict h (sel base)) (\<lambda>src. Inr (dict_update acc src))
      else Inr acc)"

definition inherited :: "heap \<Rightarrow> (ClassObj \<Rightarrow> nat) \<Rightarrow> ClassObj list \<Rightarrow> exn + (string \<times> nat) list" where
  "inherited h sel bases = fold_err (inherit_from h sel) (rev bases) []"

text \<open>
  \<open>copy.deepcopy\<close> of a dict of fields: every field object is copied to a new address,
  once (\<open>memo\<close> maps the objects copied so far to their copies), and the new dict takes
  the address after them. The copy of a field has the values of the original: the
  functions and the classes a field refers to are not copied by \<open>deepcopy\<close>.
\<close>

fun deepcopy_items ::
  "heap \<Rightarrow> (nat \<times> nat) list \<Rightarrow> (string \<times> nat) list \<Rightarrow> exn + heap \<times> (string \<times> nat) list" where
  "deepcopy_items h memo [] = Inr (h, [])"
| "deepcopy_items h memo ((k, a) # d) =
     (case map_of memo a of
        Some a' \<Rightarrow>
          sbind (deepcopy_items h memo d) (\<lambda>r. Inr (fst r, (k, a') # snd r))
      | None \<Rightarrow>
          sbind (read_field h a) (\<lambda>f.
          sbind (deepcopy_items (h @ [Field f]) ((a, length h) # memo) d) (\<lambda>r.
            Inr (fst r, (k, length h) # snd r))))"

definition deepcopy_dict :: "heap \<Rightarrow> (string \<times> nat) list \<Rightarrow> exn + heap \<times> nat" where
  "deepcopy_dict h d =
     sbind (deepcopy_items h [] d) (\<lambda>r. Inr (fst r @ [Dict (snd r)], length (fst r)))"

text \<open>\<open>d[k] = a\<close> on the dict object at address \<open>d\<close>.\<close>

definition heap_dict_set :: "nat \<Rightarrow> string \<Rightarrow> nat \<Rightarrow> heap \<Rightarrow> exn + heap" where
  "heap_dict_set d k a h = sbind (read_dict h d) (\<lambda>kvs. Inr (h[d := Dict (dict_set k a kvs)]))"

text \<open>A name that is None or empty is replaced by the default.\<close>

definition name_or :: "string option \<Rightarrow> string \<Rightarrow> string" where
  "name_or given dflt = (if truthy_opt given then str_opt given else dflt)"

text \<open>What the loop over \<open>attrs.items()\<close> does to an \<open>Attribute\<close>, an \<open>Id\<close> and a
  \<open>Relationship\<close> bound to the Python name \<open>pn\<close>; the insertion into the field dict is in
  \<open>declare_field\<close>.\<close>

definition bind_attribute :: "string \<Rightarrow> Attribute \<Rightarrow> exn + Attribute" where
  "bind_attribute pn f =
     (let f1 = f\<lparr> python_name := Some pn, attr_japi_name := Some (name_or (attr_japi_name f) pn) \<rparr>
      in case fget f1 of
           Some g \<Rightarrow> if truthy_opt (mapped_attribute_name f1) then Inl AssertionError else Inr f1
         | None \<Rightarrow>
             (case fset f1 of
                Some s \<Rightarrow> Inl AssertionError
              | None \<Rightarrow>
                  (let mapped = name_or (mapped_attribute_name f1) pn
                   in Inr (f1\<lparr> mapped_attribute_name := Some mapped,
                               fget := Some (default_fget mapped),
                               fset := Some (if writable_during f1 = {} then poisoned_fset
                                             else default_fset mapped) \<rparr>))))"

definition bind_id :: "string \<Rightarrow> Id \<Rightarrow> exn + Id" where
  "bind_id pn f =
     (let f1 = f\<lparr> python_name := Some pn \<rparr>
      in case fget f1 of
           Some g \<Rightarrow> if truthy_opt (mapped_pk_name f1) then Inl AssertionError else Inr f1
         | None \<Rightarrow>
             (case fset f1 of
                Some s \<Rightarrow> Inl AssertionError
              | None \<Rightarrow>
                  (let mapped = name_or (mapped_pk_name f1) ''id''
                   in Inr (f1\<lparr> mapped_pk_name := Some mapped,
                               fget := Some (default_fget mapped),
                               fset := Some (if writable_during f1 = {} then poisoned_fset
                                             else default_fset mapped) \<rparr>))))"

definition bind_relationship :: "ClassRef \<Rightarrow> string \<Rightarrow> Relationship \<Rightarrow> Relationship" where
  "bind_relationship cref pn f =
     f\<lparr> python_name := Some pn, rel_japi_name := Some (name_or (rel_japi_name f) pn),
        bound_resource_class := Some cref \<rparr>"

text \<open>The body of the loop over \<open>attrs.items()\<close>: \<open>ad\<close> and \<open>rd\<close> are the addresses of the
  new class's two dicts. A value that is not a field is passed over.\<close>

definition declare_field ::
  "ClassRef \<Rightarrow> nat \<Rightarrow> nat \<Rightarrow> string \<times> class_attr \<Rightarrow> heap \<Rightarrow> exn + heap" where
  "declare_field cref ad rd entry h =
     (case snd entry of
        FieldRef a \<Rightarrow>
          sbind (read_field h a) (\<lambda>val.
            case val of
              MAttribute f \<Rightarrow>
                sbind (heap_dict_set ad (name_or (attr_japi_name f) (fst entry)) a h) (\<lambda>h1.
                sbind (bind_attribute (fst entry) f) (\<lambda>f'. Inr (h1[a := Field (MAttribute f')])))
            | MId f \<Rightarrow>
                sbind (bind_id (fst entry) f) (\<lambda>f'. Inr (h[a := Field (MId f')]))
            | MRelationship f \<Rightarrow>
                sbind (heap_dict_set rd (name_or (rel_japi_name f) (fst entry)) a h) (\<lambda>h1.
                  Inr (h1[a := Field (MRelationship (bind_relationship cref (fst entry) f))]))
            | MOther \<Rightarrow> Inr h)
      | _ \<Rightarrow> Inr h)"

text \<open>\<open>isinstance(attrs.get("id"), Id)\<close> and the three other tests of \<open>_instantiable\<close>, on
  the class body's own namespace.\<close>

definition is_Id_attr :: "heap \<Rightarrow> class_attr option \<Rightarrow> bool" where
  "is_Id_attr h v =
     (case v of
        Some (FieldRef a) \<Rightarrow> (case read_field h a of Inr (MId f) \<Rightarrow> True | _ \<Rightarrow> False)
      | _ \<Rightarrow> False)"

definition is_str_attr :: "class_attr option \<Rightarrow> bool" where
  "is_str_attr v = (case v of Some (StrAttr s) \<Rightarrow> True | _ \<Rightarrow> False)"

definition is_type_attr :: "class_attr option \<Rightarrow> bool" where
  "is_type_attr v = (case v of Some TypeAttr \<Rightarrow> True | _ \<Rightarrow> False)"

definition members_of :: "(string \<times> class_attr) list \<Rightarrow> ClassObj list \<Rightarrow> (string \<times> class_attr) list" where
  "members_of attrs bases = attrs @ concat (map cls_members bases)"

definition class_ref :: "string \<Rightarrow> (string \<times> class_attr) list \<Rightarrow> ClassRef" where
  "class_ref name members =
     \<lparr> ref_name = name,
       ref_url_component =
         (case map_of members ''japi_resource_url_component'' of
            Some (StrAttr s) \<Rightarrow> Some s
          | _ \<Rightarrow> None) \<rparr>"

text \<open>\<open>ResourceMeta.__init__(cls, name, bases, attrs)\<close> on the store \<open>h\<close>: the new store and
  the new class.\<close>

definition ResourceMeta_init ::
  "heap \<Rightarrow> string \<Rightarrow> ClassObj list \<Rightarrow> (string \<times> class_attr) list \<Rightarrow> exn + heap \<times> ClassObj" where
  "ResourceMeta_init h name bases attrs =
     sbind (inherited h cls_attrs_by_japi_name bases) (\<lambda>attrs_by_japi_name.
     sbind (inherited h cls_rels_by_japi_name bases) (\<lambda>rels_by_japi_name.
     sbind (deepcopy_dict h attrs_by_japi_name) (\<lambda>r1.
     sbind (deepcopy_dict (fst r1) rels_by_japi_name) (\<lambda>r2.
     sbind (fold_err (declare_field (class_ref name (members_of attrs bases)) (snd r1) (snd r2))
              attrs (fst r2)) (\<lambda>h'.
       Inr (h', \<lparr> class_name = name, is_resource = True,
                  cls_members = members_of attrs bases,
                  cls_attrs_by_japi_name = snd r1,
                  cls_rels_by_japi_name = snd r2,
                  cls_instantiable =
                    (is_Id_attr h' (map_of attrs ''id'')
                     \<and> is_type_attr (map_of attrs ''model_class'')
                     \<and> is_str_attr (map_of attrs ''japi_resource_type'')
                     \<and> is_str_attr (map_of attrs ''japi_resource_url_component'')) \<rparr>))))))"

text \<open>The field addresses a class's dict holds in a store, and the objects a class reaches:
  its two dicts and the fields in them.\<close>

definition dict_items :: "heap \<Rightarrow> nat \<Rightarrow> (string \<times> nat) list" where
  "dict_items h d = (case read_dict h d of Inr kvs \<Rightarrow> kvs | Inl e \<Rightarrow> [])"

definition reachable :: "heap \<Rightarrow> ClassObj \<Rightarrow> nat set" where
  "reachable h c =
     {cls_attrs_by_japi_name c, cls_rels_by_japi_name c}
     \<union> snd ` set (dict_items h (cls_attrs_by_japi_name c))
     \<union> snd ` set (dict_items h (cls_rels_by_japi_name c))"

text \<open>
  What a field dict holds in a store, the names with the field descriptors: the dict at
  the address \<open>d\<close> as a reader of \<open>cls._attrs_by_japi_name\<close> or \<open>cls._rels_by_japi_name\<close>
  sees it.
\<close>

definition fields_at :: "heap \<Rightarrow> nat \<Rightarrow> (string \<times> (exn + member)) list" where
  "fields_at h d = map (\<lambda>kv. (fst kv, read_field h (snd kv))) (dict_items h d)"

text \<open>
  \<open>getattr(cls, name)\<close>, attribute lookup on the class itself: \<open>BaseField.__get__\<close> called
  without an instance returns the field object. And a mutation of the field object at
  the address \<open>a\<close>, as \<open>field.nullable = True\<close> is: the object then holds the field \<open>f\<close>.
\<close>

definition class_getattr :: "ClassObj \<Rightarrow> string \<Rightarrow> class_attr option" where
  "class_getattr c name = map_of (cls_members c) name"

definition mutate :: "heap \<Rightarrow> nat \<Rightarrow> member \<Rightarrow> heap" where
  "mutate h a f = h[a := Field f]"

text \<open>A class whose objects are older than the \<open>n\<close>-th object of the store: its two dicts
  and the fields in them have addresses below \<open>n\<close>.\<close>

definition older :: "heap \<Rightarrow> nat \<Rightarrow> ClassObj \<Rightarrow> bool" where
  "older h n p = (\<forall>b \<in> reachable h p. b < n)"

text \<open>The fields a class body declares.\<close>

definition declared :: "(string \<times> class_attr) list \<Rightarrow> nat set" where
  "declared attrs = {a. FieldRef a \<in> snd ` set attrs}"

text \<open>The bases' fields exist: every address in a field dict of a base is in the store.\<close>

definition fields_allocated :: "heap \<Rightarrow> ClassObj list \<Rightarrow> bool" where
  "fields_allocated h bases =
     (\<forall>base \<in> set bases. is_resource base \<longrightarrow>
        (\<forall>(k, a) \<in> set (dict_items h (cls_attrs_by_japi_name base))
                    \<union> set (dict_items h (cls_rels_by_japi_name base)). a < length h))"

text \<open>
  Two relations used to state what registration does. \<open>copy_of h0 h' lo x y\<close>: the dict
  entry \<open>y\<close> has the name of the entry \<open>x\<close>, and its address is one of the store \<open>h'\<close>, not
  below \<open>lo\<close>, that holds the value the address of \<open>x\<close> holds in \<open>h0\<close>. \<open>step_ok\<close>: from
  \<open>h\<close> to \<open>h'\<close> no object was added, the objects other than the two dicts and the
  declared fields are as they were, and the two dicts gained entries for declared fields
  only.
\<close>

definition copy_of :: "heap \<Rightarrow> heap \<Rightarrow> nat \<Rightarrow> string \<times> nat \<Rightarrow> string \<times> nat \<Rightarrow> bool" where
  "copy_of h0 h' lo x y = (fst y = fst x \<and> lo \<le> snd y \<and> snd y < length h' \<and> h' ! snd y = h0 ! snd x)"

definition step_ok :: "nat \<Rightarrow> nat \<Rightarrow> nat set \<Rightarrow> heap \<Rightarrow> heap \<Rightarrow> bool" where
  "step_ok ad rd decl h h' =
     (length h' = length h
      \<and> (\<forall>b. b \<noteq> ad \<and> b \<noteq> rd \<and> b \<notin> decl \<longrightarrow> h' ! b = h ! b)
      \<and> (\<forall>d \<in> {ad, rd}. \<forall>kvs. h ! d = Dict kvs \<longrightarrow>
            (\<exists>kvs'. h' ! d = Dict kvs' \<and> (\<forall>(k, a) \<in> set kvs'. (k, a) \<in> set kvs \<or> a \<in> decl))))"

section \<open>Schemas and documents for which the round trip is stated\<close>

text \<open>
  An attribute, or a relationship, that is stored in the column \<open>c\<close> with the accessors
  the metaclass derives from a column name, and that is writable on create; for a
  relationship also: it is a to-one relationship bound to a class with a URL component.
\<close>

definition attr_on :: "Attribute \<Rightarrow> string \<Rightarrow> bool" where
  "attr_on f c =
     (fget f = Some (default_fget c) \<and> fset f = Some (default_fset c)
      \<and> CREATE \<in> writable_during f)"

definition rel_on :: "Relationship \<Rightarrow> string \<Rightarrow> bool" where
  "rel_on r c =
     (is_to_one r \<and> fget r = Some (default_fget c) \<and> fset r = Some (default_fset c)
      \<and> CREATE \<in> writable_during r
      \<and> (case bound_component r of Inr u \<Rightarrow> True | Inl e \<Rightarrow> False))"

text \<open>
  A class whose fields are all of that kind, on columns that differ from each other and
  from the primary key column \<open>pk\<close>: \<open>col\<close> and \<open>fk\<close> give the column of an attribute and of
  a relationship by its wire name.
\<close>

definition plain_class ::
  "ResourceClass \<Rightarrow> (string \<Rightarrow> string) \<Rightarrow> (string \<Rightarrow> string) \<Rightarrow> string \<Rightarrow> bool" where
  "plain_class cls col fk pk =
     (instantiable cls
      \<and> (case class_dict cls ''id'' of
            Some (MId i) \<Rightarrow> fget i = Some (default_fget pk)
          | _ \<Rightarrow> False)
      \<and> list_all (\<lambda>kv. attr_on (snd kv) (col (fst kv))) (attrs_by_japi_name cls)
      \<and> list_all (\<lambda>kv. rel_on (snd kv) (fk (fst kv))) (rels_by_japi_name cls)
      \<and> distinct (map fst (attrs_by_japi_name cls))
      \<and> distinct (map fst (rels_by_japi_name cls))
      \<and> distinct (pk # map (\<lambda>kv. col (fst kv)) (attrs_by_japi_name cls)
                      @ map (\<lambda>kv. fk (fst kv)) (rels_by_japi_name cls)))"

text \<open>The key a relationship object links to: its \<open>data\<close> is a resource identifier of the
  type \<open>t\<close> whose \<open>id\<close> is an integer (None for any other relationship object, the null
  linkage included).\<close>

definition linkage_key :: "string \<Rightarrow> json \<Rightarrow> int option" where
  "linkage_key t v =
     (case getitem v ''data'' of
        Inr (JObj dat) \<Rightarrow>
          (case map_of dat ''type'' of
             Some ty \<Rightarrow>
               if ty = JStr t then
                 (case map_of dat ''id'' of
                    Some i \<Rightarrow> (case py_int i of Inr k \<Rightarrow> Some k | Inl e \<Rightarrow> None)
                  | None \<Rightarrow> None)
               else None
           | None \<Rightarrow> None)
      | _ \<Rightarrow> None)"

text \<open>
  What the document gives for a field, and what the new record \<open>m0\<close> holds when the
  document leaves the field out. An attribute is given a value that is not null unless the
  attribute is nullable; a relationship is given a linkage with a key. A field left out
  has a default or is nullable, and the new record already holds a value for it that could
  have been given.
\<close>

definition is_null :: "json \<Rightarrow> bool" where
  "is_null v = (v = JNull)"

definition attribute_given :: "model \<Rightarrow> string \<Rightarrow> Attribute \<Rightarrow> json option \<Rightarrow> bool" where
  "attribute_given m0 c f given =
     (case given of
        Some v \<Rightarrow> nullable f \<or> \<not> is_null v
      | None \<Rightarrow>
          (has_default f \<or> nullable f)
          \<and> (case m0 c of Some v \<Rightarrow> nullable f \<or> \<not> is_null v | None \<Rightarrow> False))"

definition relationship_given :: "model \<Rightarrow> string \<Rightarrow> Relationship \<Rightarrow> json option \<Rightarrow> bool" where
  "relationship_given m0 c r given =
     (case given of
        Some v \<Rightarrow> (case linkage_key (related_resource_class r) v of Some k \<Rightarrow> True | None \<Rightarrow> False)
      | None \<Rightarrow>
          (nullable r \<or> has_default r)
          \<and> (case m0 c of Some (JInt k) \<Rightarrow> True | _ \<Rightarrow> False))"

text \<open>
  A document that conforms to the class: it has the class's type; its attributes \<open>ad\<close> and
  relationships \<open>rd\<close> name declared fields only, each once; every field of the class is
  given, or left out, as above; and the new record's primary key has a string form.
\<close>

definition conforming ::
  "ResourceClass \<Rightarrow> (string \<Rightarrow> string) \<Rightarrow> (string \<Rightarrow> string) \<Rightarrow> string \<Rightarrow> model \<Rightarrow> json
     \<Rightarrow> (string \<times> json) list \<Rightarrow> (string \<times> json) list \<Rightarrow> bool" where
  "conforming cls col fk pk m0 input_dict ad rd =
     (getitem input_dict ''type'' = Inr (JStr (japi_resource_type cls))
      \<and> get_or_empty input_dict ''attributes'' = Inr ad
      \<and> get_or_empty input_dict ''relationships'' = Inr rd
      \<and> distinct (map fst ad) \<and> distinct (map fst rd)
      \<and> list_all (\<lambda>kv. fst kv \<in> set (map fst (attrs_by_japi_name cls))) ad
      \<and> list_all (\<lambda>kv. fst kv \<in> set (map fst (rels_by_japi_name cls))) rd
      \<and> list_all (\<lambda>kv. attribute_given m0 (col (fst kv)) (snd kv) (map_of ad (fst kv)))
           (attrs_by_japi_name cls)
      \<and> list_all (\<lambda>kv. relationship_given m0 (fk (fst kv)) (snd kv) (map_of rd (fst kv)))
           (rels_by_japi_name cls)
      \<and> (case m0 pk of
            Some v \<Rightarrow> (case py_str v of Inr s \<Rightarrow> True | Inl e \<Rightarrow> False)
          | None \<Rightarrow> False))"

text \<open>
  The record after a loop of default setters: for each name of \<open>ns\<close> in turn, the column
  \<open>key n\<close> is set to \<open>val n\<close>. \<open>value_at\<close> reads a column that holds a value, and
  \<open>linked_value\<close> is the foreign key that the relationships \<open>rd\<close> of a document give for the
  relationship \<open>n\<close>.
\<close>

definition written :: "(string \<Rightarrow> string) \<Rightarrow> (string \<Rightarrow> json) \<Rightarrow> string list \<Rightarrow> model \<Rightarrow> model" where
  "written key val ns m = fold (\<lambda>n m'. m'(key n \<mapsto> val n)) ns m"

definition value_at :: "model \<Rightarrow> string \<Rightarrow> json" where
  "value_at m c = (case m c of Some v \<Rightarrow> v | None \<Rightarrow> JNull)"

definition linked_value :: "ResourceClass \<Rightarrow> (string \<times> json) list \<Rightarrow> string \<Rightarrow> json" where
  "linked_value cls rd n =
     (case map_of (rels_by_japi_name cls) n of
        Some r \<Rightarrow>
          (case linkage_key (related_resource_class r) (item_of (JObj rd) n) of
             Some k \<Rightarrow> JInt k
           | None \<Rightarrow> JNull)
      | None \<Rightarrow> JNull)"

text \<open>
  The record the first \<open>deserialize\<close> of a conforming document returns: the new record
  with the attributes of the document written by name, then its relationships.
\<close>

definition record_of ::
  "ResourceClass \<Rightarrow> (string \<Rightarrow> string) \<Rightarrow> (string \<Rightarrow> string) \<Rightarrow> model
     \<Rightarrow> (string \<times> json) list \<Rightarrow> (string \<times> json) list \<Rightarrow> model" where
  "record_of cls col fk m0 ad rd =
     written fk (linked_value cls rd) (map fst rd) (written col (item_of (JObj ad)) (map fst ad) m0)"

text \<open>
  An entry \<open>y\<close> of the serialized relationships stands for the relationship \<open>kv\<close> of the
  class when it has its name and links to the key the record \<open>m\<close> holds for it.
\<close>

definition serialized_rel ::
  "model \<Rightarrow> (string \<Rightarrow> string) \<Rightarrow> string \<times> Relationship \<Rightarrow> string \<times> json \<Rightarrow> bool" where
  "serialized_rel m fk kv y =
     (fst y = fst kv
      \<and> (\<exists>k. m (fk (fst kv)) = Some (JInt k)
               \<and> linkage_key (related_resource_class (snd kv)) (snd y) = Some k))"

section \<open>An example schema\<close>

text \<open>
  The resource class \<open>article\<close> as the metaclass leaves it: an auto-incrementing \<open>id\<close>, a
  required attribute \<open>title\<close> and a nullable to-one relationship \<open>author\<close> to \<open>person\<close> on
  the foreign key \<open>author_id\<close>, all with the default accessors and writable in every
  context.
\<close>

definition default_id :: Id where
  "default_id = \<lparr> writable_during = ALWAYS_SET, nullable = False, has_default = True,
     fget = Some (default_fget ''id''), fset = Some (default_fset ''id''), fvalidators = [],
     python_name = Some ''id'', mapped_pk_name = Some ''id'' \<rparr>"

definition title_attr :: Attribute where
  "title_attr = \<lparr> writable_during = ALWAYS_SET, nullable = False, has_default = False,
     fget = Some (default_fget ''title''), fset = Some (default_fset ''title''), fvalidators = [],
     python_name = Some ''title'', mapped_attribute_name = Some ''title'',
     attr_japi_name = Some ''title'' \<rparr>"

definition author_rel :: Relationship where
  "author_rel = \<lparr> writable_during = ALWAYS_SET, nullable = True, has_default = False,
     fget = Some (default_fget ''author_id''), fset = Some (default_fset ''author_id''),
     fvalidators = [], python_name = Some ''author'',
     related_resource_class = ''person'', rel_japi_name = Some ''author'',
     bound_resource_class = Some \<lparr> ref_name = ''Article'', ref_url_component = Some ''articles'' \<rparr>,
     is_to_one = True,
     mapped_fk_name = ''author_id'' \<rparr>"

definition article_class :: ResourceClass where
  "article_class = \<lparr> japi_resource_type = ''article'',
     japi_resource_url_component = ''articles'', instantiable = True,
     class_dict = [''id'' \<mapsto> MId default_id, ''title'' \<mapsto> MAttribute title_attr,
                   ''author'' \<mapsto> MRelationship author_rel],
     attrs_by_japi_name = [(''title'', title_attr)],
     rels_by_japi_name = [(''author'', author_rel)] \<rparr>"

text \<open>A new model instance: every column reads None until it is set.\<close>

definition new_article :: model where
  "new_article = [''id'' \<mapsto> JNull, ''title'' \<mapsto> JNull, ''author_id'' \<mapsto> JNull]"

text \<open>A document with the title \<open>T\<close> and, as author, the person 9; and the same document
  with the null linkage \<open>{"data": null}\<close>.\<close>

definition article_doc :: json where
  "article_doc = JObj [(''type'', JStr ''article''),
     (''attributes'', JObj [(''title'', JStr ''T'')]),
     (''relationships'', JObj [(''author'',
        JObj [(''data'', JObj [(''type'', JStr ''person''), (''id'', JStr ''9'')])])])]"

definition article_doc_null_author :: json where
  "article_doc_null_author = JObj [(''type'', JStr ''article''),
     (''attributes'', JObj [(''title'', JStr ''T'')]),
     (''relationships'', JObj [(''author'', JObj [(''data'', JNull)])])]"

text \<open>Two documents with an attribute the article does not declare (and no title): one of
  another type, one of the article's type. A third document gives the title, as null.\<close>

definition article_doc_null_title :: json where
  "article_doc_null_title = JObj [(''type'', JStr ''article''),
     (''attributes'', JObj [(''title'', JNull)])]"

definition article_doc_wrong_type :: json where
  "article_doc_wrong_type = JObj [(''type'', JStr ''person''),
     (''attributes'', JObj [(''colour'', JStr ''red'')])]"

definition article_doc_extra :: json where
  "article_doc_extra = JObj [(''type'', JStr ''article''),
     (''attributes'', JObj [(''colour'', JStr ''red'')])]"

text \<open>
  The entries of the \<open>fields[...]\<close> parameters of a query, in order: each value is split
  on commas, each token is stripped of surrounding whitespace, and a token that is empty
  after that is left out. \<open>query_name\<close> is the name an entry stands for in the storage
  query: the foreign key of the relationship of that name, or the entry itself.
\<close>

definition is_fields_arg :: "string \<times> string \<Rightarrow> bool" where
  "is_fields_arg arg = fullmatch_bracketed ''fields'' (fst arg)"

definition entries_of :: "string \<Rightarrow> string list" where
  "entries_of v = filter truthy_str (map py_strip (split_str_on_comma v))"

definition sparse_entries :: "(string \<times> string) list \<Rightarrow> string list" where
  "sparse_entries args = concat (map (\<lambda>arg. entries_of (snd arg)) (filter is_fields_arg args))"

definition query_name :: "ResourceClass \<Rightarrow> string \<Rightarrow> string" where
  "query_name cls val =
     (case map_of (rels_by_japi_name cls) val of Some r \<Rightarrow> mapped_fk_name r | None \<Rightarrow> val)"

text \<open>Every relationship of the class is the class attribute of the same name, as it is
  when the field dicts are keyed by the Python names (no \<open>japi_name\<close> was given).\<close>

definition rels_are_class_attributes :: "ResourceClass \<Rightarrow> bool" where
  "rels_are_class_attributes cls =
     list_all (\<lambda>kv. class_mapped_fk_name cls (fst kv) = Inr (query_name cls (fst kv)))
       (rels_by_japi_name cls)"

text \<open>
  The store after the registration of \<open>Article\<close> (its three fields and its two dicts), the
  class \<open>Article\<close>, and what the registration of \<open>class Draft(Article): pass\<close> gives: a
  copy of \<open>title\<close> at address 5, a copy of \<open>author\<close> at address 7, and two new dicts.
\<close>

definition article_heap :: heap where
  "article_heap = [Field (MId default_id), Field (MAttribute title_attr),
     Field (MRelationship author_rel), Dict [(''title'', 1)], Dict [(''author'', 2)]]"

definition article_obj :: ClassObj where
  "article_obj = \<lparr> class_name = ''Article'', is_resource = True,
     cls_members = [(''id'', FieldRef 0), (''title'', FieldRef 1), (''author'', FieldRef 2),
       (''model_class'', TypeAttr), (''japi_resource_type'', StrAttr ''article''),
       (''japi_resource_url_component'', StrAttr ''articles'')],
     cls_attrs_by_japi_name = 3, cls_rels_by_japi_name = 4, cls_instantiable = True \<rparr>"

definition draft_heap :: heap where
  "draft_heap = article_heap @ [Field (MAttribute title_attr), Dict [(''title'', 5)],
     Field (MRelationship author_rel), Dict [(''author'', 7)]]"

definition draft_obj :: ClassObj where
  "draft_obj = \<lparr> class_name = ''Draft'', is_resource = True,
     cls_members = cls_members article_obj,
     cls_attrs_by_japi_name = 6, cls_rels_by_japi_name = 8, cls_instantiable = False \<rparr>"

text \<open>
  The resource class \<open>page\<close>: a required \<open>title\<close> and a nullable attribute \<open>revision\<close>
  that is writable during UPDATE only; a new model instance of it; and a document that
  gives the title.
\<close>

definition revision_attr :: Attribute where
  "revision_attr = \<lparr> writable_during = {UPDATE}, nullable = True, has_default = False,
     fget = Some (default_fget ''revision''), fset = Some (default_fset ''revision''),
     fvalidators = [], python_name = Some ''revision'',
     mapped_attribute_name = Some ''revision'', attr_japi_name = Some ''revision'' \<rparr>"

definition page_class :: ResourceClass where
  "page_class = \<lparr> japi_resource_type = ''page'',
     japi_resource_url_component = ''pages'', instantiable = True,
     class_dict = [''id'' \<mapsto> MId default_id, ''title'' \<mapsto> MAttribute title_attr,
                   ''revision'' \<mapsto> MAttribute revision_attr],
     attrs_by_japi_name = [(''title'', title_attr), (''revision'', revision_attr)],
     rels_by_japi_name = [] \<rparr>"

definition new_page :: model where
  "new_page = [''id'' \<mapsto> JNull, ''title'' \<mapsto> JNull, ''revision'' \<mapsto> JNull]"

definition page_doc :: json where
  "page_doc = JObj [(''type'', JStr ''page''), (''attributes'', JObj [(''title'', JStr ''T'')])]"

section \<open>Properties of the comma splitter\<close>

lemma backslash_neq_comma [simp]: "backslash \<noteq> CHR '',''" "CHR '','' \<noteq> backslash"
  by (simp_all add: backslash_def)

lemma tokens_comma:
  "tokens cur (CHR '','' # cs) = (if cur \<noteq> [] then [cur] else []) @ tokens [] cs"
  by (cases cs) simp_all

lemma tokens_plain:
  "c \<noteq> CHR '','' \<Longrightarrow> c \<noteq> backslash \<Longrightarrow> tokens cur (c # cs) = tokens (cur @ [c]) cs"
  by (cases cs) simp_all

text \<open>
  The loop from index \<open>k\<close> on, started in any state, reads the rest of the string as
  \<open>tokens\<close> does; when the state is escaped, the character at \<open>k\<close> was appended one
  iteration earlier and is skipped.
\<close>

lemma fold_split_body:
  "k \<le> length s \<Longrightarrow>
   split_return (fold (split_body s) [k ..< length s] st) =
     result st @ tokens (sub_str st) (drop (if is_escaped st then Suc k else k) s)"
proof (induction "length s - k" arbitrary: k st)
  case 0
  then have "k = length s" by simp
  then show ?case by (simp add: split_return_def)
next
  case (Suc n)
  then have lt: "k < length s" by simp
  have upt: "[k ..< length s] = k # [Suc k ..< length s]"
    using lt by (simp add: upt_conv_Cons)
  have nk: "n = length s - Suc k" using Suc.hyps(2) by simp
  have le: "Suc k \<le> length s" using lt by simp
  have IH: "\<And>st'. split_return (fold (split_body s) [Suc k ..< length s] st') =
     result st' @ tokens (sub_str st') (drop (if is_escaped st' then Suc (Suc k) else Suc k) s)"
    using Suc.hyps(1)[OF nk le] .
  have dr: "drop k s = s ! k # drop (Suc k) s"
    using lt by (simp add: Cons_nth_drop_Suc)
  show ?case
  proof (cases "is_escaped st")
    case True
    then show ?thesis by (simp add: upt IH split_body_def)
  next
    case False
    note ne = this
    show ?thesis
    proof (cases "s ! k = CHR '',''")
      case True
      then show ?thesis using ne by (simp add: upt IH split_body_def dr tokens_comma)
    next
      case False
      note nc = this
      show ?thesis
      proof (cases "s ! k = backslash")
        case False
        then show ?thesis using ne nc by (simp add: upt IH split_body_def dr tokens_plain)
      next
        case True
        note bs = this
        show ?thesis
        proof (cases "k < length s - 1")
          case True
          then have "Suc k < length s" by simp
          then have dr2: "drop (Suc k) s = s ! Suc k # drop (Suc (Suc k)) s"
            by (simp add: Cons_nth_drop_Suc)
          show ?thesis using ne nc bs True
            by (simp add: upt IH split_body_def dr dr2 Let_def)
        next
          case False
          then have "Suc k = length s" using lt by simp
          then show ?thesis using ne nc bs False
            by (simp add: upt split_body_def dr Let_def split_return_def)
        qed
      qed
    qed
  qed
qed

lemma split_str_on_comma_tokens: "split_str_on_comma s = tokens [] s"
  using fold_split_body[of 0 s "\<lparr> is_escaped = False, result = [], sub_str = [] \<rparr>"]
  by (simp add: split_str_on_comma_def)

lemma tokens_nonempty: "[] \<notin> set (tokens cur s)"
  by (induction cur s rule: tokens.induct) auto

text \<open>
  C6, as the claim states it, fails: a backslash that is the last character of the input
  escapes nothing and is emitted. On the two characters \<open>a\<close>, backslash the result
  is the one token \<open>a\<close>, backslash.
\<close>

theorem split_final_backslash_emitted:
  "split_str_on_comma [CHR ''a'', backslash] = [[CHR ''a'', backslash]]
   \<and> backslash \<in> set (concat (split_str_on_comma [CHR ''a'', backslash]))"
  by (simp add: split_str_on_comma_tokens backslash_def)

text \<open>
  C6, amended: for every input string, \<open>split_str_on_comma\<close> returns the tokens read
  left to right, where an unescaped comma closes the current token, a backslash that is
  not itself escaped is left out and makes the next character (a comma or a backslash
  too) part of the token, and a backslash that is the last character of the input is kept
  as it is; no token of the result is empty; and the raw input
  \<open>hello,world\,hello\\,again\\\,world\<close> gives the three tokens \<open>hello\<close>,
  \<open>world,hello\\<close> and \<open>again\,world\<close>.
\<close>

theorem split_str_on_comma_correct:
  "split_str_on_comma s = tokens [] s
   \<and> [] \<notin> set (split_str_on_comma s)
   \<and> split_str_on_comma
        (''hello,world'' @ [backslash] @ '',hello'' @ [backslash, backslash] @
         '',again'' @ [backslash, backslash, backslash] @ '',world'')
       = [''hello'', ''world,hello'' @ [backslash], ''again'' @ [backslash] @ '',world'']"
  by (simp add: split_str_on_comma_tokens tokens_nonempty backslash_def)

section \<open>The serialized error object\<close>

text \<open>
  C8: an \<open>Error\<close> constructed with neither a source pointer nor a source parameter.
  \<open>__init__\<close> stores \<open>str(source_pointer)\<close>, which is the string \<open>None\<close> for the default
  argument, so the \<open>json\<close> property finds a non-empty pointer and emits a \<open>source\<close>
  member with the pointer \<open>None\<close>: the claim's error object has no \<open>source\<close> member here.
\<close>

theorem Error_json_source_without_arguments:
  "Error_json (Error_init ''Error'' 500 no_kwargs) =
     [(''status'', JInt 500), (''title'', JStr ''Error''),
      (''source'', JObj [(''pointer'', JStr ''None'')])]"
  by (simp add: Error_json_def Error_init_def no_kwargs_def str_opt_def truthy_opt_def
      truthy_str_def)

section \<open>Relationship objects\<close>

lemma for_each_error:
  "for_each f xs = Inl e \<Longrightarrow> \<exists>x \<in> set xs. f x = Inl e"
  by (induction xs) (auto split: sum.splits)

lemma raise_BadRequest_400 [simp]: "refused_400 (raise_BadRequest dt sp)"
  by (simp add: refused_400_def raise_BadRequest_def BadRequest_def Error_init_def)

lemma refused_400D:
  "refused_400 r \<Longrightarrow> \<exists>e. r = Inl (ApiError e) \<and> cls_name e = ''BadRequest'' \<and> http_status e = 400"
  by (auto simp: refused_400_def split: sum.splits exn.splits)

lemma refused_or_passed_meta:
  "assert_meta_object d sp = Inr () \<or> refused_400 (assert_meta_object d sp)"
  by (simp add: assert_meta_object_def)

lemma refused_or_passed_link:
  "assert_link d sp = Inr () \<or> refused_400 (assert_link d sp)"
  using refused_or_passed_meta by (simp add: assert_link_def)

lemma refused_or_passed_links:
  "assert_links_object d sp = Inr () \<or> refused_400 (assert_links_object d sp)"
proof (cases "assert_links_object d sp")
  case (Inr u)
  then show ?thesis by simp
next
  case (Inl e)
  show ?thesis
  proof (cases "is_dict d")
    case False
    then show ?thesis by (simp add: assert_links_object_def)
  next
    case True
    then have "for_each (\<lambda>kv. assert_link (snd kv) (sp @ fst kv @ ''/'')) (items d) = Inl e"
      using Inl by (simp add: assert_links_object_def)
    from for_each_error[OF this] obtain kv where
      "assert_link (snd kv) (sp @ fst kv @ ''/'') = Inl e" by blast
    then have "refused_400 (Inl e)"
      using refused_or_passed_link[of "snd kv" "sp @ fst kv @ ''/''"] by simp
    then show ?thesis using Inl by simp
  qed
qed

text \<open>
  C4, amended: let \<open>d\<close> be a map whose keys are among \<open>links\<close>, \<open>data\<close> and \<open>meta\<close>. Checked
  with neither \<open>to_one\<close> nor \<open>to_many\<close>, \<open>d\<close> is accepted exactly when it has the member
  \<open>data\<close> and its \<open>links\<close> and \<open>meta\<close> members, where present, are a links object and a meta
  object. The member \<open>data\<close> is mandatory whatever the discipline: with or without
  \<open>to_one\<close> and \<open>to_many\<close>, a map without \<open>data\<close> is refused with a BadRequest (400).
\<close>

theorem relationship_object_requires_data:
  assumes "is_dict d" and "keys_within d [''links'', ''data'', ''meta'']"
  shows "(assert_relationship_object d sp False False = Inr ()
            \<longleftrightarrow> has_key d ''data''
                \<and> (has_key d ''links''
                     \<longrightarrow> assert_links_object (item_of d ''links'') (sp @ ''links/'') = Inr ())
                \<and> (has_key d ''meta''
                     \<longrightarrow> assert_meta_object (item_of d ''meta'') (sp @ ''meta/'') = Inr ()))
         \<and> (\<not> has_key d ''data''
              \<longrightarrow> (\<exists>e. assert_relationship_object d sp to_many to_one = Inl (ApiError e)
                      \<and> cls_name e = ''BadRequest'' \<and> http_status e = 400))"
proof -
  have nonempty: "has_key d k \<Longrightarrow> items d \<noteq> []" for k
    by (auto simp: has_key_def)
  have accepted: "assert_relationship_object d sp False False = Inr ()
            \<longleftrightarrow> has_key d ''data''
                \<and> (has_key d ''links''
                     \<longrightarrow> assert_links_object (item_of d ''links'') (sp @ ''links/'') = Inr ())
                \<and> (has_key d ''meta''
                     \<longrightarrow> assert_meta_object (item_of d ''meta'') (sp @ ''meta/'') = Inr ())"
    using assms nonempty[of "''data''"]
    by (auto simp: assert_relationship_object_def sbind_def raise_BadRequest_def
        split: sum.splits)
  have refused: "refused_400 (assert_relationship_object d sp to_many to_one)"
    if nd: "\<not> has_key d ''data''"
  proof (cases "items d = []")
    case True
    then show ?thesis using assms by (simp add: assert_relationship_object_def)
  next
    case False
    let ?l = "if has_key d ''links'' then assert_links_object (item_of d ''links'') (sp @ ''links/'')
              else Inr ()"
    let ?m = "if has_key d ''meta'' then assert_meta_object (item_of d ''meta'') (sp @ ''meta/'')
              else Inr ()"
    have l: "?l = Inr () \<or> refused_400 ?l" using refused_or_passed_links by simp
    have m: "?m = Inr () \<or> refused_400 ?m" using refused_or_passed_meta by simp
    have "assert_relationship_object d sp to_many to_one
        = sbind ?l (\<lambda>u. sbind ?m (\<lambda>u. raise_BadRequest ''Missing data member'' sp))"
      using assms False nd by (simp add: assert_relationship_object_def)
    then have eq: "assert_relationship_object d sp to_many to_one
        = (case ?l of Inl e \<Rightarrow> Inl e
           | Inr u \<Rightarrow> (case ?m of Inl e \<Rightarrow> Inl e
                      | Inr u \<Rightarrow> raise_BadRequest ''Missing data member'' sp))"
      by (simp add: sbind_def)
    from l m consider "refused_400 ?l" | "?l = Inr ()" "refused_400 ?m"
      | "?l = Inr ()" "?m = Inr ()" by blast
    then show ?thesis
    proof cases
      case 1
      then obtain e where "?l = Inl e" using refused_400D by blast
      then show ?thesis using 1 eq by simp
    next
      case 2
      then obtain e where "?m = Inl e" using refused_400D by blast
      then show ?thesis using 2 eq by simp
    next
      case 3
      then show ?thesis using eq by simp
    qed
  qed
  show ?thesis using accepted refused refused_400D by blast
qed

theorem relationship_object_requires_data_witness:
  "is_dict (JObj [(''data'', JNull)])
   \<and> keys_within (JObj [(''data'', JNull)]) [''links'', ''data'', ''meta'']
   \<and> has_key (JObj [(''data'', JNull)]) ''data''
   \<and> assert_relationship_object (JObj [(''data'', JNull)]) ''/'' False False = Inr ()
   \<and> is_dict (JObj [(''meta'', JObj [])])
   \<and> keys_within (JObj [(''meta'', JObj [])]) [''links'', ''data'', ''meta'']
   \<and> \<not> has_key (JObj [(''meta'', JObj [])]) ''data''
   \<and> (\<exists>e. assert_relationship_object (JObj [(''meta'', JObj [])]) ''/'' False True
             = Inl (ApiError e) \<and> cls_name e = ''BadRequest'' \<and> http_status e = 400)"
proof -
  have a: "is_dict (JObj [(''data'', JNull)])"
    "keys_within (JObj [(''data'', JNull)]) [''links'', ''data'', ''meta'']"
    "has_key (JObj [(''data'', JNull)]) ''data''"
    "\<not> has_key (JObj [(''data'', JNull)]) ''links''"
    "\<not> has_key (JObj [(''data'', JNull)]) ''meta''"
    by (simp_all add: keys_within_def has_key_def)
  have b: "is_dict (JObj [(''meta'', JObj [])])"
    "keys_within (JObj [(''meta'', JObj [])]) [''links'', ''data'', ''meta'']"
    "\<not> has_key (JObj [(''meta'', JObj [])]) ''data''"
    by (simp_all add: keys_within_def has_key_def)
  from relationship_object_requires_data[OF a(1) a(2), of "''/''"] a
  have 1: "assert_relationship_object (JObj [(''data'', JNull)]) ''/'' False False = Inr ()"
    by blast
  from relationship_object_requires_data[OF b(1) b(2), of "''/''" False True] b(3)
  have 2: "\<exists>e. assert_relationship_object (JObj [(''meta'', JObj [])]) ''/'' False True
             = Inl (ApiError e) \<and> cls_name e = ''BadRequest'' \<and> http_status e = 400"
    by blast
  show ?thesis using a b 1 2 by simp
qed

text \<open>
  C4, as the claim states it, fails for a relationship object with only a \<open>links\<close> member,
  and for one with only a \<open>meta\<close> member, checked with neither \<open>to_one\<close> nor \<open>to_many\<close>:
  the \<open>else\<close> of \<open>if "data" in d\<close> raises whatever the discipline, and both objects are
  refused with "Missing data member".
\<close>

theorem relationship_object_without_data_refused:
  "assert_relationship_object (JObj [(''links'', JObj [])]) ''/'' False False =
     Inl (ApiError (BadRequest (no_kwargs\<lparr> kw_detail := ''Missing data member'',
                                             kw_source_pointer := Some ''/'' \<rparr>)))
   \<and> assert_relationship_object (JObj [(''meta'', JObj [])]) ''/'' False False =
     Inl (ApiError (BadRequest (no_kwargs\<lparr> kw_detail := ''Missing data member'',
                                             kw_source_pointer := Some ''/'' \<rparr>)))"
  by (simp add: assert_relationship_object_def keys_within_def has_key_def item_of_def sbind_def
      assert_links_object_def assert_meta_object_def raise_BadRequest_def)

section \<open>Page number and page size\<close>

lemma check_number_offending:
  "offending s \<Longrightarrow> \<exists>d. check_number (Some s) name = raise_parameter d name"
  by (auto simp: offending_def check_number_def split: option.splits)

text \<open>
  C10, amended: let a non-empty string \<open>s\<close> be the first value that the query supplies
  for \<open>page[number]\<close> or for \<open>page[size]\<close> (the value that \<open>query_args.get\<close> returns), and
  let \<open>s\<close> be offending: it does not parse as an integer, or parses to an integer below 1.
  Then \<open>NumberSize.from_request\<close> raises a BadRequest of status 400 and returns no
  paginator; the error's source parameter \<open>q\<close> is one of the two parameters and its own
  first value is offending; when the offending parameter is \<open>page[number]\<close>, which is
  checked first, \<open>q\<close> is \<open>page[number]\<close>.
\<close>

theorem from_request_offending:
  assumes "args_get (query_args request) p = Some s"
    and "p = ''page[number]'' \<or> p = ''page[size]''"
    and "offending s"
  shows "\<exists>e q t. from_request request component total_n default_size = Inl (ApiError e)
           \<and> cls_name e = ''BadRequest'' \<and> http_status e = 400
           \<and> source_parameter e = Some q
           \<and> (q = ''page[number]'' \<or> q = ''page[size]'')
           \<and> (p = ''page[number]'' \<longrightarrow> q = p)
           \<and> args_get (query_args request) q = Some t \<and> offending t"
proof (cases "p = ''page[number]''")
  case True
  then obtain d where
    "check_number (args_get (query_args request) ''page[number]'') ''page[number]''
      = raise_parameter d ''page[number]''"
    using assms check_number_offending by metis
  then show ?thesis using True assms
    by (simp add: from_request_def sbind_def raise_parameter_def BadRequest_def Error_init_def)
next
  case False
  then have p: "p = ''page[size]''" using assms by simp
  then obtain d where sz:
    "check_number (args_get (query_args request) ''page[size]'') ''page[size]''
      = raise_parameter d ''page[size]''"
    using assms check_number_offending by metis
  show ?thesis
  proof (cases "check_number (args_get (query_args request) ''page[number]'') ''page[number]''")
    case (Inr num)
    then show ?thesis using sz p assms
      by (simp add: from_request_def sbind_def raise_parameter_def BadRequest_def Error_init_def)
  next
    case (Inl e)
    then obtain t d' where
      "args_get (query_args request) ''page[number]'' = Some t" "offending t"
      "e = ApiError (BadRequest (no_kwargs\<lparr> kw_detail := d',
             kw_source_parameter := Some ''page[number]'' \<rparr>))"
      by (auto simp: check_number_def offending_def raise_parameter_def
          split: option.splits if_splits)
    then show ?thesis using Inl p
      by (simp add: from_request_def sbind_def BadRequest_def Error_init_def)
  qed
qed

lemma offending_examples:
  "offending ''0''" "\<not> offending ''2''" "offending ''abc''" "offending [CHR 0x1C, CHR ''5'']"
  by (simp_all add: offending_def int_of_str_def int_strip_def int_isspace_def int_unsigned_def
      is_digit_def digit_val_def)

theorem from_request_offending_witness:
  "args_get (query_args \<lparr> query_args = [(''page[number]'', ''2''), (''page[size]'', ''0'')],
                          link_prefix = ''/api'' \<rparr>) ''page[size]'' = Some ''0''
   \<and> offending ''0''
   \<and> (\<exists>e. from_request \<lparr> query_args = [(''page[number]'', ''2''), (''page[size]'', ''0'')],
                           link_prefix = ''/api'' \<rparr> ''articles'' 10 25 = Inl (ApiError e)
         \<and> http_status e = 400 \<and> source_parameter e = Some ''page[size]'')"
proof -
  let ?r = "\<lparr> query_args = [(''page[number]'', ''2''), (''page[size]'', ''0'')],
             link_prefix = ''/api'' \<rparr>"
  have a: "args_get (query_args ?r) ''page[size]'' = Some ''0''" by (simp add: args_get_def)
  have n: "args_get (query_args ?r) ''page[number]'' = Some ''2''" by (simp add: args_get_def)
  from from_request_offending[OF a _ offending_examples(1), of "''articles''" 10 25]
  obtain e q t where
    "from_request ?r ''articles'' 10 25 = Inl (ApiError e)" "http_status e = 400"
    "source_parameter e = Some q" "q = ''page[number]'' \<or> q = ''page[size]''"
    "args_get (query_args ?r) q = Some t" "offending t"
    by auto
  then show ?thesis using a n offending_examples by auto
qed

text \<open>
  C10, as the claim states it, fails for a value that is not the first of its parameter:
  the query \<open>page[number]=2&page[number]=abc&page[size]=5\<close> supplies the offending string
  \<open>abc\<close> as \<open>page[number]\<close>, but \<open>query_args.get\<close> returns the first value only, and
  \<open>from_request\<close> returns the paginator of page 2.
\<close>

theorem from_request_later_value_ignored:
  "supplied [(''page[number]'', ''2''), (''page[number]'', ''abc''), (''page[size]'', ''5'')]
     ''page[number]'' ''abc''
   \<and> offending ''abc''
   \<and> from_request \<lparr> query_args = [(''page[number]'', ''2''), (''page[number]'', ''abc''),
                                     (''page[size]'', ''5'')],
                       link_prefix = ''/api'' \<rparr> ''articles'' 10 25
       = Inr \<lparr> ns_link_prefix = ''/api'', ns_japi_resource_url_component = ''articles'',
               ns_query = [(''page[number]'', ''2''), (''page[size]'', ''5'')],
               number = 2, size_of_page = 5, total_resources = 10 \<rparr>"
  by (simp add: supplied_def offending_def from_request_def check_number_def args_get_def
      NumberSize_init_def sbind_def int_of_str_def int_strip_def int_isspace_def int_unsigned_def
      is_digit_def digit_val_def)

section \<open>The codec on the example schema\<close>

lemma set_iterate [simp]: "set (iterate slot ks) = set ks"
  by (simp add: iterate_def)

lemma distinct_iterate [simp]: "distinct (iterate slot ks)"
  by (simp add: iterate_def)

text \<open>Every order of a set is the order of some \<open>slot\<close>: with each key placed where the
  list \<open>ys\<close> has it, the set is iterated as \<open>ys\<close>.\<close>

lemma place_nth:
  assumes "distinct ys" and "i < length ys"
  shows "length (takeWhile (\<lambda>x. x \<noteq> ys ! i) ys) = i"
proof -
  have "takeWhile (\<lambda>x. x \<noteq> ys ! i) ys = take i ys"
  proof (rule takeWhile_eq_take_P_nth)
    fix j assume "j < i" "j < length ys"
    then show "ys ! j \<noteq> ys ! i" using assms by (simp add: nth_eq_iff_index_eq)
  next
    show "\<not> ys ! i \<noteq> ys ! i" by simp
  qed
  then show ?thesis using assms(2) by simp
qed

lemma iterate_any_order:
  assumes "distinct ys" and "set ys = set ks"
  shows "\<exists>slot. iterate slot ks = ys"
proof -
  let ?place = "\<lambda>k. length (takeWhile (\<lambda>x. x \<noteq> k) ys)"
  let ?xs = "sort_key ?place (remdups ks)"
  have m: "map ?place ys = [0..<length ys]"
    by (rule nth_equalityI) (simp_all add: place_nth[OF assms(1)])
  have inj: "inj_on ?place (set ys)"
  proof (rule inj_onI)
    fix a b assume a: "a \<in> set ys" and b: "b \<in> set ys" and e: "?place a = ?place b"
    from a obtain i where i: "i < length ys" "ys ! i = a" by (auto simp: in_set_conv_nth)
    from b obtain j where j: "j < length ys" "ys ! j = b" by (auto simp: in_set_conv_nth)
    have "i = j" using e place_nth[OF assms(1) i(1)] place_nth[OF assms(1) j(1)] i(2) j(2) by simp
    then show "a = b" using i j by simp
  qed
  have sx: "set ?xs = set ys" using assms(2) by simp
  have dx: "distinct ?xs" by simp
  have "map ?place ?xs = map ?place ys"
  proof (rule sorted_distinct_set_unique)
    show "sorted (map ?place ?xs)" by (rule sorted_sort_key)
    show "distinct (map ?place ?xs)" using dx inj sx by (simp add: distinct_map)
    show "sorted (map ?place ys)" unfolding m by simp
    show "distinct (map ?place ys)" unfolding m by simp
    show "set (map ?place ?xs) = set (map ?place ys)" using sx by simp
  qed
  moreover have "inj_on ?place (set ?xs \<union> set ys)" using inj sx by simp
  ultimately have "?xs = ys" by (simp only: inj_on_map_eq_map)
  then have "iterate (\<lambda>S. ?place) ks = ys" by (simp add: iterate_def)
  then show ?thesis by blast
qed

lemmas codec_defs =
  sbind_def lookup_def getitem.simps get_or_empty_def items.simps extra_keys_def
  intersection_keys_def missing_keys_def iterate_def raise_api_def Resource_init_def call_fset_def
  call_fget_def default_fset_def default_fget_def setattr_def getattr_def ALWAYS_SET_def

lemmas int_of_str_defs =
  int_of_str_def int_strip_def int_isspace_def int_unsigned_def is_digit_def digit_val_def

lemmas example_defs =
  article_class_def title_attr_def author_rel_def default_id_def new_article_def
  article_doc_def article_doc_null_author_def

text \<open>Whatever the resource and the attribute entries: a patch dict with a relationship
  entry is never applied.\<close>

lemma apply_patch_dict_relationships_fail:
  "patch_relationships pd \<noteq> [] \<Longrightarrow> \<exists>e. apply_patch_dict self pd = Inl e"
  by (cases "patch_relationships pd")
     (auto simp: apply_patch_dict_def sbind_def apply_relationship_def
        isinstance_ToOneRelationship_def split: sum.splits)

text \<open>
  C2: a patch dict with a writable to-one relationship entry. \<open>create_patch_dict\<close> turns the
  article document into the patch dict with the title \<open>T\<close> and the author 9, in whatever
  order it iterates the key sets;
  \<open>apply_patch_dict\<close> then asserts that the entry's value (the foreign key 9) is a
  \<open>ToOneRelationship\<close> and raises AssertionError, where the claim says the entry is written
  through the field's setter without raising.
\<close>

theorem apply_patch_dict_relationship_raises:
  "create_patch_dict slot article_class article_doc =
     Inr \<lparr> patch_attributes = [(''title'', JStr ''T'')],
           patch_relationships = [(''author'', JInt 9)] \<rparr>
   \<and> apply_patch_dict \<lparr> resource_class = article_class, model = new_article \<rparr>
        \<lparr> patch_attributes = [(''title'', JStr ''T'')],
          patch_relationships = [(''author'', JInt 9)] \<rparr> = Inl AssertionError"
  by (simp add: create_patch_dict_def apply_patch_dict_def patch_attribute_def
      patch_relationship_def apply_attribute_def apply_relationship_def check_linkage_def
      ToOneRelationship_deserialize_def Attribute_deserialize_def isinstance_ToOneRelationship_def
      int_of_str_defs codec_defs example_defs)

text \<open>
  C3: a create document whose nullable relationship \<open>author\<close> is \<open>{"data": null}\<close>.
  \<open>Resource.deserialize\<close> reads \<open>input_value["data"]["type"]\<close> before it hands the value to
  the field, and indexing None raises TypeError, in whatever order the key sets are
  iterated: no record is returned. The field's own
  \<open>deserialize_into_obj\<close>, which the relationship handler calls directly, accepts the same
  value and sets the foreign key to None.
\<close>

theorem deserialize_null_linkage_raises:
  "deserialize slot article_class article_doc_null_author new_article = Inl TypeError
   \<and> ToOneRelationship_deserialize_into_obj author_rel new_article (JObj [(''data'', JNull)])
       = Inr (new_article(''author_id'' \<mapsto> JNull))"
  by (simp add: deserialize_def check_attributes_def write_attributes_def write_attribute_def
      check_relationships_def write_relationships_def write_relationship_def check_linkage_def
      missing_attribute_def missing_relationship_def
      Attribute_deserialize_into_obj_def Attribute_deserialize_def
      ToOneRelationship_deserialize_into_obj_def ToOneRelationship_deserialize_def
      codec_defs example_defs)

section \<open>deserialize: extra and missing attributes\<close>

lemma for_each_all: "(\<And>x. x \<in> set xs \<Longrightarrow> f x = Inr ()) \<Longrightarrow> for_each f xs = Inr ()"
  by (induction xs) auto

lemma for_each_first_error:
  "x \<in> set xs \<Longrightarrow> f x = Inl e \<Longrightarrow> (\<And>y. y \<in> set xs \<Longrightarrow> f y = Inr () \<or> f y = Inl e)
   \<Longrightarrow> for_each f xs = Inl e"
proof (induction xs)
  case Nil
  then show ?case by simp
next
  case (Cons a xs)
  show ?case
  proof (cases "f a")
    case (Inl e')
    then show ?thesis using Cons.prems(3)[of a] by auto
  next
    case (Inr u)
    then have "x \<in> set xs" using Cons.prems by auto
    then have "for_each f xs = Inl e" using Cons by auto
    then show ?thesis using Inr by simp
  qed
qed

lemma missing_attribute_cases:
  assumes "m \<in> set (missing_keys ad (attrs_by_japi_name cls))"
  shows "\<exists>field. map_of (attrs_by_japi_name cls) m = Some field \<and>
     (has_default field \<or> nullable field \<longrightarrow> missing_attribute cls m = Inr ()) \<and>
     (\<not> (has_default field \<or> nullable field) \<longrightarrow>
        missing_attribute cls m = raise_api UnprocessableEntity ''Missing attributes'')"
proof -
  from assms have "m \<in> set (map fst (attrs_by_japi_name cls))"
    by (simp add: missing_keys_def)
  then obtain field where "map_of (attrs_by_japi_name cls) m = Some field"
    by (metis map_of_eq_None_iff not_Some_eq set_map)
  then show ?thesis by (simp add: missing_attribute_def lookup_def sbind_def)
qed

lemma check_attributes_extra:
  "k \<in> set (map fst ad) \<Longrightarrow> k \<notin> set (map fst (attrs_by_japi_name cls)) \<Longrightarrow>
   check_attributes slot cls ad = raise_api UnprocessableEntity ''Extra attributes''"
proof -
  assume "k \<in> set (map fst ad)" "k \<notin> set (map fst (attrs_by_japi_name cls))"
  then have "k \<in> set (extra_keys ad (attrs_by_japi_name cls))" by (simp add: extra_keys_def)
  then have "extra_keys ad (attrs_by_japi_name cls) \<noteq> []" by auto
  then show ?thesis by (simp add: check_attributes_def)
qed

lemma check_attributes_missing:
  assumes "extra_keys ad (attrs_by_japi_name cls) = []"
    and "map_of (attrs_by_japi_name cls) n = Some field"
    and "n \<notin> set (map fst ad)" and "\<not> has_default field" and "\<not> nullable field"
  shows "check_attributes slot cls ad = raise_api UnprocessableEntity ''Missing attributes''"
proof -
  have n: "n \<in> set (missing_keys ad (attrs_by_japi_name cls))"
    using assms by (auto simp: missing_keys_def dest: map_of_SomeD intro: rev_image_eqI)
  have e: "missing_attribute cls n = raise_api UnprocessableEntity ''Missing attributes''"
    using assms by (simp add: missing_attribute_def lookup_def sbind_def)
  have n': "n \<in> set (iterate slot (missing_keys ad (attrs_by_japi_name cls)))"
    using n by simp
  have "for_each (missing_attribute cls) (iterate slot (missing_keys ad (attrs_by_japi_name cls)))
      = raise_api UnprocessableEntity ''Missing attributes''"
    unfolding raise_api_def
  proof (rule for_each_first_error[OF n'])
    show "missing_attribute cls n = Inl (ApiError (UnprocessableEntity (no_kwargs\<lparr>kw_detail := ''Missing attributes''\<rparr>)))"
      using e by (simp add: raise_api_def)
  next
    fix y assume "y \<in> set (iterate slot (missing_keys ad (attrs_by_japi_name cls)))"
    then have "y \<in> set (missing_keys ad (attrs_by_japi_name cls))" by simp
    from missing_attribute_cases[OF this]
    show "missing_attribute cls y = Inr () \<or> missing_attribute cls y = Inl (ApiError (UnprocessableEntity (no_kwargs\<lparr>kw_detail := ''Missing attributes''\<rparr>)))"
      unfolding raise_api_def by blast
  qed
  then show ?thesis using assms(1) by (simp add: check_attributes_def)
qed

lemma check_attributes_pass:
  assumes "\<forall>k \<in> set (map fst ad). k \<in> set (map fst (attrs_by_japi_name cls))"
    and "\<forall>n field. map_of (attrs_by_japi_name cls) n = Some field \<and> n \<notin> set (map fst ad)
           \<longrightarrow> has_default field \<or> nullable field"
  shows "check_attributes slot cls ad = Inr ()"
proof -
  have x: "extra_keys ad (attrs_by_japi_name cls) = []"
    using assms(1) by (auto simp: extra_keys_def filter_empty_conv)
  have "for_each (missing_attribute cls) (iterate slot (missing_keys ad (attrs_by_japi_name cls)))
      = Inr ()"
  proof (rule for_each_all)
    fix m assume "m \<in> set (iterate slot (missing_keys ad (attrs_by_japi_name cls)))"
    then have m: "m \<in> set (missing_keys ad (attrs_by_japi_name cls))" by simp
    from missing_attribute_cases[OF m] obtain field where
      f: "map_of (attrs_by_japi_name cls) m = Some field"
      "has_default field \<or> nullable field \<longrightarrow> missing_attribute cls m = Inr ()" by blast
    have "m \<notin> set (map fst ad)" using m by (simp add: missing_keys_def)
    then have "has_default field \<or> nullable field" using assms(2) f(1) by blast
    then show "missing_attribute cls m = Inr ()" using f(2) by simp
  qed
  then show ?thesis using x by (simp add: check_attributes_def)
qed


text \<open>Where a 422 comes from.\<close>

lemma raises_422_simps [simp]:
  "\<not> raises_422 (Inr x)" "\<not> raises_422 (Inl TypeError)" "\<not> raises_422 (Inl (KeyError k))"
  "\<not> raises_422 (Inl ValueError)" "\<not> raises_422 (Inl AssertionError)"
  "\<not> raises_422 (Inl (AttributeError a))" "\<not> raises_422 (Inl (Unsupported u))"
  "\<not> raises_422 (raise_api BadRequest dt)" "\<not> raises_422 (raise_api Forbidden dt)"
  "raises_422 (raise_api UnprocessableEntity dt)"
  by (simp_all add: raises_422_def raise_api_def UnprocessableEntity_def Forbidden_def
      BadRequest_def Error_init_def)

lemma status_of_errors:
  "http_status (UnprocessableEntity kw) = 422" "http_status (Forbidden kw) = 403"
  "http_status (BadRequest kw) = 400"
  "cls_name (UnprocessableEntity kw) = ''UnprocessableEntity''"
  by (simp_all add: UnprocessableEntity_def Forbidden_def BadRequest_def Error_init_def)

lemma raises_422_sbind:
  "raises_422 (sbind m f) \<Longrightarrow> raises_422 m \<or> (\<exists>x. m = Inr x \<and> raises_422 (f x))"
  by (cases m) (auto simp: sbind_def raises_422_def)

lemma for_each_422: "raises_422 (for_each f xs) \<Longrightarrow> \<exists>x \<in> set xs. raises_422 (f x)"
  by (induction xs) (auto simp: raises_422_def split: sum.splits)

lemma fold_err_422: "raises_422 (fold_err f xs s) \<Longrightarrow> \<exists>x \<in> set xs. \<exists>s'. raises_422 (f x s')"
proof (induction xs arbitrary: s)
  case Nil
  then show ?case by simp
next
  case (Cons a xs)
  show ?case
  proof (cases "f a s")
    case (Inl e)
    then have "raises_422 (f a s)" using Cons.prems by simp
    then show ?thesis by auto
  next
    case (Inr s')
    then have "raises_422 (fold_err f xs s')" using Cons.prems by simp
    from Cons.IH[OF this] show ?thesis by auto
  qed
qed

lemma getitem_no_422 [simp]: "\<not> raises_422 (getitem v k)"
  by (cases v) (auto split: option.splits)

lemma py_int_no_422 [simp]: "\<not> raises_422 (py_int v)"
  by (cases v) (auto split: option.splits)

lemma lookup_no_422 [simp]: "\<not> raises_422 (lookup d k)"
  by (simp add: lookup_def split: option.splits)

text \<open>The only 422 of the loop over the attributes of the document: a null for an
  attribute that is not nullable.\<close>

lemma write_attribute_422:
  assumes "raises_422 (write_attribute cls ad n m)"
    and "list_all (\<lambda>kv. \<forall>m v. \<not> raises_422 (call_fset (snd kv) m v)) (attrs_by_japi_name cls)"
  shows "\<exists>field. map_of (attrs_by_japi_name cls) n = Some field \<and> map_of ad n = Some JNull
           \<and> \<not> nullable field"
proof -
  from raises_422_sbind[OF assms(1)[unfolded write_attribute_def]]
  obtain v where v: "lookup ad n = Inr v"
    and r: "raises_422 (sbind (lookup (attrs_by_japi_name cls) n) (\<lambda>field.
       if v = JNull \<and> \<not> nullable field then
         raise_api UnprocessableEntity ''Non-nullable attribute set to None''
       else if CREATE \<notin> writable_during field then
         raise_api Forbidden ''Cannot write to field''
       else Attribute_deserialize_into_obj field m v))"
    by auto
  from raises_422_sbind[OF r]
  obtain field where f: "lookup (attrs_by_japi_name cls) n = Inr field"
    and r2: "raises_422 (if v = JNull \<and> \<not> nullable field then
         raise_api UnprocessableEntity ''Non-nullable attribute set to None''
       else if CREATE \<notin> writable_during field then
         raise_api Forbidden ''Cannot write to field''
       else Attribute_deserialize_into_obj field m v)"
    by auto
  have mv: "map_of ad n = Some v" using v by (simp add: lookup_def split: option.splits)
  have mf: "map_of (attrs_by_japi_name cls) n = Some field"
    using f by (simp add: lookup_def split: option.splits)
  then have "(n, field) \<in> set (attrs_by_japi_name cls)" by (rule map_of_SomeD)
  then have "\<not> raises_422 (call_fset field m v)"
    using assms(2) unfolding list_all_iff by force
  then have "v = JNull \<and> \<not> nullable field"
    using r2 by (auto simp: Attribute_deserialize_into_obj_def Attribute_deserialize_def
        split: if_splits)
  then show ?thesis using mv mf by simp
qed

text \<open>The only 422 of the loop over the relationships of the document: a None for a
  relationship that is not nullable.\<close>

lemma ToOneRelationship_deserialize_no_422: "\<not> raises_422 (ToOneRelationship_deserialize field v)"
  unfolding ToOneRelationship_deserialize_def
  by (auto dest!: raises_422_sbind split: if_splits)

lemma check_linkage_422:
  "raises_422 (check_linkage field v) \<Longrightarrow> v = JNull \<and> \<not> nullable field"
  unfolding check_linkage_def
  by (auto dest!: raises_422_sbind split: if_splits)

lemma write_relationship_422:
  assumes "raises_422 (write_relationship cls rd n m)"
    and "list_all (\<lambda>kv. \<forall>m v. \<not> raises_422 (call_fset (snd kv) m v)) (rels_by_japi_name cls)"
  shows "\<exists>field. map_of (rels_by_japi_name cls) n = Some field \<and> map_of rd n = Some JNull
           \<and> \<not> nullable field"
proof -
  from raises_422_sbind[OF assms(1)[unfolded write_relationship_def]]
  obtain v where v: "lookup rd n = Inr v"
    and r: "raises_422 (sbind (lookup (rels_by_japi_name cls) n) (\<lambda>field.
       if \<not> is_to_one field then Inl AssertionError
       else if CREATE \<notin> writable_during field then
         raise_api Forbidden ''Cannot write to field''
       else sbind (check_linkage field v) (\<lambda>u.
         ToOneRelationship_deserialize_into_obj field m v)))"
    by auto
  from raises_422_sbind[OF r]
  obtain field where f: "lookup (rels_by_japi_name cls) n = Inr field"
    and r2: "raises_422 (if \<not> is_to_one field then Inl AssertionError
       else if CREATE \<notin> writable_during field then
         raise_api Forbidden ''Cannot write to field''
       else sbind (check_linkage field v) (\<lambda>u.
         ToOneRelationship_deserialize_into_obj field m v))"
    by auto
  have mv: "map_of rd n = Some v" using v by (simp add: lookup_def split: option.splits)
  have mf: "map_of (rels_by_japi_name cls) n = Some field"
    using f by (simp add: lookup_def split: option.splits)
  then have "(n, field) \<in> set (rels_by_japi_name cls)" by (rule map_of_SomeD)
  then have s: "\<not> raises_422 (call_fset field m' v')" for m' v'
    using assms(2) unfolding list_all_iff by force
  have d: "\<not> raises_422 (ToOneRelationship_deserialize_into_obj field m v)"
    unfolding ToOneRelationship_deserialize_into_obj_def
    using s ToOneRelationship_deserialize_no_422 by (auto dest!: raises_422_sbind)
  from r2 have "raises_422 (sbind (check_linkage field v) (\<lambda>u.
         ToOneRelationship_deserialize_into_obj field m v))"
    by (auto split: if_splits)
  then have "raises_422 (check_linkage field v)" using d by (auto dest!: raises_422_sbind)
  then show ?thesis using check_linkage_422 mv mf by blast
qed

lemma check_relationships_422:
  assumes "raises_422 (check_relationships slot cls rd)"
  shows "(\<exists>k \<in> set (map fst rd). k \<notin> set (map fst (rels_by_japi_name cls)))
       \<or> (\<exists>n field. map_of (rels_by_japi_name cls) n = Some field \<and> n \<notin> set (map fst rd)
              \<and> \<not> nullable field \<and> \<not> has_default field)"
proof (cases "extra_keys rd (rels_by_japi_name cls) = []")
  case False
  then obtain k where "k \<in> set (extra_keys rd (rels_by_japi_name cls))"
    by (cases "extra_keys rd (rels_by_japi_name cls)") auto
  then show ?thesis by (auto simp: extra_keys_def)
next
  case True
  then have "raises_422 (for_each (missing_relationship cls)
       (iterate slot (missing_keys rd (rels_by_japi_name cls))))"
    using assms by (simp add: check_relationships_def)
  from for_each_422[OF this] obtain n where
    n: "n \<in> set (missing_keys rd (rels_by_japi_name cls))"
       "raises_422 (missing_relationship cls n)"
    by auto
  from n(1) have a: "n \<notin> set (map fst rd)" by (simp add: missing_keys_def)
  from n(2) obtain field where "lookup (rels_by_japi_name cls) n = Inr field"
    "\<not> (nullable field \<or> has_default field)"
    unfolding missing_relationship_def by (auto dest!: raises_422_sbind split: if_splits)
  then show ?thesis using a by (auto simp: lookup_def split: option.splits)
qed

text \<open>
  C5, amended: let the resource class be instantiable, the document's \<open>type\<close> be the
  class's resource type, and \<open>ad\<close> be the document's attributes object (the empty object
  when the member is absent or false). If \<open>ad\<close> has a key the class does not declare, or a
  declared attribute that is neither nullable nor has a default is absent from \<open>ad\<close>, then
  \<open>deserialize\<close> raises the UnprocessableEntity (422) of the attribute checks. If neither
  holds and no setter of the class raises a 422 itself, then \<open>deserialize\<close> raises a 422 in
  four cases only: an attribute that is not nullable is given null; or, with \<open>rd\<close> the
  document's relationships object, \<open>rd\<close> has a key the class does not declare, a declared
  relationship that is neither nullable nor has a default is absent from \<open>rd\<close>, or a
  relationship that is not nullable is given None. All of it holds in whatever order the
  key sets are iterated.
\<close>

theorem deserialize_attribute_checks:
  assumes "instantiable cls"
    and "getitem input_dict ''type'' = Inr (JStr (japi_resource_type cls))"
    and "get_or_empty input_dict ''attributes'' = Inr ad"
  shows
    "((\<exists>k \<in> set (map fst ad). k \<notin> set (map fst (attrs_by_japi_name cls)))
      \<or> (\<exists>n field. map_of (attrs_by_japi_name cls) n = Some field \<and> n \<notin> set (map fst ad)
             \<and> \<not> nullable field \<and> \<not> has_default field)
      \<longrightarrow> (\<exists>e. deserialize slot cls input_dict m0 = Inl (ApiError e)
             \<and> check_attributes slot cls ad = Inl (ApiError e)
             \<and> cls_name e = ''UnprocessableEntity'' \<and> http_status e = 422))
     \<and> ((\<forall>k \<in> set (map fst ad). k \<in> set (map fst (attrs_by_japi_name cls)))
        \<and> (\<forall>n field. map_of (attrs_by_japi_name cls) n = Some field \<and> n \<notin> set (map fst ad)
               \<longrightarrow> nullable field \<or> has_default field)
        \<and> list_all (\<lambda>kv. \<forall>m v. \<not> raises_422 (call_fset (snd kv) m v)) (attrs_by_japi_name cls)
        \<and> list_all (\<lambda>kv. \<forall>m v. \<not> raises_422 (call_fset (snd kv) m v)) (rels_by_japi_name cls)
        \<and> raises_422 (deserialize slot cls input_dict m0)
      \<longrightarrow> (\<exists>n field. map_of (attrs_by_japi_name cls) n = Some field
                \<and> map_of ad n = Some JNull \<and> \<not> nullable field)
          \<or> (\<exists>rd. get_or_empty input_dict ''relationships'' = Inr rd
                \<and> ((\<exists>k \<in> set (map fst rd). k \<notin> set (map fst (rels_by_japi_name cls)))
                   \<or> (\<exists>n field. map_of (rels_by_japi_name cls) n = Some field
                         \<and> n \<notin> set (map fst rd) \<and> \<not> nullable field \<and> \<not> has_default field)
                   \<or> (\<exists>n field. map_of (rels_by_japi_name cls) n = Some field
                         \<and> map_of rd n = Some JNull \<and> \<not> nullable field))))"
proof -
  have d: "deserialize slot cls input_dict m0 =
      sbind (check_attributes slot cls ad) (\<lambda>u.
        sbind (write_attributes slot cls ad m0) (\<lambda>m1.
        sbind (get_or_empty input_dict ''relationships'') (\<lambda>relationships_dict.
        sbind (check_relationships slot cls relationships_dict) (\<lambda>u.
        sbind (write_relationships slot cls relationships_dict m1) (\<lambda>m2.
          Inr \<lparr> resource_class = cls, model = m2 \<rparr>)))))"
    using assms by (simp add: deserialize_def Resource_init_def sbind_def split: sum.splits)
  have fail: "check_attributes slot cls ad = raise_api UnprocessableEntity dt \<Longrightarrow>
      \<exists>e. deserialize slot cls input_dict m0 = Inl (ApiError e)
             \<and> check_attributes slot cls ad = Inl (ApiError e)
             \<and> cls_name e = ''UnprocessableEntity'' \<and> http_status e = 422" for dt
    using status_of_errors by (simp add: d sbind_def raise_api_def)
  have extra: "\<exists>k \<in> set (map fst ad). k \<notin> set (map fst (attrs_by_japi_name cls)) \<Longrightarrow>
      \<exists>dt. check_attributes slot cls ad = raise_api UnprocessableEntity dt"
    using check_attributes_extra by blast
  have missing: "\<exists>n field. map_of (attrs_by_japi_name cls) n = Some field \<and> n \<notin> set (map fst ad)
             \<and> \<not> nullable field \<and> \<not> has_default field \<Longrightarrow>
      \<exists>dt. check_attributes slot cls ad = raise_api UnprocessableEntity dt"
  proof (cases "extra_keys ad (attrs_by_japi_name cls) = []")
    case True
    assume "\<exists>n field. map_of (attrs_by_japi_name cls) n = Some field \<and> n \<notin> set (map fst ad)
             \<and> \<not> nullable field \<and> \<not> has_default field"
    then show ?thesis using check_attributes_missing[OF True] by blast
  next
    case False
    then show ?thesis by (auto simp: check_attributes_def)
  qed
  have pass: "(\<forall>k \<in> set (map fst ad). k \<in> set (map fst (attrs_by_japi_name cls)))
        \<and> (\<forall>n field. map_of (attrs_by_japi_name cls) n = Some field \<and> n \<notin> set (map fst ad)
               \<longrightarrow> nullable field \<or> has_default field) \<Longrightarrow> check_attributes slot cls ad = Inr ()"
    using check_attributes_pass[of ad cls] by blast
  show ?thesis
  proof (intro conjI impI)
    assume "(\<exists>k \<in> set (map fst ad). k \<notin> set (map fst (attrs_by_japi_name cls)))
      \<or> (\<exists>n field. map_of (attrs_by_japi_name cls) n = Some field \<and> n \<notin> set (map fst ad)
             \<and> \<not> nullable field \<and> \<not> has_default field)"
    then obtain dt where "check_attributes slot cls ad = raise_api UnprocessableEntity dt"
      using extra missing by blast
    then show "\<exists>e. deserialize slot cls input_dict m0 = Inl (ApiError e)
             \<and> check_attributes slot cls ad = Inl (ApiError e)
             \<and> cls_name e = ''UnprocessableEntity'' \<and> http_status e = 422"
      by (rule fail)
  next
    assume a: "(\<forall>k \<in> set (map fst ad). k \<in> set (map fst (attrs_by_japi_name cls)))
        \<and> (\<forall>n field. map_of (attrs_by_japi_name cls) n = Some field \<and> n \<notin> set (map fst ad)
               \<longrightarrow> nullable field \<or> has_default field)
        \<and> list_all (\<lambda>kv. \<forall>m v. \<not> raises_422 (call_fset (snd kv) m v)) (attrs_by_japi_name cls)
        \<and> list_all (\<lambda>kv. \<forall>m v. \<not> raises_422 (call_fset (snd kv) m v)) (rels_by_japi_name cls)
        \<and> raises_422 (deserialize slot cls input_dict m0)"
    then have ck: "check_attributes slot cls ad = Inr ()" using pass by blast
    from a have sa: "list_all (\<lambda>kv. \<forall>m v. \<not> raises_422 (call_fset (snd kv) m v)) (attrs_by_japi_name cls)"
      and sr: "list_all (\<lambda>kv. \<forall>m v. \<not> raises_422 (call_fset (snd kv) m v)) (rels_by_japi_name cls)"
      and r: "raises_422 (deserialize slot cls input_dict m0)" by blast+
    let ?A = "\<exists>n field. map_of (attrs_by_japi_name cls) n = Some field
                \<and> map_of ad n = Some JNull \<and> \<not> nullable field"
    let ?R = "\<exists>rd. get_or_empty input_dict ''relationships'' = Inr rd
                \<and> ((\<exists>k \<in> set (map fst rd). k \<notin> set (map fst (rels_by_japi_name cls)))
                   \<or> (\<exists>n field. map_of (rels_by_japi_name cls) n = Some field
                         \<and> n \<notin> set (map fst rd) \<and> \<not> nullable field \<and> \<not> has_default field)
                   \<or> (\<exists>n field. map_of (rels_by_japi_name cls) n = Some field
                         \<and> map_of rd n = Some JNull \<and> \<not> nullable field))"
    show "?A \<or> ?R"
    proof (cases "write_attributes slot cls ad m0")
      case (Inl e)
      then have "raises_422 (write_attributes slot cls ad m0)"
        using r ck by (simp add: d sbind_def raises_422_def)
      then obtain n m where "raises_422 (write_attribute cls ad n m)"
        unfolding write_attributes_def using fold_err_422 by fastforce
      from write_attribute_422[OF this sa] show ?thesis by blast
    next
      case (Inr m1)
      note m1 = this
      show ?thesis
      proof (cases "get_or_empty input_dict ''relationships''")
        case (Inl e)
        then show ?thesis using r ck m1
          by (auto simp: d sbind_def get_or_empty_def raises_422_def
              split: option.splits if_splits json.splits)
      next
        case (Inr rd)
        note rd = this
        show ?thesis
        proof (cases "check_relationships slot cls rd")
          case (Inl e)
          then have "raises_422 (check_relationships slot cls rd)"
            using r ck m1 rd by (simp add: d sbind_def raises_422_def)
          from check_relationships_422[OF this] show ?thesis using rd by blast
        next
          case (Inr u)
          note u = this
          show ?thesis
          proof (cases "write_relationships slot cls rd m1")
            case (Inl e)
            then have "raises_422 (write_relationships slot cls rd m1)"
              using r ck m1 rd u by (simp add: d sbind_def raises_422_def)
            then obtain n m where "raises_422 (write_relationship cls rd n m)"
              unfolding write_relationships_def using fold_err_422 by fastforce
            from write_relationship_422[OF this sr] show ?thesis using rd by blast
          next
            case (Inr m2)
            then show ?thesis using r ck m1 rd u by (simp add: d sbind_def)
          qed
        qed
      qed
    qed
  qed
qed

text \<open>
  C5, as the claim states it, fails twice. A document of another type, whose attributes
  hold the undeclared key \<open>colour\<close> (and lack the required \<open>title\<close>), is refused with the
  BadRequest (400) of the type check, which comes first, not with a 422. And a document of
  the article's type that gives the \<open>title\<close>, as null, has no undeclared key and lacks no
  required attribute, yet it is refused with a 422: the title is not nullable.
\<close>

theorem deserialize_wrong_type_bad_request:
  "deserialize request_order article_class article_doc_wrong_type new_article =
     Inl (ApiError (BadRequest (no_kwargs\<lparr> kw_detail :=
        ''Type field does not match handler'' @ [CHR 0x27] @ ''s resource'' \<rparr>)))
   \<and> http_status (BadRequest (no_kwargs\<lparr> kw_detail :=
        ''Type field does not match handler'' @ [CHR 0x27] @ ''s resource'' \<rparr>)) = 400
   \<and> ''colour'' \<notin> set (map fst (attrs_by_japi_name article_class))
   \<and> deserialize request_order article_class article_doc_null_title new_article =
     Inl (ApiError (UnprocessableEntity (no_kwargs\<lparr> kw_detail :=
        ''Non-nullable attribute set to None'' \<rparr>)))
   \<and> http_status (UnprocessableEntity (no_kwargs\<lparr> kw_detail :=
        ''Non-nullable attribute set to None'' \<rparr>)) = 422
   \<and> get_or_empty article_doc_null_title ''attributes'' = Inr [(''title'', JNull)]
   \<and> map fst (attrs_by_japi_name article_class) = [''title'']"
proof -
  have a: "deserialize request_order article_class article_doc_wrong_type new_article =
     Inl (ApiError (BadRequest (no_kwargs\<lparr> kw_detail :=
        ''Type field does not match handler'' @ [CHR 0x27] @ ''s resource'' \<rparr>)))"
    by (simp add: deserialize_def article_doc_wrong_type_def article_class_def Resource_init_def
      sbind_def raise_api_def)
  have b: "deserialize request_order article_class article_doc_null_title new_article =
     Inl (ApiError (UnprocessableEntity (no_kwargs\<lparr> kw_detail :=
        ''Non-nullable attribute set to None'' \<rparr>)))"
    by (simp add: deserialize_def check_attributes_def write_attributes_def write_attribute_def
        missing_attribute_def article_doc_null_title_def codec_defs example_defs)
  have c: "get_or_empty article_doc_null_title ''attributes'' = Inr [(''title'', JNull)]"
    by (simp add: article_doc_null_title_def get_or_empty_def)
  show ?thesis using a b c by (simp add: status_of_errors article_class_def)
qed

lemma default_fset_no_422: "\<not> raises_422 (default_fset c m v)"
  by (simp add: default_fset_def setattr_def)

theorem deserialize_attribute_checks_witness:
  "instantiable article_class
   \<and> getitem article_doc_extra ''type'' = Inr (JStr (japi_resource_type article_class))
   \<and> get_or_empty article_doc_extra ''attributes'' = Inr [(''colour'', JStr ''red'')]
   \<and> (\<exists>e. deserialize request_order article_class article_doc_extra new_article = Inl (ApiError e)
          \<and> cls_name e = ''UnprocessableEntity'' \<and> http_status e = 422)
   \<and> getitem article_doc_null_title ''type'' = Inr (JStr (japi_resource_type article_class))
   \<and> get_or_empty article_doc_null_title ''attributes'' = Inr [(''title'', JNull)]
   \<and> list_all (\<lambda>kv. \<forall>m v. \<not> raises_422 (call_fset (snd kv) m v))
        (attrs_by_japi_name article_class)
   \<and> list_all (\<lambda>kv. \<forall>m v. \<not> raises_422 (call_fset (snd kv) m v))
        (rels_by_japi_name article_class)
   \<and> raises_422 (deserialize request_order article_class article_doc_null_title new_article)
   \<and> map_of (attrs_by_japi_name article_class) ''title'' = Some title_attr
   \<and> \<not> nullable title_attr"
proof -
  have a: "instantiable article_class" by (simp add: article_class_def)
  have b: "getitem article_doc_extra ''type'' = Inr (JStr (japi_resource_type article_class))"
    by (simp add: article_doc_extra_def article_class_def)
  have c: "get_or_empty article_doc_extra ''attributes'' = Inr [(''colour'', JStr ''red'')]"
    by (simp add: article_doc_extra_def get_or_empty_def)
  have x: "\<exists>k \<in> set (map fst [(''colour'', JStr ''red'')]).
             k \<notin> set (map fst (attrs_by_japi_name article_class))"
    by (simp add: article_class_def)
  from deserialize_attribute_checks[OF a b c, of request_order new_article] x
  have first: "\<exists>e. deserialize request_order article_class article_doc_extra new_article
            = Inl (ApiError e)
          \<and> cls_name e = ''UnprocessableEntity'' \<and> http_status e = 422"
    by blast
  have b': "getitem article_doc_null_title ''type'' = Inr (JStr (japi_resource_type article_class))"
    by (simp add: article_doc_null_title_def article_class_def)
  have c': "get_or_empty article_doc_null_title ''attributes'' = Inr [(''title'', JNull)]"
    by (simp add: article_doc_null_title_def get_or_empty_def)
  have sa: "list_all (\<lambda>kv. \<forall>m v. \<not> raises_422 (call_fset (snd kv) m v))
        (attrs_by_japi_name article_class)"
    using default_fset_no_422 by (simp add: article_class_def title_attr_def call_fset_def)
  have sr: "list_all (\<lambda>kv. \<forall>m v. \<not> raises_422 (call_fset (snd kv) m v))
        (rels_by_japi_name article_class)"
    using default_fset_no_422 by (simp add: article_class_def author_rel_def call_fset_def)
  have r: "raises_422 (deserialize request_order article_class article_doc_null_title new_article)"
    by (simp add: deserialize_def check_attributes_def write_attributes_def write_attribute_def
        missing_attribute_def article_doc_null_title_def codec_defs example_defs raises_422_def
        UnprocessableEntity_def Error_init_def)
  have k: "\<forall>k \<in> set (map fst [(''title'', JNull)]).
             k \<in> set (map fst (attrs_by_japi_name article_class))"
    by (simp add: article_class_def)
  have mm: "\<forall>n field. map_of (attrs_by_japi_name article_class) n = Some field
              \<and> n \<notin> set (map fst [(''title'', JNull)]) \<longrightarrow> nullable field \<or> has_default field"
    by (simp add: article_class_def)
  have t: "map_of (attrs_by_japi_name article_class) ''title'' = Some title_attr"
    "\<not> nullable title_attr"
    by (simp_all add: article_class_def title_attr_def)
  from deserialize_attribute_checks[OF a b' c', of request_order new_article] k mm sa sr r
  have "(\<exists>n field. map_of (attrs_by_japi_name article_class) n = Some field
                \<and> map_of [(''title'', JNull)] n = Some JNull \<and> \<not> nullable field)
          \<or> (\<exists>rd. get_or_empty article_doc_null_title ''relationships'' = Inr rd
                \<and> ((\<exists>k \<in> set (map fst rd). k \<notin> set (map fst (rels_by_japi_name article_class)))
                   \<or> (\<exists>n field. map_of (rels_by_japi_name article_class) n = Some field
                         \<and> n \<notin> set (map fst rd) \<and> \<not> nullable field \<and> \<not> has_default field)
                   \<or> (\<exists>n field. map_of (rels_by_japi_name article_class) n = Some field
                         \<and> map_of rd n = Some JNull \<and> \<not> nullable field)))"
    by blast
  then show ?thesis using a b c first b' c' sa sr r t by simp
qed

section \<open>Sparse fieldsets\<close>

lemma fk_lookup:
  assumes "rels_are_class_attributes cls" and "val \<in> set (map fst (rels_by_japi_name cls))"
  shows "class_mapped_fk_name cls val = Inr (query_name cls val)"
  using assms by (auto simp: rels_are_class_attributes_def list_all_iff)

lemma query_name_other:
  "val \<notin> set (map fst (rels_by_japi_name cls)) \<Longrightarrow> query_name cls val = val"
  by (simp add: query_name_def map_of_eq_None_iff[THEN iffD2] split: option.splits)

lemma sparse_column_step:
  assumes "rels_are_class_attributes cls"
  shows "sparse_column cls column \<lparr> sparse_fields_to_return = Some a, sparse_fields_for_query = Some b \<rparr>
    = Inr \<lparr> sparse_fields_to_return = Some (a @ filter truthy_str [py_strip column]),
            sparse_fields_for_query = Some (b @ map (query_name cls) (filter truthy_str [py_strip column])) \<rparr>"
  using fk_lookup[OF assms] query_name_other
  by (simp add: sparse_column_def Let_def sbind_def or_empty_def)

lemma sparse_columns:
  assumes "rels_are_class_attributes cls"
  shows "fold_err (sparse_column cls) cols \<lparr> sparse_fields_to_return = Some a, sparse_fields_for_query = Some b \<rparr>
    = Inr \<lparr> sparse_fields_to_return = Some (a @ filter truthy_str (map py_strip cols)),
            sparse_fields_for_query = Some (b @ map (query_name cls) (filter truthy_str (map py_strip cols))) \<rparr>"
proof (induction cols arbitrary: a b)
  case Nil
  then show ?case by simp
next
  case (Cons c cols)
  show ?case by (simp add: sparse_column_step[OF assms] Cons.IH)
qed

lemma sparse_arg_started:
  assumes "rels_are_class_attributes cls"
  shows "sparse_arg cls arg \<lparr> sparse_fields_to_return = Some a, sparse_fields_for_query = Some b \<rparr>
    = Inr \<lparr> sparse_fields_to_return = Some (a @ (if is_fields_arg arg then entries_of (snd arg) else [])),
            sparse_fields_for_query =
              Some (b @ map (query_name cls) (if is_fields_arg arg then entries_of (snd arg) else [])) \<rparr>"
  by (simp add: sparse_arg_def sparse_columns[OF assms] is_fields_arg_def entries_of_def or_empty_def)

lemma sparse_arg_unset:
  assumes "rels_are_class_attributes cls"
  shows "sparse_arg cls arg \<lparr> sparse_fields_to_return = None, sparse_fields_for_query = None \<rparr>
    = Inr (if is_fields_arg arg
           then \<lparr> sparse_fields_to_return = Some (entries_of (snd arg)),
                  sparse_fields_for_query = Some (map (query_name cls) (entries_of (snd arg))) \<rparr>
           else \<lparr> sparse_fields_to_return = None, sparse_fields_for_query = None \<rparr>)"
  using sparse_columns[OF assms, of _ "[]" "[]"]
  by (simp add: sparse_arg_def is_fields_arg_def entries_of_def or_empty_def)

lemma sparse_args_started:
  assumes "rels_are_class_attributes cls"
  shows "fold_err (sparse_arg cls) args \<lparr> sparse_fields_to_return = Some a, sparse_fields_for_query = Some b \<rparr>
    = Inr \<lparr> sparse_fields_to_return = Some (a @ sparse_entries args),
            sparse_fields_for_query = Some (b @ map (query_name cls) (sparse_entries args)) \<rparr>"
proof (induction args arbitrary: a b)
  case Nil
  then show ?case by (simp add: sparse_entries_def)
next
  case (Cons arg args)
  show ?case
    by (simp add: sparse_arg_started[OF assms] Cons.IH sparse_entries_def)
qed

lemma sparse_args_unset:
  assumes "rels_are_class_attributes cls"
  shows "fold_err (sparse_arg cls) args \<lparr> sparse_fields_to_return = None, sparse_fields_for_query = None \<rparr>
    = Inr (if list_ex is_fields_arg args
           then \<lparr> sparse_fields_to_return = Some (sparse_entries args),
                  sparse_fields_for_query = Some (map (query_name cls) (sparse_entries args)) \<rparr>
           else \<lparr> sparse_fields_to_return = None, sparse_fields_for_query = None \<rparr>)"
proof (induction args)
  case Nil
  then show ?case by simp
next
  case (Cons arg args)
  show ?case
  proof (cases "is_fields_arg arg")
    case True
    then show ?thesis
      using sparse_args_started[OF assms, of args "entries_of (snd arg)" "map (query_name cls) (entries_of (snd arg))"]
      by (simp add: sparse_arg_unset[OF assms] sparse_entries_def)
  next
    case False
    then show ?thesis using Cons.IH
      by (simp add: sparse_arg_unset[OF assms] sparse_entries_def)
  qed
qed

text \<open>
  C7, as the claim states it, fails: the entry \<open>title\<close> with a space before it names no
  relationship, and is contributed to both outputs without the space, not unchanged.
\<close>

theorem get_sparse_fields_strips_entry:
  "get_sparse_fields [(''fields[article]'', '' title'')] article_class =
     Inr (Some [''title''], Some [''title''])"
  by (simp add: get_sparse_fields_def sparse_arg_def sparse_column_def fullmatch_bracketed_def
      split_str_on_comma_tokens py_strip_def py_isspace_def truthy_str_def or_empty_def sbind_def
      article_class_def in_class_def Let_def backslash_def)

text \<open>
  C7, amended: let every relationship of the class be the class attribute of the same name.
  A fields parameter is a parameter whose whole name matches \<open>fields\[([A-z0-9_]+)\]\<close>:
  \<open>fields[\<close>, then one or more characters that are digits, the underscore or code points
  from \<open>A\<close> to \<open>z\<close>, then \<open>]\<close>. Any other parameter is passed over, \<open>fields[blog-posts]\<close>
  among them. If the query has no fields parameter, both outputs are None, the unset
  sentinel, which is not the empty list that a fields parameter with an empty value gives.
  Otherwise the to-return output is the list of the entries of the values of all fields
  parameters in order, each entry stripped of surrounding whitespace and left out when it
  is then empty, and the for-query output is the same list with every entry that names a
  relationship replaced by that relationship's foreign-key name.
\<close>

theorem get_sparse_fields_entries:
  assumes "rels_are_class_attributes cls"
  shows "get_sparse_fields args cls =
           (if list_ex is_fields_arg args
            then Inr (Some (sparse_entries args), Some (map (query_name cls) (sparse_entries args)))
            else Inr (None, None))
         \<and> get_sparse_fields [] cls = Inr (None, None)
         \<and> get_sparse_fields [(''fields[article]'', [])] cls = Inr (Some [], Some [])
         \<and> get_sparse_fields [(''fields[blog-posts]'', ''title,author'')] cls = Inr (None, None)"
proof -
  have g: "get_sparse_fields a cls =
           (if list_ex is_fields_arg a
            then Inr (Some (sparse_entries a), Some (map (query_name cls) (sparse_entries a)))
            else Inr (None, None))" for a
    by (simp add: get_sparse_fields_def sparse_args_unset[OF assms] sbind_def)
  have e: "is_fields_arg (''fields[article]'', [])"
    by (simp add: is_fields_arg_def fullmatch_bracketed_def in_class_def)
  have s: "sparse_entries [(''fields[article]'', [])] = []"
    using e by (simp add: sparse_entries_def entries_of_def split_str_on_comma_tokens)
  have n: "\<not> is_fields_arg (''fields[blog-posts]'', ''title,author'')"
    by (simp add: is_fields_arg_def fullmatch_bracketed_def in_class_def)
  show ?thesis
    using g[of args] g[of "[]"] g[of "[(''fields[article]'', [])]"]
      g[of "[(''fields[blog-posts]'', ''title,author'')]"] e s n
    by simp
qed

lemma article_rels_are_class_attributes: "rels_are_class_attributes article_class"
  by (simp add: rels_are_class_attributes_def article_class_def class_mapped_fk_name_def
      query_name_def author_rel_def)

theorem get_sparse_fields_entries_witness:
  "rels_are_class_attributes article_class
   \<and> get_sparse_fields [(''fields[article]'', ''title,author'')] article_class =
       Inr (Some [''title'', ''author''], Some [''title'', ''author_id''])"
proof -
  have e: "is_fields_arg (''fields[article]'', ''title,author'')"
    by (simp add: is_fields_arg_def fullmatch_bracketed_def in_class_def)
  have s: "sparse_entries [(''fields[article]'', ''title,author'')] = [''title'', ''author'']"
    using e by (simp add: sparse_entries_def entries_of_def split_str_on_comma_tokens
        py_strip_def py_isspace_def truthy_str_def backslash_def)
  have q: "map (query_name article_class) [''title'', ''author''] = [''title'', ''author_id'']"
    by (simp add: query_name_def article_class_def author_rel_def)
  from get_sparse_fields_entries[OF article_rels_are_class_attributes,
      of "[(''fields[article]'', ''title,author'')]"]
  show ?thesis using e s q article_rels_are_class_attributes by simp
qed

section \<open>Registration: inherited fields are copies\<close>

lemma sbind_Inr_iff: "sbind m f = Inr y \<longleftrightarrow> (\<exists>x. m = Inr x \<and> f x = Inr y)"
  by (cases m) (simp_all add: sbind_def)

lemma read_field_Inr: "read_field h a = Inr f \<longleftrightarrow> a < length h \<and> h ! a = Field f"
  by (auto simp: read_field_def dangling_def split: obj.splits)

lemma read_dict_Inr: "read_dict h d = Inr kvs \<longleftrightarrow> d < length h \<and> h ! d = Dict kvs"
  by (auto simp: read_dict_def dangling_def split: obj.splits)

lemma set_dict_set: "set (dict_set k v d) \<subseteq> insert (k, v) (set d)"
  by (induction d) (auto split: if_splits)

lemma set_dict_update: "set (dict_update d src) \<subseteq> set d \<union> set src"
proof -
  have "set (fold (\<lambda>kv acc. dict_set (fst kv) (snd kv) acc) src d) \<subseteq> set d \<union> set src" for d
  proof (induction src arbitrary: d)
    case Nil
    then show ?case by simp
  next
    case (Cons kv src)
    have "set (dict_set (fst kv) (snd kv) d) \<subseteq> insert kv (set d)"
      using set_dict_set[of "fst kv" "snd kv" d] by simp
    then show ?case using Cons.IH[of "dict_set (fst kv) (snd kv) d"] by auto
  qed
  then show ?thesis by (simp add: dict_update_def)
qed

lemma inherit_from_entries:
  assumes "inherit_from h sel b acc = Inr acc'" and "x \<in> set acc'"
  shows "x \<in> set acc \<or> (is_resource b \<and> x \<in> set (dict_items h (sel b)))"
proof (cases "is_resource b")
  case True
  with assms(1) obtain src where "read_dict h (sel b) = Inr src" "acc' = dict_update acc src"
    by (auto simp: inherit_from_def sbind_Inr_iff)
  then show ?thesis using True assms(2) set_dict_update[of acc src]
    by (auto simp: dict_items_def)
next
  case False
  then show ?thesis using assms by (simp add: inherit_from_def)
qed

lemma fold_err_inherit:
  "fold_err (inherit_from h sel) bs acc = Inr m \<Longrightarrow> x \<in> set m \<Longrightarrow>
   x \<in> set acc \<or> (\<exists>base \<in> set bs. is_resource base \<and> x \<in> set (dict_items h (sel base)))"
proof (induction bs arbitrary: acc)
  case Nil
  then show ?case by simp
next
  case (Cons b bs)
  from Cons.prems(1) obtain acc' where s: "inherit_from h sel b acc = Inr acc'"
    and r: "fold_err (inherit_from h sel) bs acc' = Inr m"
    by (auto split: sum.splits)
  from Cons.IH[OF r Cons.prems(2)] inherit_from_entries[OF s, of x]
  show ?case by (cases "x \<in> set acc'") auto
qed

lemma inherited_entries:
  assumes "inherited h sel bases = Inr m" and "(n, a) \<in> set m"
  shows "\<exists>base \<in> set bases. is_resource base \<and> (n, a) \<in> set (dict_items h (sel base))"
  using fold_err_inherit[OF assms(1)[unfolded inherited_def] assms(2)] by auto

lemma deepcopy_items_spec:
  assumes "deepcopy_items h memo d = Inr (h', d')"
    and "lo \<le> length h"
    and "\<forall>b < lo. h ! b = h0 ! b"
    and "\<forall>(a, a') \<in> set memo. lo \<le> a' \<and> a' < length h \<and> h ! a' = h0 ! a"
    and "\<forall>(k, a) \<in> set d. a < lo"
  shows "length h \<le> length h' \<and> (\<forall>b < length h. h' ! b = h ! b) \<and> list_all2 (copy_of h0 h' lo) d d'"
  using assms
proof (induction h memo d arbitrary: h' d' rule: deepcopy_items.induct)
  case (1 h memo)
  then show ?case by simp
next
  case (2 h memo k a d)
  show ?case
  proof (cases "map_of memo a")
    case (Some a')
    with "2.prems"(1) obtain r where r: "deepcopy_items h memo d = Inr r"
      and h': "h' = fst r" and d': "d' = (k, a') # snd r"
      by (auto simp: sbind_Inr_iff)
    have r': "deepcopy_items h memo d = Inr (fst r, snd r)" using r by simp
    have tl: "\<forall>(k, a) \<in> set d. a < lo" using "2.prems"(5) by auto
    from "2.IH"(2)[OF Some r' "2.prems"(2) "2.prems"(3) "2.prems"(4) tl]
    have ih: "length h \<le> length (fst r)" "\<forall>b < length h. fst r ! b = h ! b"
      "list_all2 (copy_of h0 (fst r) lo) d (snd r)" by auto
    have m: "(a, a') \<in> set memo" using Some by (rule map_of_SomeD)
    then have "lo \<le> a' \<and> a' < length h \<and> h ! a' = h0 ! a" using "2.prems"(4) by auto
    then have "copy_of h0 (fst r) lo (k, a) (k, a')"
      using ih by (auto simp: copy_of_def)
    then show ?thesis using ih h' d' by simp
  next
    case None
    with "2.prems"(1) obtain f r where f: "read_field h a = Inr f"
      and r: "deepcopy_items (h @ [Field f]) ((a, length h) # memo) d = Inr r"
      and h': "h' = fst r" and d': "d' = (k, length h) # snd r"
      by (auto simp: sbind_Inr_iff)
    have r': "deepcopy_items (h @ [Field f]) ((a, length h) # memo) d = Inr (fst r, snd r)"
      using r by simp
    have a: "a < length h" "h ! a = Field f" using f by (simp_all add: read_field_Inr)
    have alo: "a < lo" using "2.prems"(5) by auto
    then have ha: "h0 ! a = Field f" using a "2.prems"(3) by auto
    have p2: "lo \<le> length (h @ [Field f])" using "2.prems"(2) by simp
    have p3: "\<forall>b < lo. (h @ [Field f]) ! b = h0 ! b"
      using "2.prems"(2) "2.prems"(3) by (auto simp: nth_append)
    have p4: "\<forall>(x, x') \<in> set ((a, length h) # memo).
        lo \<le> x' \<and> x' < length (h @ [Field f]) \<and> (h @ [Field f]) ! x' = h0 ! x"
      using "2.prems"(2) "2.prems"(4) ha by (auto simp: nth_append)
    have tl: "\<forall>(k, a) \<in> set d. a < lo" using "2.prems"(5) by auto
    from "2.IH"(1)[OF None r' p2 p3 p4 tl]
    have ih: "length (h @ [Field f]) \<le> length (fst r)"
      "\<forall>b < length (h @ [Field f]). fst r ! b = (h @ [Field f]) ! b"
      "list_all2 (copy_of h0 (fst r) lo) d (snd r)" by auto
    have "fst r ! length h = Field f" using ih(2) by auto
    then have "copy_of h0 (fst r) lo (k, a) (k, length h)"
      using ih(1) ha "2.prems"(2) by (auto simp: copy_of_def)
    moreover have "\<forall>b < length h. fst r ! b = h ! b" using ih(2) by (auto simp: nth_append)
    ultimately show ?thesis using ih h' d' by simp
  qed
qed

lemma deepcopy_dict_spec:
  assumes "deepcopy_dict h d = Inr (h', dd)"
    and "\<forall>(k, a) \<in> set d. a < lo" and "lo \<le> length h" and "\<forall>b < lo. h ! b = h0 ! b"
  shows "\<exists>d'. length h \<le> dd \<and> Suc dd = length h' \<and> h' ! dd = Dict d'
         \<and> (\<forall>b < length h. h' ! b = h ! b)
         \<and> list_all2 (copy_of h0 h' lo) d d' \<and> (\<forall>(k, a') \<in> set d'. a' < dd)"
proof -
  from assms(1) obtain r where r: "deepcopy_items h [] d = Inr (fst r, snd r)"
    and h': "h' = fst r @ [Dict (snd r)]" and dd: "dd = length (fst r)"
    by (auto simp: deepcopy_dict_def sbind_Inr_iff)
  from deepcopy_items_spec[OF r assms(3) assms(4) _ assms(2)]
  have s: "length h \<le> length (fst r)" "\<forall>b < length h. fst r ! b = h ! b"
    "list_all2 (copy_of h0 (fst r) lo) d (snd r)" by auto
  have "list_all2 (copy_of h0 h' lo) d (snd r)"
    using s(3) by (rule list_all2_mono) (auto simp: copy_of_def h' nth_append)
  moreover have "\<forall>(k, a') \<in> set (snd r). a' < dd"
    using s(3) by (auto simp: list_all2_conv_all_nth copy_of_def dd in_set_conv_nth)
       (metis snd_conv)
  ultimately show ?thesis using s(1) s(2) h' dd by (auto simp: nth_append)
qed


lemma heap_dict_set_spec:
  assumes "heap_dict_set d k a h = Inr h1"
  shows "\<exists>kvs. d < length h \<and> h ! d = Dict kvs \<and> h1 = h[d := Dict (dict_set k a kvs)]"
  using assms by (auto simp: heap_dict_set_def sbind_Inr_iff read_dict_Inr)

lemma step_ok_refl: "step_ok ad rd decl h h"
  by (auto simp: step_ok_def)

lemma step_ok_trans:
  "step_ok ad rd decl h h1 \<Longrightarrow> step_ok ad rd decl h1 h2 \<Longrightarrow> step_ok ad rd decl h h2"
  unfolding step_ok_def by (auto; metis (no_types, lifting) case_prodD)

lemma step_ok_mono: "step_ok ad rd decl h h' \<Longrightarrow> decl \<subseteq> decl' \<Longrightarrow> step_ok ad rd decl' h h'"
  unfolding step_ok_def by (auto; blast)


lemma step_ok_field_update:
  assumes "a < length h" and "h ! a = Field v"
  shows "step_ok ad rd {a} h (h[a := Field w])"
  using assms by (auto simp: step_ok_def nth_list_update)

lemma step_ok_dict_set:
  assumes "d < length h" and "h ! d = Dict kvs" and "d = ad \<or> d = rd"
  shows "step_ok ad rd {a} h (h[d := Dict (dict_set k a kvs)])"
  using assms set_dict_set[of k a kvs]
  by (auto simp: step_ok_def nth_list_update)

lemma declare_field_spec:
  assumes "declare_field cref ad rd entry h = Inr h'"
  shows "step_ok ad rd {a. FieldRef a = snd entry} h h'"
proof (cases "snd entry")
  case (FieldRef a)
  then have decl: "{a. FieldRef a = snd entry} = {a}" by auto
  from assms FieldRef obtain val where val: "read_field h a = Inr val"
    and rest: "(case val of
              MAttribute f \<Rightarrow>
                sbind (heap_dict_set ad (name_or (attr_japi_name f) (fst entry)) a h) (\<lambda>h1.
                sbind (bind_attribute (fst entry) f) (\<lambda>f'. Inr (h1[a := Field (MAttribute f')])))
            | MId f \<Rightarrow>
                sbind (bind_id (fst entry) f) (\<lambda>f'. Inr (h[a := Field (MId f')]))
            | MRelationship f \<Rightarrow>
                sbind (heap_dict_set rd (name_or (rel_japi_name f) (fst entry)) a h) (\<lambda>h1.
                  Inr (h1[a := Field (MRelationship (bind_relationship cref (fst entry) f))]))
            | MOther \<Rightarrow> Inr h) = Inr h'"
    by (auto simp: declare_field_def sbind_Inr_iff)
  have a: "a < length h" "h ! a = Field val" using val by (simp_all add: read_field_Inr)
  show ?thesis
  proof (cases val)
    case (MAttribute f)
    with rest obtain h1 f' where h1: "heap_dict_set ad (name_or (attr_japi_name f) (fst entry)) a h = Inr h1"
      and h': "h' = h1[a := Field (MAttribute f')]"
      by (auto simp: sbind_Inr_iff)
    from heap_dict_set_spec[OF h1] obtain kvs where k: "ad < length h" "h ! ad = Dict kvs"
      "h1 = h[ad := Dict (dict_set (name_or (attr_japi_name f) (fst entry)) a kvs)]" by blast
    have ne: "a \<noteq> ad" using a k by auto
    have s1: "step_ok ad rd {a} h h1" using step_ok_dict_set[OF k(1) k(2)] k(3) by simp
    have "step_ok ad rd {a} h1 h'"
      unfolding h' using a ne k(3) by (intro step_ok_field_update[where v = val]) auto
    then show ?thesis using s1 decl step_ok_trans by metis
  next
    case (MRelationship f)
    with rest obtain h1 where h1: "heap_dict_set rd (name_or (rel_japi_name f) (fst entry)) a h = Inr h1"
      and h': "h' = h1[a := Field (MRelationship (bind_relationship cref (fst entry) f))]"
      by (auto simp: sbind_Inr_iff)
    from heap_dict_set_spec[OF h1] obtain kvs where k: "rd < length h" "h ! rd = Dict kvs"
      "h1 = h[rd := Dict (dict_set (name_or (rel_japi_name f) (fst entry)) a kvs)]" by blast
    have ne: "a \<noteq> rd" using a k by auto
    have s1: "step_ok ad rd {a} h h1" using step_ok_dict_set[OF k(1) k(2)] k(3) by simp
    have "step_ok ad rd {a} h1 h'"
      unfolding h' using a ne k(3) by (intro step_ok_field_update[where v = val]) auto
    then show ?thesis using s1 decl step_ok_trans by metis
  next
    case (MId f)
    with rest obtain f' where "h' = h[a := Field (MId f')]" by (auto simp: sbind_Inr_iff)
    then show ?thesis using step_ok_field_update[OF a] decl by simp
  next
    case MOther
    then show ?thesis using rest step_ok_refl by simp
  qed
next
  case (StrAttr x)
  then show ?thesis using assms step_ok_refl by (simp add: declare_field_def)
next
  case TypeAttr
  then show ?thesis using assms step_ok_refl by (simp add: declare_field_def)
next
  case OtherAttr
  then show ?thesis using assms step_ok_refl by (simp add: declare_field_def)
qed

lemma declare_fields_spec:
  "fold_err (declare_field cref ad rd) attrs h = Inr h' \<Longrightarrow> step_ok ad rd (declared attrs) h h'"
proof (induction attrs arbitrary: h)
  case Nil
  then show ?case using step_ok_refl by simp
next
  case (Cons e attrs)
  from Cons.prems obtain h1 where s: "declare_field cref ad rd e h = Inr h1"
    and r: "fold_err (declare_field cref ad rd) attrs h1 = Inr h'"
    by (auto split: sum.splits)
  have "step_ok ad rd (declared (e # attrs)) h h1"
    using declare_field_spec[OF s] by (rule step_ok_mono) (auto simp: declared_def)
  moreover have "step_ok ad rd (declared (e # attrs)) h1 h'"
    using Cons.IH[OF r] by (rule step_ok_mono) (auto simp: declared_def)
  ultimately show ?case by (rule step_ok_trans)
qed


lemma inherited_allocated:
  assumes "inherited h sel bases = Inr m" and "fields_allocated h bases"
    and "sel = cls_attrs_by_japi_name \<or> sel = cls_rels_by_japi_name"
  shows "\<forall>(k, a) \<in> set m. a < length h"
proof clarify
  fix k a assume "(k, a) \<in> set m"
  from inherited_entries[OF assms(1) this] obtain base where
    "base \<in> set bases" "is_resource base" "(k, a) \<in> set (dict_items h (sel base))" by blast
  then show "a < length h" using assms(2) assms(3) by (auto simp: fields_allocated_def)
qed

lemma list_all2_copy_of:
  assumes "list_all2 (copy_of h0 h1 lo) d d'" and "(n, a') \<in> set d'"
  shows "\<exists>a. (n, a) \<in> set d \<and> lo \<le> a' \<and> a' < length h1 \<and> h1 ! a' = h0 ! a"
proof -
  from assms(2) obtain i where i: "i < length d'" "d' ! i = (n, a')"
    by (auto simp: in_set_conv_nth)
  then have "copy_of h0 h1 lo (d ! i) (d' ! i)" "i < length d"
    using assms(1) by (auto simp: list_all2_conv_all_nth)
  then show ?thesis using i by (cases "d ! i") (auto simp: copy_of_def in_set_conv_nth)
qed

text \<open>What a registration does, step by step.\<close>

lemma ResourceMeta_init_steps:
  assumes "ResourceMeta_init h name bases attrs = Inr (h', c)"
    and "fields_allocated h bases"
  obtains ma mr and h1 :: heap and h2 d1 d2 where
      "inherited h cls_attrs_by_japi_name bases = Inr ma"
      "inherited h cls_rels_by_japi_name bases = Inr mr"
      "length h \<le> cls_attrs_by_japi_name c" "Suc (cls_attrs_by_japi_name c) = length h1"
      "length h1 \<le> cls_rels_by_japi_name c" "Suc (cls_rels_by_japi_name c) = length h2"
      "length h' = length h2"
      "h2 ! cls_attrs_by_japi_name c = Dict d1" "h2 ! cls_rels_by_japi_name c = Dict d2"
      "\<forall>b < length h. h2 ! b = h ! b"
      "\<forall>(n, a') \<in> set d1. \<exists>a. (n, a) \<in> set ma \<and> length h \<le> a' \<and> a' < cls_attrs_by_japi_name c
           \<and> h2 ! a' = h ! a"
      "\<forall>(n, a') \<in> set d2. \<exists>a. (n, a) \<in> set mr \<and> length h1 \<le> a' \<and> a' < cls_rels_by_japi_name c
           \<and> h2 ! a' = h ! a"
      "step_ok (cls_attrs_by_japi_name c) (cls_rels_by_japi_name c) (declared attrs) h2 h'"
proof -
  from assms(1) obtain ma mr r1 r2 where
    ma: "inherited h cls_attrs_by_japi_name bases = Inr ma" and
    mr: "inherited h cls_rels_by_japi_name bases = Inr mr" and
    c1: "deepcopy_dict h ma = Inr (fst r1, snd r1)" and
    c2: "deepcopy_dict (fst r1) mr = Inr (fst r2, snd r2)" and
    lp: "fold_err (declare_field (class_ref name (members_of attrs bases)) (snd r1) (snd r2))
              attrs (fst r2) = Inr h'" and
    ad: "cls_attrs_by_japi_name c = snd r1" and rd: "cls_rels_by_japi_name c = snd r2"
    by (auto simp: ResourceMeta_init_def sbind_Inr_iff)
  have wa: "\<forall>(k, a) \<in> set ma. a < length h"
    using inherited_allocated[OF ma assms(2)] by simp
  have wr: "\<forall>(k, a) \<in> set mr. a < length h"
    using inherited_allocated[OF mr assms(2)] by simp
  from deepcopy_dict_spec[OF c1 wa, of h] obtain d1 where
    s1: "length h \<le> snd r1" "Suc (snd r1) = length (fst r1)" "fst r1 ! snd r1 = Dict d1"
      "\<forall>b < length h. fst r1 ! b = h ! b" "list_all2 (copy_of h (fst r1) (length h)) ma d1"
      "\<forall>(k, a') \<in> set d1. a' < snd r1" by auto
  have wr1: "\<forall>(k, a) \<in> set mr. a < length (fst r1)" using wr s1(1) s1(2) by auto
  from deepcopy_dict_spec[OF c2 wr1, of "fst r1"] obtain d2 where
    s2: "length (fst r1) \<le> snd r2" "Suc (snd r2) = length (fst r2)" "fst r2 ! snd r2 = Dict d2"
      "\<forall>b < length (fst r1). fst r2 ! b = fst r1 ! b"
      "list_all2 (copy_of (fst r1) (fst r2) (length (fst r1))) mr d2"
      "\<forall>(k, a') \<in> set d2. a' < snd r2" by auto
  have st: "step_ok (snd r1) (snd r2) (declared attrs) (fst r2) h'"
    using declare_fields_spec[OF lp] .
  have e1: "\<forall>(n, a') \<in> set d1. \<exists>a. (n, a) \<in> set ma \<and> length h \<le> a' \<and> a' < snd r1
           \<and> fst r2 ! a' = h ! a"
  proof clarify
    fix n a' assume m: "(n, a') \<in> set d1"
    from list_all2_copy_of[OF s1(5) m] obtain a where
      a: "(n, a) \<in> set ma" "length h \<le> a'" "a' < length (fst r1)" "fst r1 ! a' = h ! a" by blast
    have "a' < snd r1" using s1(6) m by auto
    then show "\<exists>a. (n, a) \<in> set ma \<and> length h \<le> a' \<and> a' < snd r1 \<and> fst r2 ! a' = h ! a"
      using a s2(4) by auto
  qed
  have e2: "\<forall>(n, a') \<in> set d2. \<exists>a. (n, a) \<in> set mr \<and> length (fst r1) \<le> a' \<and> a' < snd r2
           \<and> fst r2 ! a' = h ! a"
  proof clarify
    fix n a' assume m: "(n, a') \<in> set d2"
    from list_all2_copy_of[OF s2(5) m] obtain a where
      a: "(n, a) \<in> set mr" "length (fst r1) \<le> a'" "a' < length (fst r2)" "fst r2 ! a' = fst r1 ! a"
      by blast
    have "a < length h" using wr a(1) by auto
    then have "fst r1 ! a = h ! a" using s1(4) by auto
    moreover have "a' < snd r2" using s2(6) m by auto
    ultimately show "\<exists>a. (n, a) \<in> set mr \<and> length (fst r1) \<le> a' \<and> a' < snd r2 \<and> fst r2 ! a' = h ! a"
      using a by auto
  qed
  have p: "\<forall>b < length h. fst r2 ! b = h ! b" using s1 s2 by auto
  have d1: "fst r2 ! snd r1 = Dict d1" using s1 s2 by auto
  have len: "length h' = length (fst r2)" using st by (simp add: step_ok_def)
  show ?thesis
    using that[of ma mr "fst r1" "fst r2" d1 d2] ma mr s1(1) s1(2) s2(1) s2(2) s2(3) len d1 p e1 e2 st
    unfolding ad rd by blast
qed


text \<open>
  C9, amended: let a class \<open>c\<close> be registered on the store \<open>h\<close>, giving the store \<open>h'\<close>,
  where the fields of the bases exist in \<open>h\<close>. Let \<open>(n, a')\<close> be an entry of one of the two
  field dicts of \<open>c\<close> (\<open>_attrs_by_japi_name\<close>, \<open>_rels_by_japi_name\<close>) that the class body did
  not declare: an inherited field, as the dict gives it. Then \<open>a'\<close> is a new object, and
  so is the dict; the field at \<open>a'\<close> has the value that the field of the same name of a
  base had; the registration changed no object that existed before, other than the
  fields the class body declares. And let \<open>p\<close> be a class whose dicts and fields are older
  than the registration, a parent or a sibling registered before: whatever is written
  to the field at \<open>a'\<close>, both field dicts of \<open>p\<close> hold the names and the descriptors they
  held. A sibling registered later is in turn apart from \<open>c\<close>, by the same statement for
  its own registration. The statement is about the fields reached through the two dicts:
  the class attribute of an inherited field is not a copy.
\<close>

theorem inherited_fields_are_copies:
  assumes reg: "ResourceMeta_init h name bases attrs = Inr (h', c)"
    and alloc: "fields_allocated h bases"
    and sel: "sel = cls_attrs_by_japi_name \<or> sel = cls_rels_by_japi_name"
    and entry: "(n, a') \<in> set (dict_items h' (sel c))"
    and inh: "a' \<notin> declared attrs"
    and p: "older h' (length h) p"
  shows "length h \<le> a' \<and> a' < length h'
     \<and> length h \<le> sel c \<and> sel c < length h'
     \<and> (\<exists>base \<in> set bases. \<exists>a. is_resource base \<and> (n, a) \<in> set (dict_items h (sel base))
            \<and> a < length h \<and> h' ! a' = h ! a)
     \<and> (\<forall>b < length h. b \<notin> declared attrs \<longrightarrow> h' ! b = h ! b)
     \<and> (\<forall>f. fields_at (mutate h' a' f) (cls_attrs_by_japi_name p)
               = fields_at h' (cls_attrs_by_japi_name p)
            \<and> fields_at (mutate h' a' f) (cls_rels_by_japi_name p)
               = fields_at h' (cls_rels_by_japi_name p))"
proof -
  from ResourceMeta_init_steps[OF reg alloc] obtain ma mr and h1 :: heap and h2 d1 d2 where
    ma: "inherited h cls_attrs_by_japi_name bases = Inr ma" and
    mr: "inherited h cls_rels_by_japi_name bases = Inr mr" and
    ad: "length h \<le> cls_attrs_by_japi_name c" "Suc (cls_attrs_by_japi_name c) = length h1" and
    rd: "length h1 \<le> cls_rels_by_japi_name c" "Suc (cls_rels_by_japi_name c) = length h2" and
    len: "length h' = length h2" and
    dd: "h2 ! cls_attrs_by_japi_name c = Dict d1" "h2 ! cls_rels_by_japi_name c = Dict d2" and
    old: "\<forall>b < length h. h2 ! b = h ! b" and
    e1: "\<forall>(n, a') \<in> set d1. \<exists>a. (n, a) \<in> set ma \<and> length h \<le> a' \<and> a' < cls_attrs_by_japi_name c
           \<and> h2 ! a' = h ! a" and
    e2: "\<forall>(n, a') \<in> set d2. \<exists>a. (n, a) \<in> set mr \<and> length h1 \<le> a' \<and> a' < cls_rels_by_japi_name c
           \<and> h2 ! a' = h ! a" and
    st: "step_ok (cls_attrs_by_japi_name c) (cls_rels_by_japi_name c) (declared attrs) h2 h'"
    by blast
  let ?ad = "cls_attrs_by_japi_name c" and ?rd = "cls_rels_by_japi_name c"
  have same: "\<And>b. b \<noteq> ?ad \<Longrightarrow> b \<noteq> ?rd \<Longrightarrow> b \<notin> declared attrs \<Longrightarrow> h' ! b = h2 ! b"
    using st by (simp add: step_ok_def)
  have keep: "\<And>d kvs. d = ?ad \<or> d = ?rd \<Longrightarrow> h2 ! d = Dict kvs \<Longrightarrow>
      \<exists>kvs'. h' ! d = Dict kvs' \<and> (\<forall>(k, a) \<in> set kvs'. (k, a) \<in> set kvs \<or> a \<in> declared attrs)"
    using st unfolding step_ok_def by blast
  have selc: "length h \<le> sel c \<and> sel c < length h'"
    using sel ad rd len by auto
  have unchanged: "\<forall>b < length h. b \<notin> declared attrs \<longrightarrow> h' ! b = h ! b"
    using same old ad rd by auto
  have copy: "length h \<le> a' \<and> a' < length h' \<and>
     (\<exists>base \<in> set bases. \<exists>a. is_resource base \<and> (n, a) \<in> set (dict_items h (sel base))
            \<and> a < length h \<and> h' ! a' = h ! a)"
  proof (cases "sel = cls_attrs_by_japi_name")
    case True
    from keep[OF _ dd(1)] obtain kvs' where k: "h' ! ?ad = Dict kvs'"
      "\<forall>(k, a) \<in> set kvs'. (k, a) \<in> set d1 \<or> a \<in> declared attrs" by blast
    have "dict_items h' (sel c) = kvs'"
      using True k(1) ad rd len by (simp add: dict_items_def read_dict_def)
    then have "(n, a') \<in> set d1" using entry k(2) inh by auto
    with e1 obtain a where a: "(n, a) \<in> set ma" "length h \<le> a'" "a' < ?ad" "h2 ! a' = h ! a"
      by blast
    from inherited_entries[OF ma a(1)] obtain base where b: "base \<in> set bases" "is_resource base"
      "(n, a) \<in> set (dict_items h (cls_attrs_by_japi_name base))" by blast
    have "a < length h" using alloc b by (auto simp: fields_allocated_def)
    moreover have "h' ! a' = h2 ! a'" using same a(3) rd ad inh by auto
    ultimately show ?thesis using a b True ad rd len by auto
  next
    case False
    then have r: "sel = cls_rels_by_japi_name" using sel by simp
    from keep[OF _ dd(2)] obtain kvs' where k: "h' ! ?rd = Dict kvs'"
      "\<forall>(k, a) \<in> set kvs'. (k, a) \<in> set d2 \<or> a \<in> declared attrs" by blast
    have "dict_items h' (sel c) = kvs'"
      using r k(1) ad rd len by (simp add: dict_items_def read_dict_def)
    then have "(n, a') \<in> set d2" using entry k(2) inh by auto
    with e2 obtain a where a: "(n, a) \<in> set mr" "length h1 \<le> a'" "a' < ?rd" "h2 ! a' = h ! a"
      by blast
    from inherited_entries[OF mr a(1)] obtain base where b: "base \<in> set bases" "is_resource base"
      "(n, a) \<in> set (dict_items h (cls_rels_by_japi_name base))" by blast
    have "a < length h" using alloc b by (auto simp: fields_allocated_def)
    moreover have "h' ! a' = h2 ! a'" using same a(2) a(3) rd ad inh by auto
    ultimately show ?thesis using a b r ad rd len by auto
  qed
  have a': "length h \<le> a'" using copy by blast
  have apart: "fields_at (mutate h' a' f) d = fields_at h' d"
    if d: "d < length h" "\<forall>kv \<in> set (dict_items h' d). snd kv < length h" for f d
  proof -
    have "read_dict (mutate h' a' f) d = read_dict h' d"
      using d(1) a' by (simp add: read_dict_def mutate_def)
    then have i: "dict_items (mutate h' a' f) d = dict_items h' d" by (simp add: dict_items_def)
    have "read_field (mutate h' a' f) (snd kv) = read_field h' (snd kv)"
      if "kv \<in> set (dict_items h' d)" for kv
      using d(2) that a' by (auto simp: read_field_def mutate_def)
    then show ?thesis unfolding fields_at_def i by simp
  qed
  have older: "fields_at (mutate h' a' f) (cls_attrs_by_japi_name p)
               = fields_at h' (cls_attrs_by_japi_name p)
            \<and> fields_at (mutate h' a' f) (cls_rels_by_japi_name p)
               = fields_at h' (cls_rels_by_japi_name p)" for f
    using p by (auto simp: older_def reachable_def intro!: apart)
  show ?thesis using copy selc unchanged older by blast
qed


lemma draft_registration:
  "ResourceMeta_init article_heap ''Draft'' [article_obj] [] = Inr (draft_heap, draft_obj)"
  by (simp add: ResourceMeta_init_def inherited_def inherit_from_def read_dict_def read_field_def
      dict_update_def deepcopy_dict_def sbind_def article_heap_def article_obj_def draft_heap_def
      draft_obj_def members_of_def is_Id_attr_def is_type_attr_def is_str_attr_def)

theorem inherited_fields_are_copies_witness:
  "ResourceMeta_init article_heap ''Draft'' [article_obj] [] = Inr (draft_heap, draft_obj)
   \<and> fields_allocated article_heap [article_obj]
   \<and> (''title'', 5) \<in> set (dict_items draft_heap (cls_attrs_by_japi_name draft_obj))
   \<and> 5 \<notin> declared []
   \<and> older draft_heap (length article_heap) article_obj
   \<and> length article_heap \<le> 5 \<and> 5 < length draft_heap
   \<and> draft_heap ! 5 = article_heap ! 1
   \<and> fields_at (mutate draft_heap 5 (MAttribute (title_attr\<lparr> nullable := True \<rparr>)))
        (cls_attrs_by_japi_name article_obj)
       = [(''title'', Inr (MAttribute title_attr))]"
proof -
  have a: "fields_allocated article_heap [article_obj]"
    by (simp add: fields_allocated_def dict_items_def read_dict_def article_heap_def
        article_obj_def)
  have e: "(''title'', 5) \<in> set (dict_items draft_heap (cls_attrs_by_japi_name draft_obj))"
    by (simp add: dict_items_def read_dict_def draft_heap_def draft_obj_def article_heap_def)
  have d: "5 \<notin> declared []" by (simp add: declared_def)
  have o: "older draft_heap (length article_heap) article_obj"
    by (simp add: older_def reachable_def dict_items_def read_dict_def draft_heap_def
        article_heap_def article_obj_def)
  have items: "dict_items article_heap (cls_attrs_by_japi_name article_obj) = [(''title'', 1)]"
    by (simp add: dict_items_def read_dict_def article_heap_def article_obj_def)
  have f: "fields_at draft_heap (cls_attrs_by_japi_name article_obj)
      = [(''title'', Inr (MAttribute title_attr))]"
    by (simp add: fields_at_def dict_items_def read_dict_def read_field_def draft_heap_def
        article_heap_def article_obj_def)
  from inherited_fields_are_copies[where sel = cls_attrs_by_japi_name,
      OF draft_registration a disjI1[OF refl] e d o]
  have "length article_heap \<le> 5 \<and> 5 < length draft_heap
        \<and> (\<exists>base \<in> set [article_obj]. \<exists>x. is_resource base
              \<and> (''title'', x) \<in> set (dict_items article_heap (cls_attrs_by_japi_name base))
              \<and> x < length article_heap \<and> draft_heap ! 5 = article_heap ! x)
        \<and> fields_at (mutate draft_heap 5 (MAttribute (title_attr\<lparr> nullable := True \<rparr>)))
             (cls_attrs_by_japi_name article_obj)
            = fields_at draft_heap (cls_attrs_by_japi_name article_obj)"
    by blast
  then show ?thesis using draft_registration a e d o items f by simp
qed

text \<open>
  C9, as the claim states it, fails for a field reached through the class attribute:
  \<open>Draft\<close> inherits \<open>title\<close> from \<open>Article\<close>, and \<open>Draft.title\<close> is the field object of
  \<open>Article\<close> itself, the one at the address 1 that the field dict of \<open>Article\<close> holds. Making
  it nullable through \<open>Draft\<close> makes the \<open>title\<close> of \<open>Article\<close> nullable.
\<close>

theorem class_attribute_is_shared:
  "ResourceMeta_init article_heap ''Draft'' [article_obj] [] = Inr (draft_heap, draft_obj)
   \<and> class_getattr draft_obj ''title'' = Some (FieldRef 1)
   \<and> class_getattr article_obj ''title'' = Some (FieldRef 1)
   \<and> fields_at draft_heap (cls_attrs_by_japi_name article_obj)
       = [(''title'', Inr (MAttribute title_attr))]
   \<and> fields_at (mutate draft_heap 1 (MAttribute (title_attr\<lparr> nullable := True \<rparr>)))
        (cls_attrs_by_japi_name article_obj)
       = [(''title'', Inr (MAttribute (title_attr\<lparr> nullable := True \<rparr>)))]
   \<and> nullable (title_attr\<lparr> nullable := True \<rparr>) \<noteq> nullable title_attr"
proof -
  have a: "class_getattr draft_obj ''title'' = Some (FieldRef 1)"
    "class_getattr article_obj ''title'' = Some (FieldRef 1)"
    by (simp_all add: class_getattr_def draft_obj_def article_obj_def)
  have f: "fields_at draft_heap (cls_attrs_by_japi_name article_obj)
      = [(''title'', Inr (MAttribute title_attr))]"
    by (simp add: fields_at_def dict_items_def read_dict_def read_field_def draft_heap_def
        article_heap_def article_obj_def)
  have g: "fields_at (mutate draft_heap 1 (MAttribute (title_attr\<lparr> nullable := True \<rparr>)))
        (cls_attrs_by_japi_name article_obj)
       = [(''title'', Inr (MAttribute (title_attr\<lparr> nullable := True \<rparr>)))]"
    by (simp add: fields_at_def dict_items_def read_dict_def read_field_def draft_heap_def
        article_heap_def article_obj_def mutate_def)
  have n: "nullable (title_attr\<lparr> nullable := True \<rparr>) \<noteq> nullable title_attr"
    by (simp add: title_attr_def)
  show ?thesis using draft_registration a f g n by simp
qed

section \<open>int() undoes str() on integers\<close>

lemma digit_char_props: "d < 10 \<Longrightarrow> is_digit (digit_char d) \<and> digit_val (digit_char d) = d \<and> \<not> int_isspace (digit_char d) \<and> digit_char d \<noteq> CHR ''-'' \<and> digit_char d \<noteq> CHR ''+''"
proof -
  assume d: "d < 10"
  then have "(48 + d) mod 256 = 48 + d" by simp
  then have o: "(of_char (digit_char d) :: nat) = 48 + d"
    by (simp add: digit_char_def)
  have "of_char (digit_char d) \<noteq> (of_char (CHR ''-'') :: nat)" "of_char (digit_char d) \<noteq> (of_char (CHR ''+'') :: nat)"
    using o by simp_all
  then have "digit_char d \<noteq> CHR ''-''" "digit_char d \<noteq> CHR ''+''" by auto
  then show ?thesis using o d by (simp add: is_digit_def digit_val_def int_isspace_def)
qed

lemma int_digits_all_digits:
  "list_all is_digit ds \<Longrightarrow> int_digits acc ds = Some (digits_value ds acc)"
  by (induction acc ds rule: int_digits.induct) (auto simp: digits_value_def)

lemma str_nat_digits: "list_all is_digit (str_nat n) \<and> str_nat n \<noteq> [] \<and> digits_value (str_nat n) 0 = n"
proof (induction n rule: str_nat.induct)
  case (1 n)
  show ?case
  proof (cases "n < 10")
    case True
    then show ?thesis using digit_char_props[of n]
      by (subst (1 2 3) str_nat.simps) (simp add: digits_value_def)
  next
    case False
    have m: "n mod 10 < 10" by simp
    from 1[OF False] have ih: "list_all is_digit (str_nat (n div 10))" "digits_value (str_nat (n div 10)) 0 = n div 10"
      by auto
    show ?thesis using False ih digit_char_props[OF m]
      by (subst (1 2 3) str_nat.simps) (simp add: digits_value_def)
  qed
qed

lemma int_unsigned_str_nat: "int_unsigned (str_nat n) = Some n"
proof -
  obtain c cs where s: "str_nat n = c # cs" using str_nat_digits[of n] by (cases "str_nat n") auto
  then have "is_digit c" using str_nat_digits[of n] by simp
  then show ?thesis using s str_nat_digits[of n] int_digits_all_digits[of "str_nat n" 0]
    by (simp add: int_unsigned_def)
qed

lemma str_nat_no_space: "\<not> int_isspace (hd (str_nat n)) \<and> \<not> int_isspace (last (str_nat n)) \<and> hd (str_nat n) \<noteq> CHR ''-'' \<and> hd (str_nat n) \<noteq> CHR ''+''"
proof -
  have a: "list_all is_digit (str_nat n)" "str_nat n \<noteq> []" using str_nat_digits by auto
  have d: "is_digit c \<Longrightarrow> \<not> int_isspace c \<and> c \<noteq> CHR ''-'' \<and> c \<noteq> CHR ''+''" for c
    by (auto simp: is_digit_def int_isspace_def)
  have "is_digit (hd (str_nat n))" "is_digit (last (str_nat n))"
    using a by (auto simp: list_all_iff)
  then show ?thesis using d by blast
qed

lemma int_strip_id: "s \<noteq> [] \<Longrightarrow> \<not> int_isspace (hd s) \<Longrightarrow> \<not> int_isspace (last s) \<Longrightarrow> int_strip s = s"
proof -
  assume a: "s \<noteq> []" "\<not> int_isspace (hd s)" "\<not> int_isspace (last s)"
  then have 1: "dropWhile int_isspace s = s" by (cases s) auto
  have dw: "xs \<noteq> [] \<Longrightarrow> \<not> int_isspace (hd xs) \<Longrightarrow> dropWhile int_isspace xs = xs" for xs
    by (cases xs) auto
  have "rev s \<noteq> []" "hd (rev s) = last s" using a by (simp_all add: hd_rev)
  then have 2: "dropWhile int_isspace (rev s) = rev s" using a dw[of "rev s"] by simp
  show ?thesis by (simp add: int_strip_def 1 2)
qed

lemma int_of_str_str_int: "int_of_str (str_int i) = Some i"
proof (cases "i < 0")
  case True
  let ?s = "CHR ''-'' # str_nat (nat (- i))"
  have ne: "str_nat (nat (- i)) \<noteq> []" using str_nat_digits by blast
  have "\<not> int_isspace (CHR ''-'')" by (simp add: int_isspace_def)
  moreover have "\<not> int_isspace (last ?s)" using ne str_nat_no_space by simp
  ultimately have "int_strip ?s = ?s" using int_strip_id[of ?s] by simp
  then show ?thesis using True int_unsigned_str_nat by (simp add: int_of_str_def str_int_def)
next
  case False
  let ?s = "str_nat (nat i)"
  obtain c cs where s: "?s = c # cs" using str_nat_digits[of "nat i"] by (cases ?s) auto
  have st: "int_strip ?s = ?s" using int_strip_id[of ?s] str_nat_no_space[of "nat i"] s by simp
  have "c \<noteq> CHR ''-''" "c \<noteq> CHR ''+''" using str_nat_no_space[of "nat i"] s by auto
  then show ?thesis using False int_unsigned_str_nat[of "nat i"] s st
    by (simp add: int_of_str_def str_int_def)
qed

section \<open>The round trip of deserialize, serialize and deserialize\<close>

subsection \<open>Loops of default setters\<close>

lemma fold_err_writes:
  assumes "\<And>n m'. n \<in> set ns \<Longrightarrow> step n m' = Inr (m'(key n \<mapsto> val n))"
  shows "fold_err step ns m = Inr (fold (\<lambda>n m'. m'(key n \<mapsto> val n)) ns m)"
  using assms by (induction ns arbitrary: m) auto

lemma fold_writes_other:
  "c \<notin> key ` set ns \<Longrightarrow> fold (\<lambda>n m'. m'(key n \<mapsto> val n)) ns m c = m c"
proof (induction ns arbitrary: m)
  case Nil
  then show ?case by simp
next
  case (Cons a ns)
  then have "c \<notin> key ` set ns" "c \<noteq> key a" by auto
  then have "fold (\<lambda>n m'. m'(key n \<mapsto> val n)) ns (m(key a \<mapsto> val a)) c = (m(key a \<mapsto> val a)) c"
    using Cons.IH by blast
  then show ?case using \<open>c \<noteq> key a\<close> by (simp only: fold_simps comp_apply) simp
qed

lemma fold_writes_at:
  "n \<in> set ns \<Longrightarrow> distinct (map key ns) \<Longrightarrow>
   fold (\<lambda>n m'. m'(key n \<mapsto> val n)) ns m (key n) = Some (val n)"
proof (induction ns arbitrary: m)
  case Nil
  then show ?case by simp
next
  case (Cons a ns)
  show ?case
  proof (cases "n = a")
    case True
    then have "key a \<notin> key ` set ns" using Cons.prems(2) by auto
    then have "fold (\<lambda>n m'. m'(key n \<mapsto> val n)) ns (m(key a \<mapsto> val a)) (key a)
        = (m(key a \<mapsto> val a)) (key a)"
      by (rule fold_writes_other)
    then show ?thesis unfolding True by (simp only: fold_simps comp_apply) simp
  next
    case False
    then have "n \<in> set ns" "distinct (map key ns)" using Cons.prems by auto
    then have "fold (\<lambda>n m'. m'(key n \<mapsto> val n)) ns (m(key a \<mapsto> val a)) (key n) = Some (val n)"
      by (rule Cons.IH)
    then show ?thesis by (simp only: fold_simps comp_apply)
  qed
qed

lemma write_attribute_default:
  assumes "map_of ad n = Some v" and "map_of (attrs_by_japi_name cls) n = Some f"
    and "attr_on f c" and "nullable f \<or> \<not> is_null v"
  shows "write_attribute cls ad n m = Inr (m(c \<mapsto> v))"
  using assms
  by (auto simp: write_attribute_def lookup_def sbind_def attr_on_def is_null_def
      Attribute_deserialize_into_obj_def Attribute_deserialize_def call_fset_def
      default_fset_def setattr_def)

lemma linkage_key_SomeD:
  assumes "linkage_key t v = Some k"
  shows "\<exists>dat i. getitem v ''data'' = Inr (JObj dat) \<and> map_of dat ''type'' = Some (JStr t)
          \<and> map_of dat ''id'' = Some i \<and> py_int i = Inr k \<and> \<not> is_null v"
proof -
  from assms obtain dat where d: "getitem v ''data'' = Inr (JObj dat)"
    by (auto simp: linkage_key_def split: sum.splits json.splits)
  have nn: "\<not> is_null v" using d by (cases v) (auto simp: is_null_def)
  from assms d obtain ty where ty: "map_of dat ''type'' = Some ty" "ty = JStr t"
    by (auto simp: linkage_key_def split: option.splits if_splits)
  from assms d ty obtain i where "map_of dat ''id'' = Some i" "py_int i = Inr k"
    by (auto simp: linkage_key_def split: option.splits sum.splits)
  then show ?thesis using d ty nn by auto
qed

lemma linkage_checks:
  assumes "linkage_key (related_resource_class r) v = Some k"
  shows "check_linkage r v = Inr ()" and "ToOneRelationship_deserialize r v = Inr (JInt k)"
proof -
  from linkage_key_SomeD[OF assms] obtain dat i where
    d: "getitem v ''data'' = Inr (JObj dat)" "map_of dat ''type'' = Some (JStr (related_resource_class r))"
       "map_of dat ''id'' = Some i" "py_int i = Inr k" "\<not> is_null v" by blast
  show "check_linkage r v = Inr ()"
    using d by (simp add: check_linkage_def sbind_def is_null_def)
  show "ToOneRelationship_deserialize r v = Inr (JInt k)"
    using d by (simp add: ToOneRelationship_deserialize_def sbind_def)
qed

lemma write_relationship_default:
  assumes "map_of rd n = Some v" and "map_of (rels_by_japi_name cls) n = Some r"
    and "rel_on r c" and "linkage_key (related_resource_class r) v = Some k"
  shows "write_relationship cls rd n m = Inr (m(c \<mapsto> JInt k))"
  using assms linkage_checks[OF assms(4)]
  by (auto simp: write_relationship_def lookup_def sbind_def rel_on_def
      ToOneRelationship_deserialize_into_obj_def call_fset_def default_fset_def setattr_def)

subsection \<open>The first deserialize\<close>

lemma written_other: "c \<notin> key ` set ns \<Longrightarrow> written key val ns m c = m c"
  unfolding written_def by (rule fold_writes_other)

lemma written_at:
  "n \<in> set ns \<Longrightarrow> distinct (map key ns) \<Longrightarrow> written key val ns m (key n) = Some (val n)"
  unfolding written_def by (rule fold_writes_at)

lemma fold_err_written:
  assumes "\<And>n m'. n \<in> set ns \<Longrightarrow> step n m' = Inr (m'(key n \<mapsto> val n))"
  shows "fold_err step ns m = Inr (written key val ns m)"
  unfolding written_def using assms by (rule fold_err_writes)

lemma written_iterate:
  assumes "distinct (map key ns)"
  shows "written key val (iterate slot ns) m = written key val ns m"
proof (rule ext)
  fix c
  have "inj_on key (set ns)" using assms by (simp add: distinct_map)
  then have d: "distinct (map key (iterate slot ns))" by (simp add: distinct_map)
  show "written key val (iterate slot ns) m c = written key val ns m c"
  proof (cases "c \<in> key ` set ns")
    case True
    then obtain n where n: "n \<in> set ns" "c = key n" by auto
    then have "n \<in> set (iterate slot ns)" by simp
    then have "written key val (iterate slot ns) m (key n) = Some (val n)"
      using d by (rule written_at)
    moreover have "written key val ns m (key n) = Some (val n)"
      using n(1) assms by (rule written_at)
    ultimately show ?thesis using n(2) by simp
  next
    case False
    then have "c \<notin> key ` set (iterate slot ns)" by simp
    then have "written key val (iterate slot ns) m c = m c" by (rule written_other)
    moreover have "written key val ns m c = m c" using False by (rule written_other)
    ultimately show ?thesis by simp
  qed
qed

text \<open>A loop of default setters over a set of names with distinct columns gives the same
  record in whatever order the set is iterated.\<close>

lemma fold_err_written_iterate:
  assumes "\<And>n m'. n \<in> set ns \<Longrightarrow> step n m' = Inr (m'(key n \<mapsto> val n))"
    and "distinct (map key ns)"
  shows "fold_err step (iterate slot ns) m = Inr (written key val ns m)"
proof -
  have "fold_err step (iterate slot ns) m = Inr (written key val (iterate slot ns) m)"
    using assms(1) by (intro fold_err_written) simp
  then show ?thesis using written_iterate[OF assms(2)] by simp
qed

lemma map_of_distinct_iff:
  "distinct (map fst xs) \<Longrightarrow> map_of xs k = Some v \<longleftrightarrow> (k, v) \<in> set xs"
  by (auto dest: map_of_SomeD)

text \<open>What a plain class gives for each of its fields.\<close>

lemma plain_class_attr:
  assumes "plain_class cls col fk pk" and "(n, f) \<in> set (attrs_by_japi_name cls)"
  shows "map_of (attrs_by_japi_name cls) n = Some f" and "attr_on f (col n)"
  using assms by (auto simp: plain_class_def list_all_iff)

lemma plain_class_rel:
  assumes "plain_class cls col fk pk" and "(n, r) \<in> set (rels_by_japi_name cls)"
  shows "map_of (rels_by_japi_name cls) n = Some r" and "rel_on r (fk n)"
  using assms by (auto simp: plain_class_def list_all_iff)

lemma plain_class_columns:
  assumes "plain_class cls col fk pk"
  shows "distinct (map col (map fst (attrs_by_japi_name cls)))"
    and "distinct (map fk (map fst (rels_by_japi_name cls)))"
    and "col ` set (map fst (attrs_by_japi_name cls)) \<inter> fk ` set (map fst (rels_by_japi_name cls)) = {}"
    and "pk \<notin> col ` set (map fst (attrs_by_japi_name cls))"
    and "pk \<notin> fk ` set (map fst (rels_by_japi_name cls))"
proof -
  have d: "distinct (pk # map (\<lambda>kv. col (fst kv)) (attrs_by_japi_name cls)
                      @ map (\<lambda>kv. fk (fst kv)) (rels_by_japi_name cls))"
    using assms by (simp add: plain_class_def)
  have a: "map col (map fst (attrs_by_japi_name cls)) = map (\<lambda>kv. col (fst kv)) (attrs_by_japi_name cls)"
    and r: "map fk (map fst (rels_by_japi_name cls)) = map (\<lambda>kv. fk (fst kv)) (rels_by_japi_name cls)"
    by simp_all
  show "distinct (map col (map fst (attrs_by_japi_name cls)))" using d unfolding a by simp
  show "distinct (map fk (map fst (rels_by_japi_name cls)))" using d unfolding r by simp
  have sa: "col ` set (map fst (attrs_by_japi_name cls)) = set (map (\<lambda>kv. col (fst kv)) (attrs_by_japi_name cls))"
    and sr: "fk ` set (map fst (rels_by_japi_name cls)) = set (map (\<lambda>kv. fk (fst kv)) (rels_by_japi_name cls))"
    by (simp_all add: image_image)
  show "col ` set (map fst (attrs_by_japi_name cls)) \<inter> fk ` set (map fst (rels_by_japi_name cls)) = {}"
    unfolding sa sr using d by simp
  show "pk \<notin> col ` set (map fst (attrs_by_japi_name cls))" unfolding sa using d by simp
  show "pk \<notin> fk ` set (map fst (rels_by_japi_name cls))" unfolding sr using d by simp
qed


lemma missing_relationship_cases:
  assumes "m \<in> set (missing_keys rd (rels_by_japi_name cls))"
  shows "\<exists>field. map_of (rels_by_japi_name cls) m = Some field \<and>
     (nullable field \<or> has_default field \<longrightarrow> missing_relationship cls m = Inr ())"
proof -
  from assms have "m \<in> set (map fst (rels_by_japi_name cls))"
    by (simp add: missing_keys_def)
  then obtain field where "map_of (rels_by_japi_name cls) m = Some field"
    by (metis map_of_eq_None_iff not_Some_eq set_map)
  then show ?thesis by (simp add: missing_relationship_def lookup_def sbind_def)
qed

lemma check_relationships_pass:
  assumes "\<forall>k \<in> set (map fst rd). k \<in> set (map fst (rels_by_japi_name cls))"
    and "\<forall>n field. map_of (rels_by_japi_name cls) n = Some field \<and> n \<notin> set (map fst rd)
           \<longrightarrow> nullable field \<or> has_default field"
  shows "check_relationships slot cls rd = Inr ()"
proof -
  have x: "extra_keys rd (rels_by_japi_name cls) = []"
    using assms(1) by (auto simp: extra_keys_def filter_empty_conv)
  have "for_each (missing_relationship cls) (iterate slot (missing_keys rd (rels_by_japi_name cls)))
      = Inr ()"
  proof (rule for_each_all)
    fix m assume "m \<in> set (iterate slot (missing_keys rd (rels_by_japi_name cls)))"
    then have m: "m \<in> set (missing_keys rd (rels_by_japi_name cls))" by simp
    from missing_relationship_cases[OF m] obtain field where
      f: "map_of (rels_by_japi_name cls) m = Some field"
      "nullable field \<or> has_default field \<longrightarrow> missing_relationship cls m = Inr ()" by blast
    have "m \<notin> set (map fst rd)" using m by (simp add: missing_keys_def)
    then have "nullable field \<or> has_default field" using assms(2) f(1) by blast
    then show "missing_relationship cls m = Inr ()" using f(2) by simp
  qed
  then show ?thesis using x by (simp add: check_relationships_def)
qed

lemma intersection_keys_all:
  "\<forall>k \<in> set (map fst request). k \<in> set (map fst resource) \<Longrightarrow>
   intersection_keys request resource = map fst request"
  by (simp add: intersection_keys_def)

lemma item_of_map_of: "map_of ad n = Some v \<Longrightarrow> item_of (JObj ad) n = v"
  by (simp add: item_of_def)

text \<open>What a conforming document gives.\<close>

lemma conformingD:
  assumes "conforming cls col fk pk m0 d ad rd"
  shows "getitem d ''type'' = Inr (JStr (japi_resource_type cls))"
    and "get_or_empty d ''attributes'' = Inr ad"
    and "get_or_empty d ''relationships'' = Inr rd"
    and "distinct (map fst ad)" and "distinct (map fst rd)"
    and "\<And>n v. (n, v) \<in> set ad \<Longrightarrow> n \<in> set (map fst (attrs_by_japi_name cls))"
    and "\<And>n v. (n, v) \<in> set rd \<Longrightarrow> n \<in> set (map fst (rels_by_japi_name cls))"
    and "\<And>n f. (n, f) \<in> set (attrs_by_japi_name cls) \<Longrightarrow>
           attribute_given m0 (col n) f (map_of ad n)"
    and "\<And>n r. (n, r) \<in> set (rels_by_japi_name cls) \<Longrightarrow>
           relationship_given m0 (fk n) r (map_of rd n)"
    and "\<exists>v s. m0 pk = Some v \<and> py_str v = Inr s"
proof -
  from assms have c:
    "getitem d ''type'' = Inr (JStr (japi_resource_type cls))"
    "get_or_empty d ''attributes'' = Inr ad"
    "get_or_empty d ''relationships'' = Inr rd"
    "distinct (map fst ad)" "distinct (map fst rd)"
    "list_all (\<lambda>kv. fst kv \<in> set (map fst (attrs_by_japi_name cls))) ad"
    "list_all (\<lambda>kv. fst kv \<in> set (map fst (rels_by_japi_name cls))) rd"
    "list_all (\<lambda>kv. attribute_given m0 (col (fst kv)) (snd kv) (map_of ad (fst kv)))
           (attrs_by_japi_name cls)"
    "list_all (\<lambda>kv. relationship_given m0 (fk (fst kv)) (snd kv) (map_of rd (fst kv)))
           (rels_by_japi_name cls)"
    "(case m0 pk of
            Some v \<Rightarrow> (case py_str v of Inr s \<Rightarrow> True | Inl e \<Rightarrow> False)
          | None \<Rightarrow> False)"
    unfolding conforming_def by blast+
  show "getitem d ''type'' = Inr (JStr (japi_resource_type cls))"
    "get_or_empty d ''attributes'' = Inr ad" "get_or_empty d ''relationships'' = Inr rd"
    "distinct (map fst ad)" "distinct (map fst rd)" using c by blast+
  show "\<And>n v. (n, v) \<in> set ad \<Longrightarrow> n \<in> set (map fst (attrs_by_japi_name cls))"
    using c(6) unfolding list_all_iff by force
  show "\<And>n v. (n, v) \<in> set rd \<Longrightarrow> n \<in> set (map fst (rels_by_japi_name cls))"
    using c(7) unfolding list_all_iff by force
  show "\<And>n f. (n, f) \<in> set (attrs_by_japi_name cls) \<Longrightarrow>
           attribute_given m0 (col n) f (map_of ad n)"
    using c(8) unfolding list_all_iff by force
  show "\<And>n r. (n, r) \<in> set (rels_by_japi_name cls) \<Longrightarrow>
           relationship_given m0 (fk n) r (map_of rd n)"
    using c(9) unfolding list_all_iff by force
  show "\<exists>v s. m0 pk = Some v \<and> py_str v = Inr s"
    using c(10) by (auto split: option.splits sum.splits)
qed

lemma conforming_attr_given:
  assumes "plain_class cls col fk pk" and "conforming cls col fk pk m0 d ad rd"
    and "(n, v) \<in> set ad"
  shows "\<exists>f. map_of ad n = Some v \<and> map_of (attrs_by_japi_name cls) n = Some f
             \<and> attr_on f (col n) \<and> (nullable f \<or> \<not> is_null v)"
proof -
  note c = conformingD[OF assms(2)]
  have v: "map_of ad n = Some v"
    using c(4) assms(3) by (simp add: map_of_distinct_iff)
  have "n \<in> set (map fst (attrs_by_japi_name cls))"
    using c(6) assms(3) by blast
  then obtain f where f: "(n, f) \<in> set (attrs_by_japi_name cls)" by auto
  then have "attribute_given m0 (col n) f (map_of ad n)"
    using c(8) by blast
  then have "nullable f \<or> \<not> is_null v" using v by (simp add: attribute_given_def)
  then show ?thesis using v plain_class_attr[OF assms(1) f] by blast
qed

lemma conforming_rel_given:
  assumes "plain_class cls col fk pk" and "conforming cls col fk pk m0 d ad rd"
    and "(n, v) \<in> set rd"
  shows "\<exists>r k. map_of rd n = Some v \<and> map_of (rels_by_japi_name cls) n = Some r
             \<and> rel_on r (fk n) \<and> linkage_key (related_resource_class r) v = Some k
             \<and> linked_value cls rd n = JInt k"
proof -
  note c = conformingD[OF assms(2)]
  have v: "map_of rd n = Some v"
    using c(5) assms(3) by (simp add: map_of_distinct_iff)
  have "n \<in> set (map fst (rels_by_japi_name cls))"
    using c(7) assms(3) by blast
  then obtain r where r: "(n, r) \<in> set (rels_by_japi_name cls)" by auto
  then have "relationship_given m0 (fk n) r (map_of rd n)"
    using c(9) by blast
  then obtain k where k: "linkage_key (related_resource_class r) v = Some k"
    using v by (auto simp: relationship_given_def split: option.splits)
  have m: "map_of (rels_by_japi_name cls) n = Some r" using plain_class_rel[OF assms(1) r] by simp
  have "linked_value cls rd n = JInt k"
    using k m v by (simp add: linked_value_def item_of_def)
  then show ?thesis using v k m plain_class_rel[OF assms(1) r] by blast
qed

lemma conforming_missing_attr:
  assumes "plain_class cls col fk pk" and "conforming cls col fk pk m0 d ad rd"
    and "map_of (attrs_by_japi_name cls) n = Some f" and "n \<notin> set (map fst ad)"
  shows "(has_default f \<or> nullable f) \<and> (\<exists>v. m0 (col n) = Some v \<and> (nullable f \<or> \<not> is_null v))"
proof -
  have "(n, f) \<in> set (attrs_by_japi_name cls)" using assms(3) by (rule map_of_SomeD)
  then have "attribute_given m0 (col n) f (map_of ad n)"
    using conformingD(8)[OF assms(2)] by blast
  moreover have "map_of ad n = None" using assms(4) by (simp add: map_of_eq_None_iff)
  ultimately show ?thesis by (auto simp: attribute_given_def split: option.splits)
qed

lemma conforming_missing_rel:
  assumes "plain_class cls col fk pk" and "conforming cls col fk pk m0 d ad rd"
    and "map_of (rels_by_japi_name cls) n = Some r" and "n \<notin> set (map fst rd)"
  shows "(nullable r \<or> has_default r) \<and> (\<exists>k. m0 (fk n) = Some (JInt k))"
proof -
  have "(n, r) \<in> set (rels_by_japi_name cls)" using assms(3) by (rule map_of_SomeD)
  then have "relationship_given m0 (fk n) r (map_of rd n)"
    using conformingD(9)[OF assms(2)] by blast
  moreover have "map_of rd n = None" using assms(4) by (simp add: map_of_eq_None_iff)
  ultimately show ?thesis by (auto simp: relationship_given_def split: option.splits json.splits)
qed


lemma distinct_map_subset:
  assumes "distinct (map f xs)" and "distinct ys" and "set ys \<subseteq> set xs"
  shows "distinct (map f ys)"
proof -
  have "inj_on f (set xs)" using assms(1) by (simp add: distinct_map)
  then have "inj_on f (set ys)" using assms(3) by (rule inj_on_subset)
  then show ?thesis using assms(2) by (simp add: distinct_map)
qed

lemma inj_on_image_notin:
  assumes "distinct (map f xs)" and "x \<in> set xs" and "set ys \<subseteq> set xs" and "x \<notin> set ys"
  shows "f x \<notin> f ` set ys"
proof -
  have "inj_on f (set xs)" using assms(1) by (simp add: distinct_map)
  then show ?thesis using assms(2) assms(3) assms(4) by (auto simp: inj_on_def)
qed

lemma conforming_columns:
  assumes pc: "plain_class cls col fk pk" and cf: "conforming cls col fk pk m0 d ad rd"
  shows "distinct (map col (map fst ad))" and "distinct (map fk (map fst rd))"
proof -
  note c = conformingD[OF cf]
  note k = plain_class_columns[OF pc]
  have sa: "set (map fst ad) \<subseteq> set (map fst (attrs_by_japi_name cls))" using c(6) by auto
  have sr: "set (map fst rd) \<subseteq> set (map fst (rels_by_japi_name cls))" using c(7) by auto
  show "distinct (map col (map fst ad))" using distinct_map_subset[OF k(1) c(4) sa] .
  show "distinct (map fk (map fst rd))" using distinct_map_subset[OF k(2) c(5) sr] .
qed

lemma first_deserialize:
  assumes pc: "plain_class cls col fk pk" and cf: "conforming cls col fk pk m0 d ad rd"
  shows "deserialize slot cls d m0 = Inr \<lparr> resource_class = cls, model = record_of cls col fk m0 ad rd \<rparr>"
proof -
  note c = conformingD[OF cf]
  have ka: "\<forall>k \<in> set (map fst ad). k \<in> set (map fst (attrs_by_japi_name cls))"
    using c(6) by auto
  have kr: "\<forall>k \<in> set (map fst rd). k \<in> set (map fst (rels_by_japi_name cls))"
    using c(7) by auto
  have ca: "check_attributes slot cls ad = Inr ()"
    using ka conforming_missing_attr[OF pc cf] by (intro check_attributes_pass) blast+
  have cr: "check_relationships slot cls rd = Inr ()"
    using kr conforming_missing_rel[OF pc cf] by (intro check_relationships_pass) blast+
  have wa: "write_attributes slot cls ad m = Inr (written col (item_of (JObj ad)) (map fst ad) m)" for m
    unfolding write_attributes_def intersection_keys_all[OF ka]
  proof (rule fold_err_written_iterate)
    show "distinct (map col (map fst ad))" using conforming_columns(1)[OF pc cf] .
  next
    fix n m' assume "n \<in> set (map fst ad)"
    then obtain v where "(n, v) \<in> set ad" by auto
    from conforming_attr_given[OF pc cf this] obtain f where
      "map_of ad n = Some v" "map_of (attrs_by_japi_name cls) n = Some f"
      "attr_on f (col n)" "nullable f \<or> \<not> is_null v" by blast
    then show "write_attribute cls ad n m' = Inr (m'(col n \<mapsto> item_of (JObj ad) n))"
      using write_attribute_default[of ad n v cls f "col n" m'] item_of_map_of[of ad n v] by simp
  qed
  have wr: "write_relationships slot cls rd m = Inr (written fk (linked_value cls rd) (map fst rd) m)" for m
    unfolding write_relationships_def intersection_keys_all[OF kr]
  proof (rule fold_err_written_iterate)
    show "distinct (map fk (map fst rd))" using conforming_columns(2)[OF pc cf] .
  next
    fix n m' assume "n \<in> set (map fst rd)"
    then obtain v where "(n, v) \<in> set rd" by auto
    from conforming_rel_given[OF pc cf this] obtain r k where
      "map_of rd n = Some v" "map_of (rels_by_japi_name cls) n = Some r"
      "rel_on r (fk n)" "linkage_key (related_resource_class r) v = Some k"
      "linked_value cls rd n = JInt k" by blast
    then show "write_relationship cls rd n m' = Inr (m'(fk n \<mapsto> linked_value cls rd n))"
      using write_relationship_default[of rd n v cls r "fk n" k m'] by simp
  qed
  have i: "instantiable cls" using pc by (simp add: plain_class_def)
  show ?thesis
    using c(1) c(2) c(3) i ca cr
    by (simp add: deserialize_def Resource_init_def sbind_def wa wr record_of_def)
qed


lemma record_of_columns:
  assumes pc: "plain_class cls col fk pk" and cf: "conforming cls col fk pk m0 d ad rd"
  shows "\<And>n v. (n, v) \<in> set ad \<Longrightarrow> record_of cls col fk m0 ad rd (col n) = Some v"
    and "\<And>n v. (n, v) \<in> set rd \<Longrightarrow>
           record_of cls col fk m0 ad rd (fk n) = Some (linked_value cls rd n)"
    and "\<And>n. n \<in> set (map fst (attrs_by_japi_name cls)) \<Longrightarrow> n \<notin> set (map fst ad) \<Longrightarrow>
           record_of cls col fk m0 ad rd (col n) = m0 (col n)"
    and "\<And>n. n \<in> set (map fst (rels_by_japi_name cls)) \<Longrightarrow> n \<notin> set (map fst rd) \<Longrightarrow>
           record_of cls col fk m0 ad rd (fk n) = m0 (fk n)"
    and "\<And>c. c \<notin> col ` set (map fst (attrs_by_japi_name cls)) \<Longrightarrow>
           c \<notin> fk ` set (map fst (rels_by_japi_name cls)) \<Longrightarrow>
           record_of cls col fk m0 ad rd c = m0 c"
proof -
  note c = conformingD[OF cf]
  note k = plain_class_columns[OF pc]
  let ?an = "map fst (attrs_by_japi_name cls)" and ?rn = "map fst (rels_by_japi_name cls)"
  have sa: "set (map fst ad) \<subseteq> set ?an" using c(6) by auto
  have sr: "set (map fst rd) \<subseteq> set ?rn" using c(7) by auto
  have da: "distinct (map col (map fst ad))"
    using distinct_map_subset[OF k(1) c(4) sa] .
  have dr: "distinct (map fk (map fst rd))"
    using distinct_map_subset[OF k(2) c(5) sr] .
  have col_not_fk: "col n \<notin> fk ` set (map fst rd)" if "n \<in> set ?an" for n
    using that k(3) sr by blast
  show "record_of cls col fk m0 ad rd (col n) = Some v" if nv: "(n, v) \<in> set ad" for n v
  proof -
    have n: "n \<in> set (map fst ad)" using nv by force
    then have n': "n \<in> set ?an" using sa by blast
    have v: "item_of (JObj ad) n = v"
      using c(4) nv by (intro item_of_map_of) (simp add: map_of_distinct_iff)
    have "record_of cls col fk m0 ad rd (col n) = written col (item_of (JObj ad)) (map fst ad) m0 (col n)"
      unfolding record_of_def using col_not_fk[OF n'] by (rule written_other)
    also have "\<dots> = Some (item_of (JObj ad) n)" using n da by (rule written_at)
    finally show ?thesis using v by simp
  qed
  show "record_of cls col fk m0 ad rd (fk n) = Some (linked_value cls rd n)"
    if nv: "(n, v) \<in> set rd" for n v
  proof -
    have n: "n \<in> set (map fst rd)" using nv by force
    show ?thesis unfolding record_of_def using n dr by (rule written_at)
  qed
  show "record_of cls col fk m0 ad rd (col n) = m0 (col n)"
    if n: "n \<in> set ?an" "n \<notin> set (map fst ad)" for n
  proof -
    have "record_of cls col fk m0 ad rd (col n) = written col (item_of (JObj ad)) (map fst ad) m0 (col n)"
      unfolding record_of_def using col_not_fk[OF n(1)] by (rule written_other)
    also have "\<dots> = m0 (col n)"
      using inj_on_image_notin[OF k(1) n(1) sa n(2)] by (rule written_other)
    finally show ?thesis .
  qed
  show "record_of cls col fk m0 ad rd (fk n) = m0 (fk n)"
    if n: "n \<in> set ?rn" "n \<notin> set (map fst rd)" for n
  proof -
    have "fk n \<notin> col ` set (map fst ad)" using n(1) k(3) sa by blast
    then have "written col (item_of (JObj ad)) (map fst ad) m0 (fk n) = m0 (fk n)"
      by (rule written_other)
    moreover have "record_of cls col fk m0 ad rd (fk n)
        = written col (item_of (JObj ad)) (map fst ad) m0 (fk n)"
      unfolding record_of_def using inj_on_image_notin[OF k(2) n(1) sr n(2)] by (rule written_other)
    ultimately show ?thesis by simp
  qed
  show "record_of cls col fk m0 ad rd c = m0 c"
    if n: "c \<notin> col ` set ?an" "c \<notin> fk ` set ?rn" for c
  proof -
    have "c \<notin> fk ` set (map fst rd)" "c \<notin> col ` set (map fst ad)" using n sa sr by blast+
    then show ?thesis unfolding record_of_def by (simp add: written_other)
  qed
qed

lemma record_of_fields:
  assumes pc: "plain_class cls col fk pk" and cf: "conforming cls col fk pk m0 d ad rd"
  shows "\<And>n f. (n, f) \<in> set (attrs_by_japi_name cls) \<Longrightarrow>
           \<exists>v. record_of cls col fk m0 ad rd (col n) = Some v \<and> (nullable f \<or> \<not> is_null v)"
    and "\<And>n r. (n, r) \<in> set (rels_by_japi_name cls) \<Longrightarrow>
           \<exists>k. record_of cls col fk m0 ad rd (fk n) = Some (JInt k)"
    and "record_of cls col fk m0 ad rd pk = m0 pk"
proof -
  note c = conformingD[OF cf]
  note rc = record_of_columns[OF pc cf]
  show "\<exists>v. record_of cls col fk m0 ad rd (col n) = Some v \<and> (nullable f \<or> \<not> is_null v)"
    if nf: "(n, f) \<in> set (attrs_by_japi_name cls)" for n f
  proof (cases "n \<in> set (map fst ad)")
    case True
    then obtain v where v: "(n, v) \<in> set ad" by auto
    from conforming_attr_given[OF pc cf v] obtain f' where
      "map_of (attrs_by_japi_name cls) n = Some f'" "nullable f' \<or> \<not> is_null v" by blast
    moreover have "map_of (attrs_by_japi_name cls) n = Some f" using plain_class_attr[OF pc nf] by simp
    ultimately show ?thesis using rc(1)[OF v] by auto
  next
    case False
    have m: "map_of (attrs_by_japi_name cls) n = Some f" using plain_class_attr[OF pc nf] by simp
    have n: "n \<in> set (map fst (attrs_by_japi_name cls))" using nf by force
    from conforming_missing_attr[OF pc cf m False] rc(3)[OF n False]
    show ?thesis by auto
  qed
  show "\<exists>k. record_of cls col fk m0 ad rd (fk n) = Some (JInt k)"
    if nr: "(n, r) \<in> set (rels_by_japi_name cls)" for n r
  proof (cases "n \<in> set (map fst rd)")
    case True
    then obtain v where v: "(n, v) \<in> set rd" by auto
    from conforming_rel_given[OF pc cf v] rc(2)[OF v] show ?thesis by auto
  next
    case False
    have m: "map_of (rels_by_japi_name cls) n = Some r" using plain_class_rel[OF pc nr] by simp
    have n: "n \<in> set (map fst (rels_by_japi_name cls))" using nr by force
    from conforming_missing_rel[OF pc cf m False] rc(4)[OF n False]
    show ?thesis by auto
  qed
  show "record_of cls col fk m0 ad rd pk = m0 pk"
    using rc(5)[of pk] plain_class_columns(4,5)[OF pc] by simp
qed

subsection \<open>serialize\<close>

lemma serialize_attributes_plain:
  assumes "\<forall>kv \<in> set l. attr_on (snd kv) (col (fst kv)) \<and> (\<exists>v. m (col (fst kv)) = Some v)"
  shows "serialize_attributes None m l = Inr (map (\<lambda>kv. (fst kv, value_at m (col (fst kv)))) l)"
  using assms
proof (induction l)
  case Nil
  then show ?case by simp
next
  case (Cons a l)
  obtain n f where a: "a = (n, f)" by (cases a)
  from Cons.prems a obtain v where
    f: "fget f = Some (default_fget (col n))" and v: "m (col n) = Some v"
    by (auto simp: attr_on_def)
  have "Attribute_serialize f m = Inr v"
    using f v by (simp add: Attribute_serialize_def call_fget_def default_fget_def getattr_def)
  moreover have "serialize_attributes None m l
      = Inr (map (\<lambda>kv. (fst kv, value_at m (col (fst kv)))) l)"
    using Cons.IH Cons.prems by simp
  ultimately show ?case using a v by (simp add: selected_def sbind_def value_at_def)
qed

lemma Relationship_serialize_plain:
  assumes "rel_on r c" and "m c = Some (JInt k)"
  shows "\<exists>y. Relationship_serialize r m ident prefix = Inr y
              \<and> linkage_key (related_resource_class r) y = Some k"
proof -
  from assms(1) obtain u where u: "bound_component r = Inr u"
    by (auto simp: rel_on_def split: sum.splits)
  have g: "call_fget r m = Inr (JInt k)"
    using assms by (simp add: rel_on_def call_fget_def default_fget_def getattr_def)
  have t: "is_to_one r" using assms(1) by (simp add: rel_on_def)
  have p: "py_int (JStr (str_int k)) = Inr k" by (simp add: int_of_str_str_int)
  show ?thesis
    using t g u p
    by (simp add: Relationship_serialize_def ToOneRelationship_serialize_def sbind_def
        relationship_link_def related_link_def linkage_key_def)
qed

lemma serialize_relationships_plain:
  assumes "\<forall>kv \<in> set l. rel_on (snd kv) (fk (fst kv)) \<and> (\<exists>k. m (fk (fst kv)) = Some (JInt k))"
  shows "\<exists>R. serialize_relationships None m ident prefix l = Inr R
              \<and> list_all2 (serialized_rel m fk) l R"
  using assms
proof (induction l)
  case Nil
  then show ?case by simp
next
  case (Cons a l)
  obtain n r where a: "a = (n, r)" by (cases a)
  from Cons.prems a obtain k where r: "rel_on r (fk n)" and k: "m (fk n) = Some (JInt k)"
    by auto
  from Relationship_serialize_plain[of r "fk n" m k ident prefix, OF r k] obtain y where
    y: "Relationship_serialize r m ident prefix = Inr y"
       "linkage_key (related_resource_class r) y = Some k" by blast
  from Cons.IH Cons.prems obtain R where
    R: "serialize_relationships None m ident prefix l = Inr R" "list_all2 (serialized_rel m fk) l R"
    by auto
  have "serialized_rel m fk (n, r) (n, y)" using k y(2) by (simp add: serialized_rel_def)
  then show ?case using a y(1) R by (simp add: selected_def sbind_def)
qed

text \<open>The members of the serialized document that \<open>deserialize\<close> reads.\<close>

lemma get_or_empty_member:
  assumes "map_of pre k = None" and "map_of post k = None"
  shows "get_or_empty (JObj (pre @ (if xs = [] then [] else [(k, JObj xs)]) @ post)) k = Inr xs"
  using assms by (simp add: get_or_empty_def map_add_def)

lemma serialize_plain:
  assumes pc: "plain_class cls col fk pk" and cf: "conforming cls col fk pk m0 d ad rd"
  shows "\<exists>doc R. serialize \<lparr> resource_class = cls, model = record_of cls col fk m0 ad rd \<rparr> prefix None
                  = Inr doc
     \<and> getitem doc ''type'' = Inr (JStr (japi_resource_type cls))
     \<and> get_or_empty doc ''attributes''
         = Inr (map (\<lambda>kv. (fst kv, value_at (record_of cls col fk m0 ad rd) (col (fst kv))))
                  (attrs_by_japi_name cls))
     \<and> get_or_empty doc ''relationships'' = Inr R
     \<and> list_all2 (serialized_rel (record_of cls col fk m0 ad rd) fk) (rels_by_japi_name cls) R"
proof -
  let ?m = "record_of cls col fk m0 ad rd"
  note rf = record_of_fields[OF pc cf]
  from pc obtain i where i: "class_dict cls ''id'' = Some (MId i)" "fget i = Some (default_fget pk)"
    by (auto simp: plain_class_def split: option.splits member.splits)
  from conformingD(10)[OF cf] obtain v s where v: "m0 pk = Some v" "py_str v = Inr s" by blast
  have g: "call_fget i ?m = Inr v"
    using i(2) v(1) rf(3) by (simp add: call_fget_def default_fget_def getattr_def)
  have ci: "class_id cls = Inr i" using i(1) by (simp add: class_id_def)
  have ids: "Id_serialize i ?m = Inr s" using g v(2) by (simp add: Id_serialize_def sbind_def)
  let ?A = "map (\<lambda>kv. (fst kv, value_at ?m (col (fst kv)))) (attrs_by_japi_name cls)"
  have sa: "serialize_attributes None ?m (attrs_by_japi_name cls) = Inr ?A"
  proof (rule serialize_attributes_plain, rule ballI)
    fix kv assume "kv \<in> set (attrs_by_japi_name cls)"
    then have nf: "(fst kv, snd kv) \<in> set (attrs_by_japi_name cls)" by simp
    show "attr_on (snd kv) (col (fst kv)) \<and> (\<exists>v. ?m (col (fst kv)) = Some v)"
      using plain_class_attr(2)[OF pc nf] rf(1)[OF nf] by blast
  qed
  have "\<exists>R. serialize_relationships None ?m s prefix (rels_by_japi_name cls) = Inr R
              \<and> list_all2 (serialized_rel ?m fk) (rels_by_japi_name cls) R"
  proof (rule serialize_relationships_plain, rule ballI)
    fix kv assume "kv \<in> set (rels_by_japi_name cls)"
    then have nr: "(fst kv, snd kv) \<in> set (rels_by_japi_name cls)" by simp
    show "rel_on (snd kv) (fk (fst kv)) \<and> (\<exists>k. ?m (fk (fst kv)) = Some (JInt k))"
      using plain_class_rel(2)[OF pc nr] rf(2)[OF nr] by blast
  qed
  then obtain R where R: "serialize_relationships None ?m s prefix (rels_by_japi_name cls) = Inr R"
    "list_all2 (serialized_rel ?m fk) (rels_by_japi_name cls) R" by blast
  let ?pre = "[(''id'', JStr s), (''type'', JStr (japi_resource_type cls)),
           (''links'', JObj [(''self'',
              JStr (link_for_resource prefix (japi_resource_url_component cls) s))])]"
  let ?doc = "JObj (?pre @ (if ?A = [] then [] else [(''attributes'', JObj ?A)]) @
          (if R = [] then [] else [(''relationships'', JObj R)]))"
  have ser: "serialize \<lparr> resource_class = cls, model = ?m \<rparr> prefix None = Inr ?doc"
    using ci ids g v(2) sa R(1) by (simp add: serialize_def sbind_def Let_def)
  have ty: "getitem ?doc ''type'' = Inr (JStr (japi_resource_type cls))" by simp
  have ga: "get_or_empty ?doc ''attributes'' = Inr ?A"
    by (rule get_or_empty_member) simp_all
  have gr: "get_or_empty ?doc ''relationships'' = Inr R"
    using get_or_empty_member[of "?pre @ (if ?A = [] then [] else [(''attributes'', JObj ?A)])"
        "''relationships''" "[]" R]
    by (simp add: map_add_def)
  show ?thesis using ser ty ga gr R(2) by blast
qed

subsection \<open>The second deserialize\<close>

lemma map_of_map_keys:
  "n \<in> set (map fst l) \<Longrightarrow> map_of (map (\<lambda>kv. (fst kv, g (fst kv))) l) n = Some (g n)"
  by (induction l) auto

lemma list_all2_serialized_keys:
  "list_all2 (serialized_rel m fk) l R \<Longrightarrow> map fst R = map fst l"
  by (induction rule: list_all2_induct) (auto simp: serialized_rel_def)

lemma list_all2_serialized_lookup:
  assumes "list_all2 (serialized_rel m fk) l R" and "distinct (map fst l)" and "(n, r) \<in> set l"
  shows "\<exists>y. map_of R n = Some y \<and> serialized_rel m fk (n, r) (n, y)"
  using assms
proof (induction rule: list_all2_induct)
  case Nil
  then show ?case by simp
next
  case (Cons x xs y ys)
  show ?case
  proof (cases "(n, r) = x")
    case True
    then show ?thesis using Cons.hyps(1) by (cases y) (auto simp: serialized_rel_def)
  next
    case False
    then have in_xs: "(n, r) \<in> set xs" using Cons.prems by auto
    have "fst (n, r) \<in> fst ` set xs" using in_xs by (rule imageI)
    then have "n \<in> fst ` set xs" by simp
    moreover have "fst x \<notin> fst ` set xs" using Cons.prems(1) by simp
    ultimately have "n \<noteq> fst x" by blast
    then have "fst y \<noteq> n" using Cons.hyps(1) by (auto simp: serialized_rel_def)
    moreover have "\<exists>y. map_of ys n = Some y \<and> serialized_rel m fk (n, r) (n, y)"
      using Cons.IH in_xs Cons.prems(1) by simp
    ultimately show ?thesis by (cases y) auto
  qed
qed

lemma second_deserialize:
  assumes pc: "plain_class cls col fk pk" and cf: "conforming cls col fk pk m0 d ad rd"
    and ty: "getitem doc ''type'' = Inr (JStr (japi_resource_type cls))"
    and ga: "get_or_empty doc ''attributes''
         = Inr (map (\<lambda>kv. (fst kv, value_at (record_of cls col fk m0 ad rd) (col (fst kv))))
                  (attrs_by_japi_name cls))"
    and gr: "get_or_empty doc ''relationships'' = Inr R"
    and la: "list_all2 (serialized_rel (record_of cls col fk m0 ad rd) fk) (rels_by_japi_name cls) R"
  shows "deserialize slot cls doc m0
           = Inr \<lparr> resource_class = cls, model = record_of cls col fk m0 ad rd \<rparr>"
proof -
  let ?m = "record_of cls col fk m0 ad rd"
  let ?an = "map fst (attrs_by_japi_name cls)" and ?rn = "map fst (rels_by_japi_name cls)"
  let ?A = "map (\<lambda>kv. (fst kv, value_at ?m (col (fst kv)))) (attrs_by_japi_name cls)"
  note rf = record_of_fields[OF pc cf]
  note rc = record_of_columns[OF pc cf]
  note k = plain_class_columns[OF pc]
  have da: "distinct ?an" and dr: "distinct ?rn" using pc by (simp_all add: plain_class_def)
  have kA: "map fst ?A = ?an" by (simp add: comp_def)
  have kR: "map fst R = ?rn" using list_all2_serialized_keys[OF la] .
  have ca: "check_attributes slot cls ?A = Inr ()"
  proof (rule check_attributes_pass)
    show "\<forall>k \<in> set (map fst ?A). k \<in> set (map fst (attrs_by_japi_name cls))" using kA by simp
    show "\<forall>n field. map_of (attrs_by_japi_name cls) n = Some field \<and> n \<notin> set (map fst ?A)
           \<longrightarrow> has_default field \<or> nullable field"
      unfolding kA by (force dest: map_of_SomeD)
  qed
  have cr: "check_relationships slot cls R = Inr ()"
  proof (rule check_relationships_pass)
    show "\<forall>k \<in> set (map fst R). k \<in> set (map fst (rels_by_japi_name cls))" using kR by simp
    show "\<forall>n field. map_of (rels_by_japi_name cls) n = Some field \<and> n \<notin> set (map fst R)
           \<longrightarrow> nullable field \<or> has_default field"
      unfolding kR by (force dest: map_of_SomeD)
  qed
  have ia: "intersection_keys ?A (attrs_by_japi_name cls) = ?an"
    using intersection_keys_all[of ?A "attrs_by_japi_name cls"] kA by simp
  have ir: "intersection_keys R (rels_by_japi_name cls) = ?rn"
    using intersection_keys_all[of R "rels_by_japi_name cls"] kR by simp
  have wa: "write_attributes slot cls ?A m = Inr (written col (\<lambda>n. value_at ?m (col n)) ?an m)" for m
    unfolding write_attributes_def ia
  proof (rule fold_err_written_iterate)
    show "distinct (map col ?an)" using k(1) .
  next
    fix n m' assume n: "n \<in> set ?an"
    then obtain f where nf: "(n, f) \<in> set (attrs_by_japi_name cls)" by auto
    from rf(1)[OF nf] obtain v where v: "?m (col n) = Some v" "nullable f \<or> \<not> is_null v" by blast
    have "map_of ?A n = Some (value_at ?m (col n))" using n by (rule map_of_map_keys)
    moreover have "value_at ?m (col n) = v" using v(1) by (simp add: value_at_def)
    ultimately show "write_attribute cls ?A n m' = Inr (m'(col n \<mapsto> value_at ?m (col n)))"
      using write_attribute_default[of ?A n v cls f "col n" m'] plain_class_attr[OF pc nf] v(2)
      by simp
  qed
  have wr: "write_relationships slot cls R m = Inr (written fk (\<lambda>n. value_at ?m (fk n)) ?rn m)" for m
    unfolding write_relationships_def ir
  proof (rule fold_err_written_iterate)
    show "distinct (map fk ?rn)" using k(2) .
  next
    fix n m' assume n: "n \<in> set ?rn"
    then obtain r where nr: "(n, r) \<in> set (rels_by_japi_name cls)" by auto
    from list_all2_serialized_lookup[OF la dr nr] obtain y kk where
      y: "map_of R n = Some y" "?m (fk n) = Some (JInt kk)"
         "linkage_key (related_resource_class r) y = Some kk"
      by (auto simp: serialized_rel_def)
    have "value_at ?m (fk n) = JInt kk" using y(2) by (simp add: value_at_def)
    then show "write_relationship cls R n m' = Inr (m'(fk n \<mapsto> value_at ?m (fk n)))"
      using write_relationship_default[of R n y cls r "fk n" kk m'] plain_class_rel[OF pc nr] y
      by simp
  qed
  have same: "written fk (\<lambda>n. value_at ?m (fk n)) ?rn (written col (\<lambda>n. value_at ?m (col n)) ?an m0) = ?m"
  proof (rule ext)
    fix c
    show "written fk (\<lambda>n. value_at ?m (fk n)) ?rn (written col (\<lambda>n. value_at ?m (col n)) ?an m0) c = ?m c"
    proof (cases "c \<in> fk ` set ?rn")
      case True
      then obtain n where n: "n \<in> set ?rn" "c = fk n" by auto
      then obtain r where nr: "(n, r) \<in> set (rels_by_japi_name cls)" by auto
      from rf(2)[OF nr] obtain kk where "?m (fk n) = Some (JInt kk)" by blast
      then have "Some (value_at ?m (fk n)) = ?m (fk n)" by (simp add: value_at_def)
      then show ?thesis using written_at[OF n(1) k(2)] n(2) by simp
    next
      case False
      note nfk = this
      have w: "written fk (\<lambda>n. value_at ?m (fk n)) ?rn (written col (\<lambda>n. value_at ?m (col n)) ?an m0) c
          = written col (\<lambda>n. value_at ?m (col n)) ?an m0 c"
        using False by (rule written_other)
      show ?thesis
      proof (cases "c \<in> col ` set ?an")
        case True
        then obtain n where n: "n \<in> set ?an" "c = col n" by auto
        then obtain f where nf: "(n, f) \<in> set (attrs_by_japi_name cls)" by auto
        from rf(1)[OF nf] obtain v where "?m (col n) = Some v" by blast
        then have "Some (value_at ?m (col n)) = ?m (col n)" by (simp add: value_at_def)
        then show ?thesis using w written_at[OF n(1) k(1)] n(2) by simp
      next
        case False
        then show ?thesis using w nfk rc(5)[of c] by (simp add: written_other)
      qed
    qed
  qed
  have i: "instantiable cls" using pc by (simp add: plain_class_def)
  show ?thesis
    using ty ga gr i ca cr same
    by (simp add: deserialize_def Resource_init_def sbind_def wa wr)
qed

subsection \<open>The example article and its document\<close>

lemma article_plain: "plain_class article_class (\<lambda>n. n) (\<lambda>n. n @ ''_id'') ''id''"
  by (simp add: plain_class_def attr_on_def rel_on_def bound_component_def example_defs
      ALWAYS_SET_def)

lemma article_doc_conforming:
  "conforming article_class (\<lambda>n. n) (\<lambda>n. n @ ''_id'') ''id'' new_article article_doc
     [(''title'', JStr ''T'')]
     [(''author'', JObj [(''data'', JObj [(''type'', JStr ''person''), (''id'', JStr ''9'')])])]"
  by (simp add: conforming_def attribute_given_def relationship_given_def linkage_key_def
      is_null_def int_of_str_defs example_defs get_or_empty_def)

subsection \<open>The round trip\<close>

text \<open>
  C1, amended: let the class be instantiable, with an \<open>id\<close> that reads the primary key
  through the default getter; let every attribute and every relationship of the class
  use the default getter and setter, on columns that differ from each other and from the
  primary key, and be writable during CREATE; and let every relationship be to-one and
  bound to a class that has a URL component. Let the document conform to the class: it
  has the resource's type; its attributes and relationships name declared fields only; an
  attribute that is not nullable is not given null; every relationship it gives holds a
  resource identifier of the related type whose id \<open>int\<close> parses; and a field it leaves out
  has a default or is nullable and already holds, in the new record, a value that could
  have been given (for a relationship, an integer key). Then \<open>deserialize\<close> returns a
  record, \<open>serialize\<close> of that record (with no sparse fieldset) returns a document, and
  \<open>deserialize\<close> of that document returns the same record, in whatever orders the two
  calls iterate their key sets; in it every attribute of the document holds the given
  value and every relationship of the document holds the linked key as its foreign key.
\<close>

theorem deserialize_serialize_deserialize:
  assumes "plain_class cls col fk pk" and "conforming cls col fk pk m0 input_dict ad rd"
  shows "\<exists>r doc. deserialize slot cls input_dict m0 = Inr r
           \<and> serialize r prefix None = Inr doc
           \<and> deserialize slot' cls doc m0 = Inr r
           \<and> list_all (\<lambda>kv. model r (col (fst kv)) = Some (snd kv)) ad
           \<and> list_all (\<lambda>kv. model r (fk (fst kv)) = Some (linked_value cls rd (fst kv))
                              \<and> linked_value cls rd (fst kv) \<noteq> JNull) rd"
proof -
  let ?r = "\<lparr> resource_class = cls, model = record_of cls col fk m0 ad rd \<rparr>"
  from serialize_plain[OF assms, of prefix] obtain doc R where
    s: "serialize ?r prefix None = Inr doc"
    and ty: "getitem doc ''type'' = Inr (JStr (japi_resource_type cls))"
    and ga: "get_or_empty doc ''attributes''
         = Inr (map (\<lambda>kv. (fst kv, value_at (record_of cls col fk m0 ad rd) (col (fst kv))))
                  (attrs_by_japi_name cls))"
    and gr: "get_or_empty doc ''relationships'' = Inr R"
    and la: "list_all2 (serialized_rel (record_of cls col fk m0 ad rd) fk) (rels_by_japi_name cls) R"
    by blast
  have d1: "deserialize slot cls input_dict m0 = Inr ?r" using assms by (rule first_deserialize)
  have d2: "deserialize slot' cls doc m0 = Inr ?r"
    using assms ty ga gr la by (rule second_deserialize)
  have pa: "list_all (\<lambda>kv. model ?r (col (fst kv)) = Some (snd kv)) ad"
    using record_of_columns(1)[OF assms] by (auto simp: list_all_iff)
  have pr: "list_all (\<lambda>kv. model ?r (fk (fst kv)) = Some (linked_value cls rd (fst kv))
                              \<and> linked_value cls rd (fst kv) \<noteq> JNull) rd"
    unfolding list_all_iff
  proof
    fix kv assume "kv \<in> set rd"
    then have m: "(fst kv, snd kv) \<in> set rd" by simp
    from conforming_rel_given[OF assms m] obtain k where "linked_value cls rd (fst kv) = JInt k"
      by blast
    then show "model ?r (fk (fst kv)) = Some (linked_value cls rd (fst kv))
                 \<and> linked_value cls rd (fst kv) \<noteq> JNull"
      using record_of_columns(2)[OF assms m] by simp
  qed
  show ?thesis using d1 s d2 pa pr by blast
qed

theorem deserialize_serialize_deserialize_witness:
  "plain_class article_class (\<lambda>n. n) (\<lambda>n. n @ ''_id'') ''id''
   \<and> conforming article_class (\<lambda>n. n) (\<lambda>n. n @ ''_id'') ''id'' new_article article_doc
        [(''title'', JStr ''T'')]
        [(''author'', JObj [(''data'', JObj [(''type'', JStr ''person''), (''id'', JStr ''9'')])])]
   \<and> (\<exists>r doc. deserialize request_order article_class article_doc new_article = Inr r
          \<and> serialize r ''/api'' None = Inr doc
          \<and> deserialize request_order article_class doc new_article = Inr r
          \<and> model r ''title'' = Some (JStr ''T'')
          \<and> model r ''author_id'' = Some (JInt 9))"
proof -
  let ?rd = "[(''author'', JObj [(''data'', JObj [(''type'', JStr ''person''), (''id'', JStr ''9'')])])]"
  have k: "linked_value article_class ?rd ''author'' = JInt 9"
    by (simp add: linked_value_def linkage_key_def item_of_def int_of_str_defs example_defs)
  from deserialize_serialize_deserialize[where slot = request_order and slot' = request_order
      and prefix = "''/api''", OF article_plain article_doc_conforming]
  obtain r doc where
    "deserialize request_order article_class article_doc new_article = Inr r"
    "serialize r ''/api'' None = Inr doc"
    "deserialize request_order article_class doc new_article = Inr r"
    "model r ''title'' = Some (JStr ''T'')"
    "model r ''author_id'' = Some (linked_value article_class ?rd ''author'')"
    by auto
  then show ?thesis using article_plain article_doc_conforming k by auto
qed

text \<open>
  C1, as the claim states it, fails for the class \<open>page\<close>, whose attribute \<open>revision\<close> is
  writable during UPDATE only: the document gives the title and conforms, the first
  \<open>deserialize\<close> and \<open>serialize\<close> return, but the serialized document holds
  \<open>revision\<close> (null), and the second \<open>deserialize\<close> raises Forbidden (403) instead of
  returning a record.
\<close>

theorem round_trip_update_only_attribute_forbidden:
  "conforming page_class (\<lambda>n. n) (\<lambda>n. n) ''id'' new_page page_doc [(''title'', JStr ''T'')] []
   \<and> deserialize request_order page_class page_doc new_page
       = Inr \<lparr> resource_class = page_class, model = new_page(''title'' \<mapsto> JStr ''T'') \<rparr>
   \<and> serialize \<lparr> resource_class = page_class, model = new_page(''title'' \<mapsto> JStr ''T'') \<rparr>
        ''/api'' None
       = Inr (JObj [(''id'', JStr ''None''), (''type'', JStr ''page''),
                    (''links'', JObj [(''self'', JStr ''/api/pages/None'')]),
                    (''attributes'', JObj [(''title'', JStr ''T''), (''revision'', JNull)])])
   \<and> deserialize request_order page_class
        (JObj [(''id'', JStr ''None''), (''type'', JStr ''page''),
               (''links'', JObj [(''self'', JStr ''/api/pages/None'')]),
               (''attributes'', JObj [(''title'', JStr ''T''), (''revision'', JNull)])])
        new_page
       = Inl (ApiError (Forbidden (no_kwargs\<lparr> kw_detail := ''Cannot write to field'' \<rparr>)))
   \<and> http_status (Forbidden (no_kwargs\<lparr> kw_detail := ''Cannot write to field'' \<rparr>)) = 403"
proof -
  note page_defs = page_class_def title_attr_def revision_attr_def default_id_def page_doc_def
    request_order_def
  note deserialize_defs = deserialize_def check_attributes_def write_attributes_def
    write_attribute_def check_relationships_def write_relationships_def write_relationship_def
    missing_attribute_def missing_relationship_def
    Attribute_deserialize_into_obj_def Attribute_deserialize_def
  have a: "conforming page_class (\<lambda>n. n) (\<lambda>n. n) ''id'' new_page page_doc [(''title'', JStr ''T'')] []"
    by (simp add: conforming_def attribute_given_def is_null_def get_or_empty_def page_defs
        new_page_def)
  have b: "deserialize request_order page_class page_doc new_page
       = Inr \<lparr> resource_class = page_class, model = new_page(''title'' \<mapsto> JStr ''T'') \<rparr>"
    by (simp add: deserialize_defs codec_defs page_defs)
  have c: "serialize \<lparr> resource_class = page_class, model = new_page(''title'' \<mapsto> JStr ''T'') \<rparr>
        ''/api'' None
       = Inr (JObj [(''id'', JStr ''None''), (''type'', JStr ''page''),
                    (''links'', JObj [(''self'', JStr ''/api/pages/None'')]),
                    (''attributes'', JObj [(''title'', JStr ''T''), (''revision'', JNull)])])"
    by (simp add: serialize_def class_id_def selected_def Id_serialize_def Attribute_serialize_def
        link_for_resource_def selected_def py_str.simps codec_defs page_defs new_page_def)
  have d: "deserialize request_order page_class
        (JObj [(''id'', JStr ''None''), (''type'', JStr ''page''),
               (''links'', JObj [(''self'', JStr ''/api/pages/None'')]),
               (''attributes'', JObj [(''title'', JStr ''T''), (''revision'', JNull)])])
        new_page
       = Inl (ApiError (Forbidden (no_kwargs\<lparr> kw_detail := ''Cannot write to field'' \<rparr>)))"
    by (simp add: deserialize_defs codec_defs page_defs)
  have e: "http_status (Forbidden (no_kwargs\<lparr> kw_detail := ''Cannot write to field'' \<rparr>)) = 403"
    by (simp add: Forbidden_def Error_init_def)
  show ?thesis using a b c d e by simp
qed


end
